theory Spec2Isabelle
  imports Complex_Main
begin

section \<open>SEI3HR dynamics of corona.cpp\<close>

text \<open>
  A shallow embedding of \<^verbatim>\<open>corona.cpp\<close>: the classes \<^verbatim>\<open>Reporter\<close>, \<^verbatim>\<open>Population\<close> and
  \<^verbatim>\<open>Metapopulation\<close> and the driver \<^verbatim>\<open>RunSimulation\<close>.

  Conventions of the embedding.
  \<^item> A \<^verbatim>\<open>double\<close> is the \<^typ>\<open>real\<close> it denotes. The arithmetic on counts of individuals
    is exact; a result that is cast to an integer, tested for equality or used as the
    time of a step is rounded to a double (see \<open>double_round\<close> below).
  \<^item> An \<^verbatim>\<open>unsigned int\<close> index or counter is a \<^typ>\<open>nat\<close>; no counter of the file is
    modelled beyond the range of its type.
  \<^item> A \<^verbatim>\<open>vector\<close> is a list. Reading or writing a vector out of range is undefined in
    C++; the lists of the model then read an unspecified value and ignore the write, and
    the theorems below speak about indices in range.
  \<^item> An exception is the left summand of a result; a call that may not return has an
    \<open>option\<close> result, \<open>None\<close> standing for no return.
  \<^item> The classes and functions of \<^verbatim>\<open>compartment.h\<close>, \<^verbatim>\<open>randomizer.h\<close>,
    \<^verbatim>\<open>parameters.h\<close> and \<^verbatim>\<open>process.h\<close> that the file calls are parameters of the
    model, collected in the record \<open>externals\<close>.
\<close>

subsection \<open>Configuration: distribution.h, process.h, parameters.h\<close>

text \<open>\<^verbatim>\<open>Discrete\<close>: the file reads \<^verbatim>\<open>weights\<close> and \<^verbatim>\<open>storage\<close>.\<close>

record Discrete =
  weights :: "real list"
  storage :: "nat list"

text \<open>
  \<^verbatim>\<open>source_id\<close> of a process: one of the nine named constants of the \<^verbatim>\<open>switch\<close> in
  \<^verbatim>\<open>Population::Tick\<close>, or (the \<^verbatim>\<open>default\<close> branch) the index of a process compartment.
\<close>

datatype SourceID =
  srcS | srcE | srcEp | srcEa | srcIp | srcIs | srcH | srcIa | srcI | srcCompartment nat

record ProcessSpec =
  source_id :: SourceID
  ids :: "nat list"
  names :: "string list"
  report :: "string list"
  prob :: "real list list"
  delays :: "Discrete list"
  p_cols :: "nat list"
  p_ids :: "nat list"
  i_cols :: "nat list"
  i_ids :: "nat list"
  o_cols :: "nat list"
  o_ids :: "nat list"

text \<open>An entry of \<^verbatim>\<open>schedule\<close>: the members \<^verbatim>\<open>t\<close>, \<^verbatim>\<open>variable\<close> and \<^verbatim>\<open>value\<close>.\<close>

record ScheduleEntry =
  sched_t :: real
  sched_variable :: string
  sched_value :: "real list"

text \<open>
  \<^verbatim>\<open>P.pop[p]\<close>. The member \<^verbatim>\<open>size\<close> is \<open>size_pp\<close> here; the contact matrix \<^verbatim>\<open>cm(a,b)\<close>
  is a function of the two indices.
\<close>

record PopulationParameters =
  size_pp :: "real list"
  seed_times :: "real list"
  dist_seed_ages :: Discrete
  schedule :: "ScheduleEntry list"
  u :: "real list"
  cm :: "nat \<Rightarrow> nat \<Rightarrow> real"
  fIp :: "real list"
  fIa :: "real list"
  fIs :: "real list"
  y :: "real list"
  rho :: "real list"
  tau :: "real list"
  dE :: Discrete
  dIp :: Discrete
  dIa :: Discrete
  dIs :: Discrete
  dH :: Discrete
  dC :: Discrete

record Parameters =
  time0 :: real
  time1 :: real
  time_step :: real
  report_every :: real
  deterministic :: bool
  pop :: "PopulationParameters list"
  processes :: "ProcessSpec list"
  travel :: "nat \<Rightarrow> nat \<Rightarrow> real"

subsection \<open>Exceptions and casts\<close>

datatype error = logic_error string | runtime_error string

text \<open>
  A call that throws yields \<open>Some (Inl e)\<close>, one that returns \<open>x\<close> yields \<open>Some (Inr x)\<close>,
  one that does not return yields \<open>None\<close>.
\<close>

type_synonym 'a outcome = "(error + 'a) option"

text \<open>\<^verbatim>\<open>(unsigned int) x\<close> and \<^verbatim>\<open>(int) x\<close> of a double: truncation towards zero.\<close>

definition to_uint :: "real \<Rightarrow> nat" where
  "to_uint x = nat \<lfloor>x\<rfloor>"

definition to_int :: "real \<Rightarrow> int" where
  "to_int x = (if 0 \<le> x then \<lfloor>x\<rfloor> else \<lceil>x\<rceil>)"

subsection \<open>Arithmetic of doubles\<close>

text \<open>
  A finite \<^verbatim>\<open>double\<close> is read as the real number it denotes. Where the file only adds
  and multiplies counts of individuals the model computes with these reals. Where the
  result of an operation is cast to an integer, is tested for equality or fixes a row of
  the reporter (the test of the reporter's constructor, its number of times and its rows,
  the number of steps of the driver and the times of its steps) the result is rounded as
  the machine rounds it: to the nearest double, and to the one with the even significand
  when two are equally near. \<open>double_ulp x\<close> is the distance between the doubles around
  \<open>x\<close>: a significand of 53 bits, and \<open>2 powr - 1074\<close> for the subnormal numbers. Results
  of magnitude \<open>2 ^ 1024\<close> or more, which the machine replaces by an infinity, are not
  modelled.
\<close>

definition round_half_even :: "real \<Rightarrow> int" where
  "round_half_even x =
     (if x - of_int \<lfloor>x\<rfloor> < 1 / 2 then \<lfloor>x\<rfloor>
      else if 1 / 2 < x - of_int \<lfloor>x\<rfloor> then \<lfloor>x\<rfloor> + 1
      else if even \<lfloor>x\<rfloor> then \<lfloor>x\<rfloor> else \<lfloor>x\<rfloor> + 1)"

definition double_ulp :: "real \<Rightarrow> real" where
  "double_ulp x = 2 powr real_of_int (max (\<lfloor>log 2 \<bar>x\<bar>\<rfloor> - 52) (- 1074))"

definition double_round :: "real \<Rightarrow> real" where
  "double_round x =
     (if x = 0 then 0 else real_of_int (round_half_even (x / double_ulp x)) * double_ulp x)"

text \<open>\<^verbatim>\<open>v.resize(n, x)\<close>.\<close>

definition resize :: "'a list \<Rightarrow> nat \<Rightarrow> 'a \<Rightarrow> 'a list" where
  "resize xs n x = take n xs @ replicate (n - length xs) x"

subsection \<open>Reporter\<close>

record Reporter =
  active :: bool
  t0 :: real
  n_times :: nat
  n_populations :: nat
  n_age_groups :: nat
  col_names :: "string list"
  data :: "real list list"

text \<open>The innermost loop of the constructor: one column per character of \<^verbatim>\<open>pr.report[j]\<close>.\<close>

fun report_columns ::
  "string \<Rightarrow> nat \<Rightarrow> nat \<Rightarrow> string \<Rightarrow> ProcessSpec \<times> Reporter \<Rightarrow> error + ProcessSpec \<times> Reporter"
where
  "report_columns nm idj cells [] st = Inr st"
| "report_columns nm idj cells (ch # chs) (pr, rep) =
     (let rep1 = rep\<lparr>col_names := col_names rep @ [nm @ ''_'' @ [ch]],
                     data := data rep @ [replicate cells 0]\<rparr>
      in if ch = CHR ''p'' then
           report_columns nm idj cells chs
             (pr\<lparr>p_cols := p_cols pr @ [length (data rep1) - 1], p_ids := p_ids pr @ [idj]\<rparr>, rep1)
         else if ch = CHR ''i'' then
           report_columns nm idj cells chs
             (pr\<lparr>i_cols := i_cols pr @ [length (data rep1) - 1], i_ids := i_ids pr @ [idj]\<rparr>, rep1)
         else if ch = CHR ''o'' then
           report_columns nm idj cells chs
             (pr\<lparr>o_cols := o_cols pr @ [length (data rep1) - 1], o_ids := o_ids pr @ [idj]\<rparr>, rep1)
         else Inl (runtime_error (''Unrecognized process report type '' @ [ch] @ ''.'')))"

text \<open>The loop over \<^verbatim>\<open>j < pr.names.size()\<close>.\<close>

fun report_names ::
  "nat list \<Rightarrow> nat \<Rightarrow> ProcessSpec \<times> Reporter \<Rightarrow> error + ProcessSpec \<times> Reporter"
where
  "report_names [] cells st = Inr st"
| "report_names (j # js) cells (pr, rep) =
     (case report_columns (names pr ! j) (ids pr ! j) cells (report pr ! j) (pr, rep) of
        Inl e \<Rightarrow> Inl e
      | Inr st \<Rightarrow> report_names js cells st)"

text \<open>The loop over \<^verbatim>\<open>P.processes\<close>; each process is updated in place.\<close>

fun report_processes ::
  "ProcessSpec list \<Rightarrow> nat \<Rightarrow> Reporter \<Rightarrow> error + ProcessSpec list \<times> Reporter"
where
  "report_processes [] cells rep = Inr ([], rep)"
| "report_processes (pr # prs) cells rep =
     (case report_names [0..<length (names pr)] cells (pr, rep) of
        Inl e \<Rightarrow> Inl e
      | Inr (pr1, rep1) \<Rightarrow>
          (case report_processes prs cells rep1 of
             Inl e \<Rightarrow> Inl e
           | Inr (prs1, rep2) \<Rightarrow> Inr (pr1 # prs1, rep2)))"

text \<open>
  The constructor. \<^verbatim>\<open>1. / P.report_every\<close> is an infinity when \<^verbatim>\<open>report_every\<close> is zero,
  which no time step equals; otherwise it is the quotient, rounded.
\<close>

definition Reporter_new :: "Parameters \<Rightarrow> bool \<Rightarrow> error + Parameters \<times> Reporter" where
  "Reporter_new P full_dynamics =
     (if report_every P = 0 \<or> time_step P \<noteq> double_round (1 / report_every P) then
        Inl (logic_error ''TODO: PopulationReporter requires P.time_step = 1 / P.report_every.'')
      else
        let nt = to_uint (double_round (time1 P - time0 P)) + 1;
            np = length (pop P);
            na = length (size_pp (pop P ! 0));
            rep0 = \<lparr>active = full_dynamics, t0 = time0 P, n_times = nt, n_populations = np,
                    n_age_groups = na,
                    col_names = [''S'', ''E'', ''Ip'', ''Is'', ''Ia'', ''R'', ''cases'',
                                 ''cases_reported'', ''subclinical''],
                    data = replicate 9 (replicate (nt * np * na) 0)\<rparr>
        in case report_processes (processes P) (nt * np * na) rep0 of
             Inl e \<Rightarrow> Inl e
           | Inr (prs, rep) \<Rightarrow> Inr (P\<lparr>processes := prs\<rparr>, rep))"

text \<open>\<^verbatim>\<open>operator()\<close>: the row of a cell, a read of it and a write to it.\<close>

definition rep_row :: "Reporter \<Rightarrow> real \<Rightarrow> nat \<Rightarrow> nat \<Rightarrow> nat" where
  "rep_row rep t j a =
     to_uint (double_round (t - t0 rep)) * n_populations rep * n_age_groups rep + j * n_age_groups rep + a"

definition rep_get :: "Reporter \<Rightarrow> real \<Rightarrow> nat \<Rightarrow> nat \<Rightarrow> nat \<Rightarrow> real" where
  "rep_get rep t j a c = data rep ! c ! rep_row rep t j a"

definition rep_set :: "Reporter \<Rightarrow> real \<Rightarrow> nat \<Rightarrow> nat \<Rightarrow> nat \<Rightarrow> real \<Rightarrow> Reporter" where
  "rep_set rep t j a c v =
     rep\<lparr>data := (data rep)[c := (data rep ! c)[rep_row rep t j a := v]]\<rparr>"

definition rep_add :: "Reporter \<Rightarrow> real \<Rightarrow> nat \<Rightarrow> nat \<Rightarrow> nat \<Rightarrow> real \<Rightarrow> Reporter" where
  "rep_add rep t j a c v = rep_set rep t j a c (rep_get rep t j a c + v)"

subsection \<open>The collaborators of the file\<close>

text \<open>
  \<open>'c\<close> is the state of a \<^verbatim>\<open>Compartment\<close>, \<open>'r\<close> that of the \<^verbatim>\<open>Randomizer\<close>.
  \<^item> \<open>Compartment_new\<close>, \<open>Size\<close>, \<open>Add\<close>, \<open>Mature\<close>: the class \<^verbatim>\<open>Compartment\<close>;
    \<^verbatim>\<open>Add(P, Rand, n, delay)\<close> yields the new compartment and the new randomizer.
  \<^item> \<open>Binomial\<close>, \<open>Multinomial\<close>: the draws of \<^verbatim>\<open>Randomizer\<close>; \<^verbatim>\<open>Multinomial(n, p, out)\<close>
    writes its counts into \<^verbatim>\<open>out\<close>.
  \<^item> \<open>Set_variable\<close>: \<^verbatim>\<open>P.pop[p].Set(&P, variable, value)\<close>, which may assign anywhere in
    the parameters; \<open>Recalculate\<close>: \<^verbatim>\<open>P.pop[p].Recalculate()\<close>.
  \<^item> \<open>observer\<close>: \<^verbatim>\<open>P.pop[p].observer(P.pop[p], -1, -1, t, -1)\<close>, a member of each
    population's parameters: its first argument here is the index \<open>p\<close>.
\<close>

record ('c, 'r) externals =
  Compartment_new :: 'c
  Size :: "'c \<Rightarrow> real"
  Add :: "Parameters \<Rightarrow> 'r \<Rightarrow> real \<Rightarrow> Discrete \<Rightarrow> 'c \<Rightarrow> 'c \<times> 'r"
  Mature :: "'c \<Rightarrow> real \<times> 'c"
  Binomial :: "'r \<Rightarrow> real \<Rightarrow> real \<Rightarrow> nat \<times> 'r"
  Multinomial :: "'r \<Rightarrow> real \<Rightarrow> real list \<Rightarrow> nat list \<Rightarrow> nat list \<times> 'r"
  Set_variable :: "Parameters \<Rightarrow> nat \<Rightarrow> string \<Rightarrow> real list \<Rightarrow> Parameters"
  Recalculate :: "PopulationParameters \<Rightarrow> PopulationParameters"
  observer :: "nat \<Rightarrow> PopulationParameters \<Rightarrow> real \<Rightarrow> bool"

subsection \<open>Population\<close>

record 'c Population =
  lambda :: "real list"
  S :: "real list"
  R :: "real list"
  E :: "'c list"
  Ip :: "'c list"
  Ia :: "'c list"
  Is :: "'c list"
  H :: "'c list"
  C :: "'c list"
  seed_row :: nat
  schedule_row :: nat
  p :: nat
  pc :: "'c list list"
  ni_out :: "nat list"
  nd_out :: "real list"
  pci :: "real list"
  pco :: "real list"

definition Population_new :: "('c, 'r) externals \<Rightarrow> Parameters \<Rightarrow> nat \<Rightarrow> 'c Population" where
  "Population_new ext P pindex =
     (let S0 = size_pp (pop P ! pindex);
          n_pc = fold (\<lambda>pr n. n + length (ids pr)) (processes P) 0
      in \<lparr>lambda = [], S = S0, R = replicate (length S0) 0,
          E = replicate (length S0) (Compartment_new ext),
          Ip = replicate (length S0) (Compartment_new ext),
          Ia = replicate (length S0) (Compartment_new ext),
          Is = replicate (length S0) (Compartment_new ext),
          H = replicate (length S0) (Compartment_new ext),
          C = replicate (length S0) (Compartment_new ext),
          seed_row = 0, schedule_row = 0, p = pindex,
          pc = replicate n_pc (replicate (length S0) (Compartment_new ext)),
          ni_out = [], nd_out = [],
          pci = replicate n_pc 0, pco = replicate n_pc 0\<rparr>)"

subsubsection \<open>Contagiousness\<close>

text \<open>The closure \<^verbatim>\<open>add\<close>: the guard, then the move of \<open>n\<close> from \<open>S[age]\<close> to \<open>E[age]\<close>.\<close>

definition add ::
  "('c, 'r) externals \<Rightarrow> Parameters \<Rightarrow> nat \<Rightarrow> real \<Rightarrow> 'c Population \<times> 'r
    \<Rightarrow> error + 'c Population \<times> 'r"
where
  "add ext P age n st =
     (case st of (pp, r) \<Rightarrow>
        if S pp ! age < n then
          Inl (logic_error ''Not enough unexposed individuals to seed new infections.'')
        else
          (case Add ext P r n (dE (pop P ! p pp)) (E pp ! age) of (e1, r1) \<Rightarrow>
             Inr (pp\<lparr>S := (S pp)[age := S pp ! age - n], E := (E pp)[age := e1]\<rparr>, r1)))"

text \<open>Deterministic seeding of one event: \<^verbatim>\<open>add(a, weights[a])\<close> for every age in turn.\<close>

fun seed_deterministic ::
  "('c, 'r) externals \<Rightarrow> Parameters \<Rightarrow> nat list \<Rightarrow> 'c Population \<times> 'r
    \<Rightarrow> error + 'c Population \<times> 'r"
where
  "seed_deterministic ext P [] st = Inr st"
| "seed_deterministic ext P (a # as) st =
     (case add ext P a (weights (dist_seed_ages (pop P ! p (fst st))) ! a) st of
        Inl e \<Rightarrow> Inl e
      | Inr st1 \<Rightarrow> seed_deterministic ext P as st1)"

text \<open>
  Stochastic seeding of one event, after the draw: the first age whose entry of
  \<^verbatim>\<open>storage\<close> is 1 receives one individual, and the loop breaks.
\<close>

fun seed_stochastic ::
  "('c, 'r) externals \<Rightarrow> Parameters \<Rightarrow> nat list \<Rightarrow> 'c Population \<times> 'r
    \<Rightarrow> error + 'c Population \<times> 'r"
where
  "seed_stochastic ext P [] st = Inr st"
| "seed_stochastic ext P (a # as) st =
     (if storage (dist_seed_ages (pop P ! p (fst st))) ! a = 1 then add ext P a 1 st
      else seed_stochastic ext P as st)"

text \<open>The body of the seeding loop, without the increment of \<^verbatim>\<open>seed_row\<close>.\<close>

definition seed_event ::
  "('c, 'r) externals \<Rightarrow> Parameters \<times> 'c Population \<times> 'r
    \<Rightarrow> error + Parameters \<times> 'c Population \<times> 'r"
where
  "seed_event ext st =
     (case st of (P, pp, r) \<Rightarrow>
        if deterministic P then
          (case seed_deterministic ext P [0..<length (S pp)] (pp, r) of
             Inl e \<Rightarrow> Inl e
           | Inr (pp1, r1) \<Rightarrow> Inr (P, pp1, r1))
        else
          (case Multinomial ext r 1 (weights (dist_seed_ages (pop P ! p pp)))
                  (storage (dist_seed_ages (pop P ! p pp))) of
             (st1, r1) \<Rightarrow>
               let P1 = P\<lparr>pop := (pop P)[p pp :=
                           (pop P ! p pp)\<lparr>dist_seed_ages :=
                              (dist_seed_ages (pop P ! p pp))\<lparr>storage := st1\<rparr>\<rparr>]\<rparr>
               in (case seed_stochastic ext P1 [0..<length (S pp)] (pp, r1) of
                     Inl e \<Rightarrow> Inl e
                   | Inr (pp2, r2) \<Rightarrow> Inr (P1, pp2, r2))))"

lemma add_frame:
  assumes "add ext P age n (pp, r) = Inr (pp1, r1)"
  shows "p pp1 = p pp \<and> seed_row pp1 = seed_row pp \<and> schedule_row pp1 = schedule_row pp
    \<and> length (S pp1) = length (S pp)"
  using assms by (auto simp: add_def split: if_splits prod.splits)

lemma seed_deterministic_frame:
  assumes "seed_deterministic ext P as (pp, r) = Inr (pp1, r1)"
  shows "p pp1 = p pp \<and> seed_row pp1 = seed_row pp \<and> schedule_row pp1 = schedule_row pp
    \<and> length (S pp1) = length (S pp)"
  using assms
proof (induction as arbitrary: pp r)
  case Nil
  then show ?case by simp
next
  case (Cons a as)
  then show ?case
    by (auto split: sum.splits dest!: add_frame)
qed

lemma seed_stochastic_frame:
  assumes "seed_stochastic ext P as (pp, r) = Inr (pp1, r1)"
  shows "p pp1 = p pp \<and> seed_row pp1 = seed_row pp \<and> schedule_row pp1 = schedule_row pp
    \<and> length (S pp1) = length (S pp)"
  using assms
proof (induction as arbitrary: pp r)
  case Nil
  then show ?case by simp
next
  case (Cons a as)
  then show ?case
    by (auto split: if_splits dest!: add_frame)
qed

lemma nth_update_storage:
  "seed_times (((ps[j := (ps ! j)\<lparr>dist_seed_ages := d\<rparr>]) ! j)) = seed_times (ps ! j)"
  by (cases "j < length ps") (simp_all add: list_update_beyond)

lemma seed_event_frame:
  assumes "seed_event ext (P, pp, r) = Inr (P1, pp1, r1)"
  shows "p pp1 = p pp" and "seed_row pp1 = seed_row pp" and "schedule_row pp1 = schedule_row pp"
    and "length (S pp1) = length (S pp)"
    and "seed_times (pop P1 ! p pp) = seed_times (pop P ! p pp)"
  using assms
  by (auto simp: seed_event_def nth_update_storage Let_def
      split: if_splits sum.splits prod.splits
      dest!: seed_deterministic_frame seed_stochastic_frame)

text \<open>The seeding loop: every event whose time has come, in the order of \<^verbatim>\<open>seed_times\<close>.\<close>

function seeding ::
  "('c, 'r) externals \<Rightarrow> real \<Rightarrow> Parameters \<times> 'c Population \<times> 'r
    \<Rightarrow> error + Parameters \<times> 'c Population \<times> 'r"
where
  "seeding ext t (P, pp, r) =
     (if seed_row pp < length (seed_times (pop P ! p pp))
         \<and> seed_times (pop P ! p pp) ! seed_row pp \<le> t then
        (case seed_event ext (P, pp, r) of
           Inl e \<Rightarrow> Inl e
         | Inr (P1, pp1, r1) \<Rightarrow> seeding ext t (P1, pp1\<lparr>seed_row := seed_row pp1 + 1\<rparr>, r1))
      else Inr (P, pp, r))"
  by pat_completeness auto
termination
proof (relation "measure (\<lambda>(ext, t, P, pp, r). length (seed_times (pop P ! p pp)) - seed_row pp)")
  show "wf (measure (\<lambda>(ext :: ('c, 'r) externals, t :: real, P, pp :: 'c Population, r :: 'r).
      length (seed_times (pop P ! p pp)) - seed_row pp))"
    by simp
next
  fix ext :: "('c, 'r) externals" and t :: real and P pp and r :: 'r and x2 x y xa ya
  assume c: "seed_row pp < length (seed_times (pop P ! p pp))
      \<and> seed_times (pop P ! p pp) ! seed_row pp \<le> t"
    and e: "seed_event ext (P, pp, r) = Inr x2" "(x, y) = x2" "(xa, ya) = y"
  from e have ev: "seed_event ext (P, pp, r) = Inr (x, xa, ya)" by simp
  from seed_event_frame[OF ev] c
  show "((ext, t, x, xa\<lparr>seed_row := seed_row xa + 1\<rparr>, ya), ext, t, P, pp, r)
      \<in> measure (\<lambda>(ext, t, P, pp, r). length (seed_times (pop P ! p pp)) - seed_row pp)"
    by auto
qed

declare seeding.simps [simp del]

text \<open>
  The loop of scheduled changes. \<^verbatim>\<open>Set\<close> receives the parameters themselves, the
  schedule among them, so nothing in this file bounds the loop: it is a partial function.
\<close>

partial_function (option) scheduled_changes ::
  "('c, 'r) externals \<Rightarrow> real \<Rightarrow> Parameters \<times> 'c Population
    \<Rightarrow> (Parameters \<times> 'c Population) option"
where
  "scheduled_changes ext t st =
     (case st of (P, pp) \<Rightarrow>
        if schedule_row pp < length (schedule (pop P ! p pp))
           \<and> sched_t (schedule (pop P ! p pp) ! schedule_row pp) \<le> t then
          scheduled_changes ext t
            (Set_variable ext P (p pp)
               (sched_variable (schedule (pop P ! p pp) ! schedule_row pp))
               (sched_value (schedule (pop P ! p pp) ! schedule_row pp)),
             pp\<lparr>schedule_row := schedule_row pp + 1\<rparr>)
        else Some (P, pp))"

text \<open>The last loop of \<^verbatim>\<open>Contagiousness\<close>: one entry of \<^verbatim>\<open>contag\<close> per age.\<close>

definition contagiousness_of :: "('c, 'r) externals \<Rightarrow> Parameters \<Rightarrow> 'c Population \<Rightarrow> nat \<Rightarrow> real" where
  "contagiousness_of ext P pp a =
     (if size_pp (pop P ! p pp) ! a = 0 then 0
      else (fIp (pop P ! p pp) ! a * Size ext (Ip pp ! a)
            + fIa (pop P ! p pp) ! a * Size ext (Ia pp ! a)
            + fIs (pop P ! p pp) ! a * Size ext (Is pp ! a)) / size_pp (pop P ! p pp) ! a)"

definition Population_Contagiousness ::
  "('c, 'r) externals \<Rightarrow> Parameters \<Rightarrow> 'r \<Rightarrow> real \<Rightarrow> real list \<Rightarrow> 'c Population
    \<Rightarrow> (Parameters \<times> 'c Population \<times> 'r \<times> real list) outcome"
where
  "Population_Contagiousness ext P r t contag0 pp =
     (case seeding ext t (P, pp, r) of
        Inl e \<Rightarrow> Some (Inl e)
      | Inr (P1, pp1, r1) \<Rightarrow>
          (case scheduled_changes ext t (P1, pp1) of
             None \<Rightarrow> None
           | Some (P2, pp2) \<Rightarrow>
               let P3 = P2\<lparr>pop := (pop P2)[p pp2 := Recalculate ext (pop P2 ! p pp2)]\<rparr>
               in Some (Inr (P3, pp2, r1,
                    fold (\<lambda>a cg. cg[a := contagiousness_of ext P3 pp2 a])
                      [0..<length contag0] contag0))))"

subsubsection \<open>Tick\<close>

text \<open>The force of infection: \<^verbatim>\<open>lambda.assign(infec.size(), 0.0)\<close> and the two nested loops.\<close>

definition force_of_infection :: "PopulationParameters \<Rightarrow> real list \<Rightarrow> real list" where
  "force_of_infection q force =
     fold (\<lambda>a lam.
             fold (\<lambda>b lam1. lam1[a := lam1 ! a + u q ! a * cm q a b * force ! b])
               [0..<length lam] lam)
       [0..<length force] (replicate (length force) 0)"

text \<open>The closures \<^verbatim>\<open>binomial\<close> and \<^verbatim>\<open>multinomial\<close>.\<close>

definition binomial_helper ::
  "('c, 'r) externals \<Rightarrow> Parameters \<Rightarrow> 'r \<Rightarrow> real \<Rightarrow> real \<Rightarrow> real \<times> 'r"
where
  "binomial_helper ext P r n q =
     (if deterministic P then (n * q, r)
      else (case Binomial ext r n q of (k, r1) \<Rightarrow> (real k, r1)))"

definition multinomial_helper ::
  "('c, 'r) externals \<Rightarrow> Parameters \<Rightarrow> 'r \<Rightarrow> real \<Rightarrow> real list \<Rightarrow> real list \<Rightarrow> nat list
    \<Rightarrow> real list \<times> nat list \<times> 'r"
where
  "multinomial_helper ext P r n q nd ni =
     (let nd1 = resize nd (length q) 0
      in if deterministic P then
           (fold (\<lambda>i nd2. nd2[i := n * q ! i]) [0..<length q] nd1, ni, r)
         else
           (case Multinomial ext r n q (resize ni (length q) 0) of
              (ni1, r1) \<Rightarrow>
                (fold (\<lambda>i nd2. nd2[i := real (ni1 ! i)]) [0..<length q] nd1, ni1, r1)))"

text \<open>Step 0 of the loop body: the prevalences, only when \<^verbatim>\<open>t == (int)t\<close>.\<close>

definition process_prevalences ::
  "('c, 'r) externals \<Rightarrow> real \<Rightarrow> nat \<Rightarrow> 'c Population \<Rightarrow> ProcessSpec \<Rightarrow> Reporter \<Rightarrow> Reporter"
where
  "process_prevalences ext t a pp process rep =
     fold (\<lambda>i rp. rep_set rp t (p pp) a (p_cols process ! i)
                     (Size ext (pc pp ! (p_ids process ! i) ! a)))
       [0..<length (p_cols process)] rep"

definition report_prevalences ::
  "('c, 'r) externals \<Rightarrow> Parameters \<Rightarrow> real \<Rightarrow> nat \<Rightarrow> 'c Population \<Rightarrow> Reporter \<Rightarrow> Reporter"
where
  "report_prevalences ext P t a pp rep =
     (if t = real_of_int (to_int t) then
        let rep0 = rep_set rep t (p pp) a 0 (S pp ! a);
            rep1 = rep_set rep0 t (p pp) a 1 (Size ext (E pp ! a));
            rep2 = rep_set rep1 t (p pp) a 2 (Size ext (Ip pp ! a));
            rep3 = rep_set rep2 t (p pp) a 3 (Size ext (Is pp ! a));
            rep4 = rep_set rep3 t (p pp) a 4 (Size ext (Ia pp ! a));
            rep5 = rep_set rep4 t (p pp) a 5 (R pp ! a)
        in fold (process_prevalences ext t a pp) (processes P) rep5
      else rep)"

text \<open>Step 1: the built-in states. The flows of the step are kept for steps 2 and 3.\<close>

record Flows =
  nS_E :: real
  nE_Ipa :: real
  nE_Ip :: real
  nE_Ia :: real
  nIp_Is :: real
  n_to_report :: real
  n_reported :: real
  nIs_H :: real
  nH_R :: real
  nIa_R :: real

definition builtin_states ::
  "('c, 'r) externals \<Rightarrow> Parameters \<Rightarrow> nat \<Rightarrow> 'c Population \<times> 'r \<Rightarrow> Flows \<times> 'c Population \<times> 'r"
where
  "builtin_states ext P a st =
     (case st of (pp, r) \<Rightarrow>
      let q = pop P ! p pp;
          (vS_E, r1) = binomial_helper ext P r (S pp ! a) (1 - exp (- (lambda pp ! a) * time_step P));
          (e1, r2) = Add ext P r1 vS_E (dE q) (E pp ! a);
          (vE_Ipa, e2) = Mature ext e1;
          (vE_Ip, r3) = binomial_helper ext P r2 vE_Ipa (y q ! a);
          vE_Ia = vE_Ipa - vE_Ip;
          (ip1, r4) = Add ext P r3 vE_Ip (dIp q) (Ip pp ! a);
          (ia1, r5) = Add ext P r4 vE_Ia (dIa q) (Ia pp ! a);
          (vIp_Is, ip2) = Mature ext ip1;
          (is1, r6) = Add ext P r5 vIp_Is (dIs q) (Is pp ! a);
          (v_to_report, r7) = binomial_helper ext P r6 vIp_Is (rho q ! a);
          (c1, r8) = Add ext P r7 v_to_report (dC q) (C pp ! a);
          (v_reported, c2) = Mature ext c1;
          (vIs_H, is2) = Mature ext is1;
          (h1, r9) = Add ext P r8 vIs_H (dH q) (H pp ! a);
          (vH_R, h2) = Mature ext h1;
          (vIa_R, ia2) = Mature ext ia1
      in (\<lparr>nS_E = vS_E, nE_Ipa = vE_Ipa, nE_Ip = vE_Ip, nE_Ia = vE_Ia, nIp_Is = vIp_Is,
           n_to_report = v_to_report, n_reported = v_reported, nIs_H = vIs_H, nH_R = vH_R,
           nIa_R = vIa_R\<rparr>,
          pp\<lparr>S := (S pp)[a := S pp ! a - vS_E],
              E := (E pp)[a := e2],
              Ip := (Ip pp)[a := ip2],
              Ia := (Ia pp)[a := ia2],
              Is := (Is pp)[a := is2],
              C := (C pp)[a := c2],
              H := (H pp)[a := h2],
              R := (R pp)[a := R pp ! a + vH_R + vIa_R]\<rparr>,
          r9))"

text \<open>Step 2, first loop: every process compartment of the age matures.\<close>

definition mature_compartment ::
  "('c, 'r) externals \<Rightarrow> nat \<Rightarrow> nat \<Rightarrow> 'c Population \<Rightarrow> 'c Population"
where
  "mature_compartment ext a compartment_id pp =
     (case Mature ext (pc pp ! compartment_id ! a) of
        (m, c1) \<Rightarrow>
          pp\<lparr>pco := (pco pp)[compartment_id := m],
              pc := (pc pp)[compartment_id := (pc pp ! compartment_id)[a := c1]]\<rparr>)"

definition mature_processes ::
  "('c, 'r) externals \<Rightarrow> Parameters \<Rightarrow> nat \<Rightarrow> 'c Population \<Rightarrow> 'c Population"
where
  "mature_processes ext P a pp =
     fold (\<lambda>process pp1. fold (mature_compartment ext a) (ids process) pp1) (processes P) pp"

text \<open>Step 2, second loop: the \<^verbatim>\<open>switch\<close> on the source, the split, the seeding.\<close>

fun n_entering :: "Flows \<Rightarrow> real list \<Rightarrow> SourceID \<Rightarrow> real" where
  "n_entering fl po srcS = nS_E fl"
| "n_entering fl po srcE = nE_Ipa fl"
| "n_entering fl po srcEp = nE_Ip fl"
| "n_entering fl po srcEa = nE_Ia fl"
| "n_entering fl po srcIp = nIp_Is fl"
| "n_entering fl po srcIs = nIs_H fl"
| "n_entering fl po srcH = nH_R fl"
| "n_entering fl po srcIa = nIa_R fl"
| "n_entering fl po srcI = nH_R fl + nIa_R fl"
| "n_entering fl po (srcCompartment k) = po ! k"

definition seed_compartment ::
  "('c, 'r) externals \<Rightarrow> Parameters \<Rightarrow> ProcessSpec \<Rightarrow> nat \<Rightarrow> nat \<Rightarrow> 'c Population \<times> 'r
    \<Rightarrow> 'c Population \<times> 'r"
where
  "seed_compartment ext P process a c st =
     (case st of (pp, r) \<Rightarrow>
      let compartment_id = ids process ! c;
          (c1, r1) = Add ext P r (nd_out pp ! c) (delays process ! c) (pc pp ! compartment_id ! a)
      in (pp\<lparr>pc := (pc pp)[compartment_id := (pc pp ! compartment_id)[a := c1]],
              pci := (pci pp)[compartment_id := nd_out pp ! c]\<rparr>, r1))"

definition seed_process ::
  "('c, 'r) externals \<Rightarrow> Parameters \<Rightarrow> Flows \<Rightarrow> nat \<Rightarrow> ProcessSpec \<Rightarrow> 'c Population \<times> 'r
    \<Rightarrow> 'c Population \<times> 'r"
where
  "seed_process ext P fl a process st =
     (case st of (pp, r) \<Rightarrow>
      let (nd, ni, r1) = multinomial_helper ext P r (n_entering fl (pco pp) (source_id process))
                           (prob process ! a) (nd_out pp) (ni_out pp)
      in fold (seed_compartment ext P process a) [0..<length (ids process)]
           (pp\<lparr>nd_out := nd, ni_out := ni\<rparr>, r1))"

definition seed_processes ::
  "('c, 'r) externals \<Rightarrow> Parameters \<Rightarrow> Flows \<Rightarrow> nat \<Rightarrow> 'c Population \<times> 'r
    \<Rightarrow> 'c Population \<times> 'r"
where
  "seed_processes ext P fl a st = fold (seed_process ext P fl a) (processes P) st"

text \<open>Step 3: incidence and outcidence, every one added to its cell.\<close>

definition process_incidences ::
  "real \<Rightarrow> nat \<Rightarrow> 'c Population \<Rightarrow> ProcessSpec \<Rightarrow> Reporter \<Rightarrow> Reporter"
where
  "process_incidences t a pp process rep =
     fold (\<lambda>i rp. rep_add rp t (p pp) a (i_cols process ! i) (pci pp ! (i_ids process ! i)))
       [0..<length (i_cols process)] rep"

definition process_outcidences ::
  "real \<Rightarrow> nat \<Rightarrow> 'c Population \<Rightarrow> ProcessSpec \<Rightarrow> Reporter \<Rightarrow> Reporter"
where
  "process_outcidences t a pp process rep =
     fold (\<lambda>i rp. rep_add rp t (p pp) a (o_cols process ! i) (pco pp ! (o_ids process ! i)))
       [0..<length (o_cols process)] rep"

definition report_incidence ::
  "Parameters \<Rightarrow> real \<Rightarrow> nat \<Rightarrow> Flows \<Rightarrow> 'c Population \<Rightarrow> Reporter \<Rightarrow> Reporter"
where
  "report_incidence P t a fl pp rep =
     (let rep6 = rep_add rep t (p pp) a 6 (nIp_Is fl);
          rep7 = rep_add rep6 t (p pp) a 7 (n_reported fl);
          rep8 = rep_add rep7 t (p pp) a 8 (nE_Ia fl)
      in fold (\<lambda>process rp.
                 process_outcidences t a pp process (process_incidences t a pp process rp))
           (processes P) rep8)"

text \<open>The body of the loop over the age groups.\<close>

definition Tick_age ::
  "('c, 'r) externals \<Rightarrow> Parameters \<Rightarrow> real \<Rightarrow> nat \<Rightarrow> 'c Population \<times> 'r \<times> Reporter
    \<Rightarrow> 'c Population \<times> 'r \<times> Reporter"
where
  "Tick_age ext P t a st =
     (case st of (pp, r, rep) \<Rightarrow>
      let rep1 = report_prevalences ext P t a pp rep;
          (fl, pp1, r1) = builtin_states ext P a (pp, r);
          pp2 = mature_processes ext P a pp1;
          (pp3, r2) = seed_processes ext P fl a (pp2, r1);
          rep2 = report_incidence P t a fl pp3 rep1
      in (pp3, r2, rep2))"

definition Population_Tick ::
  "('c, 'r) externals \<Rightarrow> Parameters \<Rightarrow> 'r \<Rightarrow> real \<Rightarrow> real list \<Rightarrow> Reporter \<Rightarrow> 'c Population
    \<Rightarrow> bool \<times> 'c Population \<times> 'r \<times> Reporter"
where
  "Population_Tick ext P r t force rep pp =
     (let pp0 = pp\<lparr>lambda := force_of_infection (pop P ! p pp) force\<rparr>;
          (pp1, r1, rep1) = fold (Tick_age ext P t) [0..<length (lambda pp0)] (pp0, r, rep)
      in (observer ext (p pp1) (pop P ! p pp1) t, pp1, r1, rep1))"

subsection \<open>Metapopulation\<close>

record 'c Metapopulation =
  contag :: "real list list"
  infec :: "real list list"
  pops :: "'c Population list"

definition Metapopulation_new :: "('c, 'r) externals \<Rightarrow> Parameters \<Rightarrow> 'c Metapopulation" where
  "Metapopulation_new ext P =
     \<lparr>contag = [], infec = [],
      pops = fold (\<lambda>i ps. ps @ [Population_new ext P i]) [0..<length (pop P)] []\<rparr>"

text \<open>The loop that calls \<^verbatim>\<open>Contagiousness\<close> on every population.\<close>

fun contagiousness_loop ::
  "('c, 'r) externals \<Rightarrow> real \<Rightarrow> nat list \<Rightarrow> Parameters \<times> 'c Metapopulation \<times> 'r
    \<Rightarrow> (Parameters \<times> 'c Metapopulation \<times> 'r) outcome"
where
  "contagiousness_loop ext t [] st = Some (Inr st)"
| "contagiousness_loop ext t (j # js) (P, mp, r) =
     (case Population_Contagiousness ext P r t (contag mp ! j) (pops mp ! j) of
        None \<Rightarrow> None
      | Some (Inl e) \<Rightarrow> Some (Inl e)
      | Some (Inr (P1, pp1, r1, cg)) \<Rightarrow>
          contagiousness_loop ext t js
            (P1, mp\<lparr>pops := (pops mp)[j := pp1], contag := (contag mp)[j := cg]\<rparr>, r1))"

text \<open>The three nested loops that fill \<^verbatim>\<open>infec\<close>.\<close>

definition incoming_force :: "Parameters \<Rightarrow> nat \<Rightarrow> nat \<Rightarrow> real list list \<Rightarrow> real list list" where
  "incoming_force P n n_ages cg =
     fold (\<lambda>i force.
        fold (\<lambda>j force1.
           fold (\<lambda>a force2.
                  force2[i := (force2 ! i)[a := force2 ! i ! a
                     + travel P j i * cg ! j ! a * (if j \<noteq> i then tau (pop P ! j) ! a else 1)]])
             [0..<n_ages] force1)
          [0..<n] force)
       [0..<n] (replicate n (replicate n_ages 0))"

text \<open>
  The loop \<^verbatim>\<open>keep_going = keep_going && pops[i].Tick(...)\<close>: the right operand of
  \<^verbatim>\<open>&&\<close> is evaluated only when the left one is true.
\<close>

fun tick_loop ::
  "('c, 'r) externals \<Rightarrow> Parameters \<Rightarrow> real \<Rightarrow> nat list
    \<Rightarrow> bool \<times> 'c Metapopulation \<times> 'r \<times> Reporter \<Rightarrow> bool \<times> 'c Metapopulation \<times> 'r \<times> Reporter"
where
  "tick_loop ext P t [] st = st"
| "tick_loop ext P t (i # is) (keep_going, mp, r, rep) =
     (if keep_going then
        (case Population_Tick ext P r t (infec mp ! i) rep (pops mp ! i) of
           (b, pp1, r1, rep1) \<Rightarrow> tick_loop ext P t is (b, mp\<lparr>pops := (pops mp)[i := pp1]\<rparr>, r1, rep1))
      else tick_loop ext P t is (False, mp, r, rep))"

definition Metapopulation_Tick ::
  "('c, 'r) externals \<Rightarrow> Parameters \<Rightarrow> 'r \<Rightarrow> real \<Rightarrow> nat \<Rightarrow> Reporter \<Rightarrow> 'c Metapopulation
    \<Rightarrow> (bool \<times> Parameters \<times> 'c Metapopulation \<times> 'r \<times> Reporter) outcome"
where
  "Metapopulation_Tick ext P r t ts rep mp =
     (let n_ages = length (size_pp (pop P ! 0));
          mp0 = mp\<lparr>contag := replicate (length (pops mp)) (replicate n_ages 0)\<rparr>
      in case contagiousness_loop ext t [0..<length (pops mp0)] (P, mp0, r) of
           None \<Rightarrow> None
         | Some (Inl e) \<Rightarrow> Some (Inl e)
         | Some (Inr (P1, mp1, r1)) \<Rightarrow>
             let mp2 = mp1\<lparr>infec := incoming_force P1 (length (pops mp1)) n_ages (contag mp1)\<rparr>;
                 (keep_going, mp3, r2, rep1) =
                    tick_loop ext P1 t [0..<length (pops mp2)] (True, mp2, r1, rep)
             in Some (Inr (keep_going, P1, mp3, r2, rep1)))"

subsection \<open>The driver\<close>

text \<open>
  The loop of \<^verbatim>\<open>RunSimulation\<close>, by the number of steps that remain; \<open>ts\<close> is the index
  of the next step.
\<close>

fun simulation_loop ::
  "('c, 'r) externals \<Rightarrow> nat \<Rightarrow> nat \<Rightarrow> Parameters \<times> 'c Metapopulation \<times> 'r \<times> Reporter
    \<Rightarrow> (Parameters \<times> 'c Metapopulation \<times> 'r \<times> Reporter) outcome"
where
  "simulation_loop ext 0 ts st = Some (Inr st)"
| "simulation_loop ext (Suc k) ts (P, mp, r, rep) =
     (case Metapopulation_Tick ext P r (double_round (time0 P + double_round (real ts * time_step P))) ts rep mp of
        None \<Rightarrow> None
      | Some (Inl e) \<Rightarrow> Some (Inl e)
      | Some (Inr (keep_going, P1, mp1, r1, rep1)) \<Rightarrow>
          if \<not> keep_going then Some (Inr (P1, mp1, r1, rep1))
          else simulation_loop ext k (Suc ts) (P1, mp1, r1, rep1))"

text \<open>
  \<^verbatim>\<open>RunSimulation\<close>, with the whole final state; the function itself returns the
  reporter of that state.
\<close>

definition RunSimulation_state ::
  "('c, 'r) externals \<Rightarrow> Parameters \<Rightarrow> 'r
    \<Rightarrow> (Parameters \<times> 'c Metapopulation \<times> 'r \<times> Reporter) outcome"
where
  "RunSimulation_state ext P r =
     (let mp = Metapopulation_new ext P
      in case Reporter_new P True of
           Inl e \<Rightarrow> Some (Inl e)
         | Inr (P1, rep) \<Rightarrow>
             simulation_loop ext (to_uint (double_round (double_round (double_round (1 + time1 P1) - time0 P1) / time_step P1))) 0
               (P1, mp, r, rep))"

definition RunSimulation :: "('c, 'r) externals \<Rightarrow> Parameters \<Rightarrow> 'r \<Rightarrow> Reporter outcome" where
  "RunSimulation ext P r =
     (case RunSimulation_state ext P r of
        None \<Rightarrow> None
      | Some (Inl e) \<Rightarrow> Some (Inl e)
      | Some (Inr (P1, mp, r1, rep)) \<Rightarrow> Some (Inr rep))"

section \<open>Doubles that the rounding leaves as they are\<close>

lemma round_half_even_int: "round_half_even (of_int n) = n"
  by (simp add: round_half_even_def)

lemma double_ulp_pos: "0 < double_ulp x"
  by (simp add: double_ulp_def)

lemma double_round_exact:
  assumes "x / double_ulp x = of_int n"
  shows "double_round x = x"
proof (cases "x = 0")
  case True
  then show ?thesis by (simp add: double_round_def)
next
  case False
  have "real_of_int (round_half_even (x / double_ulp x)) * double_ulp x = x / double_ulp x * double_ulp x"
    by (simp add: assms round_half_even_int)
  also have "\<dots> = x"
    using double_ulp_pos [of x] by simp
  finally show ?thesis
    using False by (simp add: double_round_def)
qed

lemma double_ulp_binade:
  assumes "2 powr real_of_int k \<le> \<bar>x\<bar>" and "\<bar>x\<bar> < 2 powr real_of_int (k + 1)"
  shows "double_ulp x = 2 powr real_of_int (max (k - 52) (- 1074))"
proof -
  from assms have "0 < \<bar>x\<bar>"
    by (smt (verit) powr_gt_zero)
  with assms have "\<lfloor>log 2 \<bar>x\<bar>\<rfloor> = k"
    by (subst floor_log_eq_powr_iff) simp_all
  then show ?thesis
    by (simp add: double_ulp_def)
qed

lemma double_round_nat:
  assumes "n < 2 ^ 53"
  shows "double_round (real n) = real n"
proof (cases "n = 0")
  case True
  then show ?thesis by (simp add: double_round_def)
next
  case False
  define k where "k = \<lfloor>log 2 (real n)\<rfloor>"
  from False have pos: "0 < real n" by simp
  have k: "2 powr real_of_int k \<le> real n" "real n < 2 powr real_of_int (k + 1)"
    using floor_log_eq_powr_iff [of "real n" 2 k] pos by (simp_all add: k_def)
  from False have "1 \<le> real n" by simp
  then have "0 \<le> log 2 (real n)" by simp
  then have k0: "0 \<le> k"
    by (simp add: k_def)
  from assms have "real n < real (2 ^ 53)"
    by (simp only: of_nat_less_iff)
  then have "real n < 2 powr real_of_int 53"
    by (simp add: powr_realpow [symmetric])
  with k(1) have "2 powr real_of_int k < 2 powr real_of_int 53"
    by (rule le_less_trans)
  then have "real_of_int k < real_of_int 53"
    by (rule powr_less_cancel) simp
  then have k52: "k \<le> 52"
    by simp
  have u: "double_ulp (real n) = 2 powr real_of_int (k - 52)"
  proof -
    from k0 have "max (k - 52) (- 1074) = k - 52" by simp
    with double_ulp_binade [of k "real n"] k show ?thesis by simp
  qed
  have "real n / double_ulp (real n) = real n * 2 powr real_of_int (52 - k)"
    unfolding u by (simp add: powr_diff field_simps)
  also have "2 powr real_of_int (52 - k) = 2 powr real (nat (52 - k))"
    using k52 by simp
  also have "\<dots> = 2 ^ nat (52 - k)"
    by (rule powr_realpow) simp
  also have "real n * 2 ^ nat (52 - k) = of_int (int n * 2 ^ nat (52 - k))"
    by simp
  finally show ?thesis
    by (rule double_round_exact)
qed

lemma double_round_half [simp]: "double_round (1 / 2) = 1 / 2"
proof -
  have "double_ulp (1 / 2) = 2 powr real_of_int (- 53)"
    using double_ulp_binade [of "- 1" "1 / 2"] by (simp add: powr_minus)
  then have "(1 / 2) / double_ulp (1 / 2) = of_int (2 ^ 52)"
    by (simp add: powr_minus powr_realpow [symmetric] field_simps)
  then show ?thesis
    by (rule double_round_exact)
qed

lemma double_round_numeral [simp]:
  "double_round 0 = 0" "double_round 1 = 1" "double_round 2 = 2" "double_round 3 = 3"
  using double_round_nat [of 0] double_round_nat [of 1] double_round_nat [of 2] double_round_nat [of 3]
  by simp_all

text \<open>A double that is not the quotient it stands for: \<^verbatim>\<open>1. / 75\<close>.\<close>

lemma double_round_binade:
  assumes "2 powr real_of_int k \<le> \<bar>x\<bar>" and "\<bar>x\<bar> < 2 powr real_of_int (k + 1)"
    and "- 1022 \<le> k" and "k \<le> 52"
  shows "double_round x = real_of_int (round_half_even (x * 2 ^ nat (52 - k))) / 2 ^ nat (52 - k)"
proof -
  from assms(1) have x: "x \<noteq> 0"
    by (smt (verit) powr_gt_zero)
  from assms(3) have "max (k - 52) (- 1074) = k - 52" by simp
  with double_ulp_binade [OF assms(1,2)] have "double_ulp x = 2 powr real_of_int (k - 52)"
    by simp
  also have "\<dots> = 1 / 2 powr real_of_int (52 - k)"
    by (simp add: powr_diff)
  also have "2 powr real_of_int (52 - k) = 2 powr real (nat (52 - k))"
    using assms(4) by simp
  also have "\<dots> = 2 ^ nat (52 - k)"
    by (rule powr_realpow) simp
  finally have "double_ulp x = 1 / 2 ^ nat (52 - k)" .
  with x show ?thesis
    by (simp add: double_round_def)
qed

lemma double_round_75: "double_round (1 / 75) = 7686143364045647 / 2 ^ 59"
proof -
  have "double_round (1 / 75)
      = real_of_int (round_half_even ((1 / 75) * 2 ^ nat (52 - (- 7)))) / 2 ^ nat (52 - (- 7))"
    by (rule double_round_binade) (simp_all add: powr_minus powr_realpow [symmetric, of 2 7, simplified]
        powr_realpow [symmetric, of 2 6, simplified])
  moreover have "round_half_even ((1 / 75) * 2 ^ 59) = 7686143364045647"
    by (simp add: round_half_even_def)
  ultimately show ?thesis
    by simp
qed

section \<open>The contract of the collaborators, and an instance of them\<close>

text \<open>
  What the file needs of \<^verbatim>\<open>Compartment\<close>: a new compartment is empty, \<^verbatim>\<open>Add\<close> of \<open>n\<close>
  raises the size by \<open>n\<close>, and \<^verbatim>\<open>Mature\<close> lowers it by the count it returns (total
  entered minus total matured is the size).
\<close>

definition Compartment_contract :: "('c, 'r) externals \<Rightarrow> bool" where
  "Compartment_contract ext \<longleftrightarrow>
     Size ext (Compartment_new ext) = 0
     \<and> (\<forall>P r n d c. Size ext (fst (Add ext P r n d c)) = Size ext c + n)
     \<and> (\<forall>c. Size ext (snd (Mature ext c)) = Size ext c - fst (Mature ext c))"

text \<open>
  Modelled from the spec: the class \<^verbatim>\<open>Compartment\<close> of \<^verbatim>\<open>compartment.h\<close>, which is not
  part of the file. A compartment is a delay-structured holding buffer: \<open>contents\<close> holds
  at position \<open>k\<close> the individuals that leave \<open>k\<close> steps from now, \<open>occupancy\<close> is the
  total entered minus the total matured. \<^verbatim>\<open>Add\<close> enrols \<open>n\<close> individuals under the delay
  distribution (its expectation in deterministic mode, a multinomial draw otherwise);
  \<^verbatim>\<open>Mature\<close> advances one step and returns the count that leaves.
\<close>

record ref_compartment =
  contents :: "real list"
  occupancy :: real

definition enrol :: "real list \<Rightarrow> real list \<Rightarrow> real list" where
  "enrol xs ys =
     map (\<lambda>k. (if k < length xs then xs ! k else 0) + (if k < length ys then ys ! k else 0))
       [0..<max (length xs) (length ys)]"

text \<open>
  Modelled from the spec: the draws of \<^verbatim>\<open>Randomizer\<close> (\<^verbatim>\<open>randomizer.h\<close>), a binomial
  draw given \<open>(n, p)\<close> and a multinomial draw given \<open>n\<close> and a probability vector that
  produces a vector of counts. This instance is not random: the state counts the draws,
  the binomial draw is the integer part of the mean and the multinomial draw puts every
  individual into the first category of positive weight.
\<close>

definition ref_Binomial :: "nat \<Rightarrow> real \<Rightarrow> real \<Rightarrow> nat \<times> nat" where
  "ref_Binomial r n q = (nat \<lfloor>n * q\<rfloor>, Suc r)"

definition ref_Multinomial :: "nat \<Rightarrow> real \<Rightarrow> real list \<Rightarrow> nat list \<Rightarrow> nat list \<times> nat" where
  "ref_Multinomial r n q out =
     (map (\<lambda>i. if i = length (takeWhile (\<lambda>w. w \<le> 0) q) then nat \<lfloor>n\<rfloor> else 0) [0..<length q],
      Suc r)"

definition ref_Add ::
  "Parameters \<Rightarrow> nat \<Rightarrow> real \<Rightarrow> Discrete \<Rightarrow> ref_compartment \<Rightarrow> ref_compartment \<times> nat"
where
  "ref_Add P r n d c =
     (if deterministic P then
        (\<lparr>contents = enrol (contents c) (map (\<lambda>w. n * w) (weights d)),
          occupancy = occupancy c + n\<rparr>, r)
      else
        (case ref_Multinomial r n (weights d) (storage d) of
           (ks, r1) \<Rightarrow>
             (\<lparr>contents = enrol (contents c) (map real ks), occupancy = occupancy c + n\<rparr>, r1)))"

definition ref_Mature :: "ref_compartment \<Rightarrow> real \<times> ref_compartment" where
  "ref_Mature c =
     (case contents c of
        [] \<Rightarrow> (0, c)
      | x # xs \<Rightarrow> (x, \<lparr>contents = xs, occupancy = occupancy c - x\<rparr>))"

text \<open>
  Modelled from the spec: \<^verbatim>\<open>PopulationParameters::Set\<close> of \<^verbatim>\<open>parameters.h\<close>, which
  applies a variable assignment; this instance knows the one variable \<^verbatim>\<open>u\<close>.
\<close>

definition ref_Set :: "Parameters \<Rightarrow> nat \<Rightarrow> string \<Rightarrow> real list \<Rightarrow> Parameters" where
  "ref_Set P j name v =
     (if name = ''u'' then P\<lparr>pop := (pop P)[j := (pop P ! j)\<lparr>u := v\<rparr>]\<rparr> else P)"

definition ref_externals :: "(ref_compartment, nat) externals" where
  "ref_externals =
     \<lparr>Compartment_new = \<lparr>contents = [], occupancy = 0\<rparr>,
      Size = occupancy, Add = ref_Add, Mature = ref_Mature,
      Binomial = ref_Binomial, Multinomial = ref_Multinomial,
      Set_variable = ref_Set, Recalculate = (\<lambda>q. q), observer = (\<lambda>j q t. True)\<rparr>"

lemma ref_contract: "Compartment_contract ref_externals"
  by (auto simp: Compartment_contract_def ref_externals_def ref_Add_def ref_Mature_def
      split: prod.splits list.splits)

text \<open>A configuration of one population with one age group, and a state of it.\<close>

definition delay1 :: Discrete where
  "delay1 = \<lparr>weights = [0, 1], storage = []\<rparr>"

definition pop_params0 :: PopulationParameters where
  "pop_params0 =
     \<lparr>size_pp = [100], seed_times = [], dist_seed_ages = \<lparr>weights = [1], storage = [0]\<rparr>,
      schedule = [], u = [1], cm = (\<lambda>a b. 0), fIp = [1], fIa = [1/2], fIs = [1],
      y = [1/2], rho = [1], tau = [1],
      dE = delay1, dIp = delay1, dIa = delay1, dIs = delay1, dH = delay1, dC = delay1\<rparr>"

definition params0 :: Parameters where
  "params0 =
     \<lparr>time0 = 0, time1 = 1, time_step = 1, report_every = 1, deterministic = True,
      pop = [pop_params0], processes = [], travel = (\<lambda>j i. if i = j then 1 else 0)\<rparr>"

definition population0 :: "ref_compartment Population" where
  "population0 =
     (Population_new ref_externals params0 0)
       \<lparr>S := [90], Ip := [\<lparr>contents = [5], occupancy = 5\<rparr>],
        Ia := [\<lparr>contents = [3], occupancy = 3\<rparr>], Is := [\<lparr>contents = [2], occupancy = 2\<rparr>]\<rparr>"

text \<open>Two coupled populations of one age group each.\<close>

definition params2 :: Parameters where
  "params2 =
     \<lparr>time0 = 0, time1 = 1, time_step = 1, report_every = 1, deterministic = True,
      pop = [pop_params0, pop_params0\<lparr>tau := [1/2]\<rparr>], processes = [],
      travel = (\<lambda>j i. if i = j then 1 else 1/4)\<rparr>"

definition metapopulation2 :: "ref_compartment Metapopulation" where
  "metapopulation2 = \<lparr>contag = [], infec = [], pops = [population0, population0\<lparr>p := 1\<rparr>]\<rparr>"

text \<open>An observer that asks population 0 to stop, and a reporter for two populations.\<close>

definition stopping_externals :: "(ref_compartment, nat) externals" where
  "stopping_externals = ref_externals\<lparr>observer := (\<lambda>j q t. j \<noteq> 0)\<rparr>"

definition reporter2 :: Reporter where
  "reporter2 =
     \<lparr>active = True, t0 = 0, n_times = 2, n_populations = 2, n_age_groups = 1,
      col_names = [''S'', ''E'', ''Ip'', ''Is'', ''Ia'', ''R'', ''cases'', ''cases_reported'',
                   ''subclinical''],
      data = replicate 9 [0, 0, 0, 0]\<rparr>"

lemma params0_simps:
  "pop params0 = [pop_params0]" "processes params0 = []" "time0 params0 = 0"
  "time1 params0 = 1" "time_step params0 = 1" "report_every params0 = 1"
  "deterministic params0"
  by (simp_all add: params0_def)

lemma pop_params0_simps:
  "size_pp pop_params0 = [100]" "seed_times pop_params0 = []" "schedule pop_params0 = []"
  by (simp_all add: pop_params0_def)

lemma Population_new_p: "p (Population_new ext P j) = j"
  by (simp add: Population_new_def Let_def)

lemma Contagiousness_params0:
  assumes "p pp = 0"
  shows "Population_Contagiousness ref_externals params0 r t cg pp
    = Some (Inr (params0, pp, r,
        fold (\<lambda>a cg1. cg1[a := contagiousness_of ref_externals params0 pp a]) [0..<length cg] cg))"
proof -
  have "params0\<lparr>pop := [pop_params0]\<rparr> = params0"
    by (simp add: params0_def)
  then show ?thesis
    using assms
    by (simp add: Population_Contagiousness_def params0_simps pop_params0_simps seeding.simps
        scheduled_changes.simps ref_externals_def)
qed

lemma Metapopulation_Tick_params0:
  "\<exists>b mp1 r1 rep1.
     Metapopulation_Tick ref_externals params0 r t ts rep (Metapopulation_new ref_externals params0)
       = Some (Inr (b, params0, mp1, r1, rep1))"
  by (simp add: Metapopulation_Tick_def Metapopulation_new_def Contagiousness_params0
      Population_new_p params0_simps pop_params0_simps Let_def split: prod.splits)

section \<open>Loops that write a vector entry by entry\<close>

lemma fold_update_each:
  "fold (\<lambda>a xs. xs[a := f a]) [0..<n] xs
     = map (\<lambda>a. if a < n then f a else xs ! a) [0..<length xs]"
proof (induction n)
  case 0
  then show ?case by (simp add: map_nth)
next
  case (Suc n)
  show ?case
    by (rule nth_equalityI) (auto simp: Suc nth_list_update less_Suc_eq)
qed

lemma fold_modify_each:
  "fold (\<lambda>a xs. xs[a := F a (xs ! a)]) [0..<n] xs
     = map (\<lambda>a. if a < n then F a (xs ! a) else xs ! a) [0..<length xs]"
proof (induction n)
  case 0
  then show ?case by (simp add: map_nth)
next
  case (Suc n)
  show ?case
    by (rule nth_equalityI) (auto simp: Suc nth_list_update less_Suc_eq)
qed

lemma fold_update_same:
  "fold (\<lambda>j m. m[i := G j (m ! i)]) js m = m[i := fold G js (m ! i)]"
proof (induction js arbitrary: m)
  case Nil
  then show ?case by simp
next
  case (Cons j js)
  show ?case
  proof (cases "i < length m")
    case True
    then show ?thesis by (simp add: Cons)
  next
    case False
    then show ?thesis by (simp add: Cons list_update_beyond)
  qed
qed

lemma fold_row_add:
  "fold (\<lambda>a xs. xs[a := xs ! a + f a]) [0..<k] xs
     = map (\<lambda>a. if a < k then xs ! a + f a else xs ! a) [0..<length xs]"
  by (rule fold_modify_each [of "\<lambda>a x. x + f a"])

lemma fold_rows_sum:
  "fold (\<lambda>j xs. fold (\<lambda>a ys. ys[a := ys ! a + f j a]) [0..<k] xs) [0..<n] xs
     = map (\<lambda>a. if a < k then xs ! a + (\<Sum>j<n. f j a) else xs ! a) [0..<length xs]"
proof (induction n)
  case 0
  show ?case by (rule nth_equalityI) auto
next
  case (Suc n)
  let ?G = "\<lambda>j xs. fold (\<lambda>a ys. ys[a := ys ! a + f j a]) [0..<k] xs"
  let ?ys = "map (\<lambda>a. if a < k then xs ! a + (\<Sum>j<n. f j a) else xs ! a) [0..<length xs]"
  have "fold ?G [0..<Suc n] xs = ?G n (fold ?G [0..<n] xs)"
    by simp
  also have "\<dots> = ?G n ?ys"
    by (simp only: Suc)
  also have "\<dots> = map (\<lambda>a. if a < k then ?ys ! a + f n a else ?ys ! a) [0..<length ?ys]"
    by (rule fold_row_add)
  also have "\<dots> = map (\<lambda>a. if a < k then xs ! a + (\<Sum>j<Suc n. f j a) else xs ! a) [0..<length xs]"
    by (rule nth_equalityI) (auto simp: add.assoc)
  finally show ?case .
qed

section \<open>Contagiousness of a population\<close>

text \<open>
  Claim C7. When \<^verbatim>\<open>Population::Contagiousness\<close> returns, then for every age group \<open>a\<close> of
  the vector \<^verbatim>\<open>contag\<close> it was given, \<open>contag[a]\<close> is 0 when the size of the age group
  is zero and otherwise
  \<open>(fIp[a] * Ip[a].Size() + fIa[a] * Ia[a].Size() + fIs[a] * Is[a].Size()) / size[a]\<close>:
  the division is guarded. The parameters and compartments are those left by the seeding
  and the scheduled changes of the same call.
\<close>

theorem C7_contagiousness:
  assumes "Population_Contagiousness ext P r t contag0 pp = Some (Inr (P1, pp1, r1, cg))"
    and "a < length contag0"
  shows "cg ! a =
      (if size_pp (pop P1 ! p pp1) ! a = 0 then 0
       else (fIp (pop P1 ! p pp1) ! a * Size ext (Ip pp1 ! a)
             + fIa (pop P1 ! p pp1) ! a * Size ext (Ia pp1 ! a)
             + fIs (pop P1 ! p pp1) ! a * Size ext (Is pp1 ! a)) / size_pp (pop P1 ! p pp1) ! a)"
  using assms
  by (auto simp: Population_Contagiousness_def Let_def fold_update_each contagiousness_of_def
      split: sum.splits option.splits prod.splits)

lemma Contagiousness_population0:
  "Population_Contagiousness ref_externals params0 0 0 [0] population0
     = Some (Inr (params0, population0, 0, [17 / 200]))"
  by (simp add: Population_Contagiousness_def population0_def Population_new_def params0_def
      pop_params0_def seeding.simps scheduled_changes.simps contagiousness_of_def
      ref_externals_def)

theorem C7_contagiousness_witness:
  "Population_Contagiousness ref_externals params0 0 0 [0] population0
     = Some (Inr (params0, population0, 0, [17 / 200]))
   \<and> (0 :: nat) < length [0 :: real]
   \<and> [17 / 200] ! 0 = (1 * 5 + 1 / 2 * 3 + 1 * 2) / (100 :: real)"
  using C7_contagiousness [OF Contagiousness_population0, of 0] Contagiousness_population0
  by (simp add: population0_def Population_new_def params0_def pop_params0_def
      ref_externals_def)

section \<open>The incoming force of infection\<close>

lemma incoming_force_row:
  assumes "i < n"
  shows "incoming_force P n n_ages cg ! i
    = map (\<lambda>a. \<Sum>j<n. travel P j i * cg ! j ! a * (if j \<noteq> i then tau (pop P ! j) ! a else 1))
        [0..<n_ages]"
proof -
  let ?f = "\<lambda>i j a. travel P j i * cg ! j ! a * (if j \<noteq> i then tau (pop P ! j) ! a else 1)"
  have inner: "\<And>i j m. fold (\<lambda>a m. m[i := (m ! i)[a := m ! i ! a + ?f i j a]]) [0..<n_ages] m
      = m[i := fold (\<lambda>a xs. xs[a := xs ! a + ?f i j a]) [0..<n_ages] (m ! i)]"
    by (rule fold_update_same [of _ "\<lambda>a xs. xs[a := xs ! a + ?f _ _ a]"])
  have middle: "\<And>i m. fold (\<lambda>j m. fold (\<lambda>a m. m[i := (m ! i)[a := m ! i ! a + ?f i j a]]) [0..<n_ages] m) [0..<n] m
      = m[i := fold (\<lambda>j xs. fold (\<lambda>a ys. ys[a := ys ! a + ?f i j a]) [0..<n_ages] xs) [0..<n] (m ! i)]"
    unfolding inner
    by (rule fold_update_same [of _ "\<lambda>j xs. fold (\<lambda>a ys. ys[a := ys ! a + ?f _ j a]) [0..<n_ages] xs"])
  have "incoming_force P n n_ages cg
    = fold (\<lambda>i m. m[i := fold (\<lambda>j xs. fold (\<lambda>a ys. ys[a := ys ! a + ?f i j a]) [0..<n_ages] xs) [0..<n] (m ! i)])
        [0..<n] (replicate n (replicate n_ages 0))"
    unfolding incoming_force_def middle ..
  also have "\<dots> = map (\<lambda>i. if i < n
        then fold (\<lambda>j xs. fold (\<lambda>a ys. ys[a := ys ! a + ?f i j a]) [0..<n_ages] xs) [0..<n] (replicate n (replicate n_ages 0) ! i)
        else replicate n (replicate n_ages 0) ! i) [0..<length (replicate n (replicate n_ages (0::real)))]"
    by (rule fold_modify_each)
  finally have "incoming_force P n n_ages cg ! i
      = fold (\<lambda>j xs. fold (\<lambda>a ys. ys[a := ys ! a + ?f i j a]) [0..<n_ages] xs) [0..<n] (replicate n_ages 0)"
    using assms by simp
  also have "\<dots> = map (\<lambda>a. \<Sum>j<n. ?f i j a) [0..<n_ages]"
    unfolding fold_rows_sum by (rule nth_equalityI) auto
  finally show ?thesis .
qed

lemma incoming_force_nth:
  assumes "i < n" and "a < n_ages"
  shows "incoming_force P n n_ages cg ! i ! a
    = (\<Sum>j<n. travel P j i * cg ! j ! a * (if j \<noteq> i then tau (pop P ! j) ! a else 1))"
  using assms by (simp add: incoming_force_row cong: if_cong)

lemma contagiousness_loop_pops:
  assumes "contagiousness_loop ext t js (P, mp, r) = Some (Inr (P1, mp1, r1))"
  shows "length (pops mp1) = length (pops mp)"
  using assms
proof (induction js arbitrary: P mp r)
  case Nil
  then show ?case by simp
next
  case (Cons j js)
  then show ?case
    by (fastforce split: option.splits sum.splits prod.splits)
qed

lemma tick_loop_frame:
  assumes "tick_loop ext P t js (b, mp, r, rep) = (b1, mp1, r1, rep1)"
  shows "infec mp1 = infec mp \<and> contag mp1 = contag mp \<and> length (pops mp1) = length (pops mp)"
  using assms
proof (induction js arbitrary: b mp r rep)
  case Nil
  then show ?case by simp
next
  case (Cons j js)
  then show ?case
    by (fastforce split: if_splits prod.splits)
qed

lemma params2_simps:
  "pop params2 = [pop_params0, pop_params0\<lparr>tau := [1/2]\<rparr>]" "processes params2 = []"
  "time0 params2 = 0" "time1 params2 = 1" "time_step params2 = 1" "report_every params2 = 1"
  "deterministic params2" "travel params2 = (\<lambda>j i. if i = j then 1 else 1/4)"
  by (simp_all add: params2_def)

lemma population0_simps:
  "p population0 = 0" "S population0 = [90]"
  "Ip population0 = [\<lparr>contents = [5], occupancy = 5\<rparr>]"
  "Ia population0 = [\<lparr>contents = [3], occupancy = 3\<rparr>]"
  "Is population0 = [\<lparr>contents = [2], occupancy = 2\<rparr>]"
  by (simp_all add: population0_def Population_new_def Let_def)

lemma Contagiousness_params2:
  assumes "p pp = 0 \<or> p pp = 1"
  shows "Population_Contagiousness (ref_externals\<lparr>observer := ob\<rparr>) params2 r t cg pp
    = Some (Inr (params2, pp, r,
        fold (\<lambda>a cg1. cg1[a := contagiousness_of (ref_externals\<lparr>observer := ob\<rparr>) params2 pp a])
          [0..<length cg] cg))"
proof -
  have "params2\<lparr>pop := (pop params2)[p pp := pop params2 ! p pp]\<rparr> = params2"
    by (simp add: params2_def)
  moreover have "seed_times (pop params2 ! p pp) = []" "schedule (pop params2 ! p pp) = []"
    using assms by (auto simp: params2_simps pop_params0_simps)
  ultimately show ?thesis
    by (simp add: Population_Contagiousness_def seeding.simps
        scheduled_changes.simps ref_externals_def)
qed

lemma contagiousness_params2:
  assumes "p pp = 0 \<or> p pp = 1"
    and "Ip pp = Ip population0" and "Ia pp = Ia population0" and "Is pp = Is population0"
  shows "contagiousness_of (ref_externals\<lparr>observer := ob\<rparr>) params2 pp 0 = 17 / 200"
  using assms
  by (auto simp: contagiousness_of_def params2_simps pop_params0_def population0_simps
      ref_externals_def)

lemma contagiousness_loop_params2:
  "contagiousness_loop (ref_externals\<lparr>observer := ob\<rparr>) t [0..<2]
      (params2, metapopulation2\<lparr>contag := [[0], [0]]\<rparr>, r)
    = Some (Inr (params2, metapopulation2\<lparr>contag := [[17 / 200], [17 / 200]]\<rparr>, r))"
proof -
  have "[0..<2] = [0, 1]"
    by (simp add: numeral_2_eq_2)
  then show ?thesis
    by (simp add: metapopulation2_def Contagiousness_params2 contagiousness_params2
        population0_simps)
qed

lemma metapopulation2_start:
  "metapopulation2\<lparr>contag := replicate (length (pops metapopulation2))
        (replicate (length (size_pp (pop params2 ! 0))) 0)\<rparr>
      = metapopulation2\<lparr>contag := [[0], [0]]\<rparr>"
  "[0..<length (pops metapopulation2)] = [0..<2]"
  by (simp_all add: metapopulation2_def params2_simps pop_params0_simps numeral_2_eq_2)

lemma ref_externals_observer: "ref_externals\<lparr>observer := (\<lambda>j q t. True)\<rparr> = ref_externals"
  by (simp add: ref_externals_def)

lemma Metapopulation_Tick_params2:
  "\<exists>b mp1 r1 rep1.
     Metapopulation_Tick ref_externals params2 r t ts rep metapopulation2
       = Some (Inr (b, params2, mp1, r1, rep1)) \<and> contag mp1 = [[17 / 200], [17 / 200]]"
proof -
  have up: "[0..<length (pops (metapopulation2\<lparr>contag := [[0], [0]]\<rparr>))] = [0..<2]"
    by (simp add: metapopulation2_def numeral_2_eq_2)
  note cl = contagiousness_loop_params2 [of "\<lambda>j q t. True", unfolded ref_externals_observer]
  show ?thesis
    unfolding Metapopulation_Tick_def Let_def metapopulation2_start(1) up cl
    by (auto split: prod.splits dest!: tick_loop_frame)
qed

text \<open>
  Claim C6. When \<^verbatim>\<open>Metapopulation::Tick\<close> returns, the incoming force of every
  destination population \<open>i\<close> and age \<open>a\<close> is the sum over the source populations \<open>j\<close> of
  \<open>travel(j, i) * contag[j][a] * m\<close>, where \<open>m\<close> is 1 for \<open>j = i\<close> and \<open>tau[a]\<close> of
  population \<open>j\<close> otherwise: the term of the population itself is never scaled by the
  external-mixing factor, every other term is.
\<close>

theorem C6_incoming_force:
  assumes "Metapopulation_Tick ext P r t ts rep mp = Some (Inr (keep_going, P1, mp1, r1, rep1))"
    and "i < length (pops mp)" and "a < length (size_pp (pop P ! 0))"
  shows "infec mp1 ! i ! a
    = (\<Sum>j<length (pops mp).
         travel P1 j i * contag mp1 ! j ! a * (if j = i then 1 else tau (pop P1 ! j) ! a))"
proof -
  let ?n_ages = "length (size_pp (pop P ! 0))"
  let ?mp0 = "mp\<lparr>contag := replicate (length (pops mp)) (replicate ?n_ages 0)\<rparr>"
  from assms(1) obtain mp2 r2 where
    cl: "contagiousness_loop ext t [0..<length (pops mp)] (P, ?mp0, r) = Some (Inr (P1, mp2, r2))"
    and tl: "tick_loop ext P1 t [0..<length (pops mp2)]
        (True, mp2\<lparr>infec := incoming_force P1 (length (pops mp2)) ?n_ages (contag mp2)\<rparr>, r2, rep)
      = (keep_going, mp1, r1, rep1)"
    by (auto simp: Metapopulation_Tick_def Let_def split: option.splits sum.splits prod.splits)
  from contagiousness_loop_pops [OF cl] have len: "length (pops mp2) = length (pops mp)"
    by simp
  from tick_loop_frame [OF tl]
  have "infec mp1 = incoming_force P1 (length (pops mp)) ?n_ages (contag mp2)"
    and "contag mp1 = contag mp2"
    by (simp_all add: len)
  then have "infec mp1 ! i ! a
      = (\<Sum>j<length (pops mp).
           travel P1 j i * contag mp1 ! j ! a * (if j \<noteq> i then tau (pop P1 ! j) ! a else 1))"
    using assms(2,3) by (simp only: incoming_force_nth)
  also have "\<dots> = (\<Sum>j<length (pops mp).
           travel P1 j i * contag mp1 ! j ! a * (if j = i then 1 else tau (pop P1 ! j) ! a))"
    by (rule sum.cong) auto
  finally show ?thesis .
qed

theorem C6_incoming_force_witness:
  "\<exists>b mp1 r1 rep1.
     Metapopulation_Tick ref_externals params2 0 0 0 (snd (projr (Reporter_new params2 True)))
       metapopulation2 = Some (Inr (b, params2, mp1, r1, rep1))
     \<and> (0 :: nat) < length (pops metapopulation2)
     \<and> (0 :: nat) < length (size_pp (pop params2 ! 0))
     \<and> infec mp1 ! 0 ! 0 = 1 * (17 / 200) * 1 + 1 / 4 * (17 / 200) * (1 / 2)"
proof -
  obtain b mp1 r1 rep1 where
    mt: "Metapopulation_Tick ref_externals params2 0 0 0 (snd (projr (Reporter_new params2 True)))
       metapopulation2 = Some (Inr (b, params2, mp1, r1, rep1))"
    and cg: "contag mp1 = [[17 / 200], [17 / 200]]"
    using Metapopulation_Tick_params2 by blast
  have i: "0 < length (pops metapopulation2)" and a: "0 < length (size_pp (pop params2 ! 0))"
    by (simp_all add: metapopulation2_def params2_simps pop_params0_simps)
  have "length (pops metapopulation2) = 2"
    by (simp add: metapopulation2_def)
  with C6_incoming_force [OF mt i a] cg
  have "infec mp1 ! 0 ! 0 = 1 * (17 / 200) * 1 + 1 / 4 * (17 / 200) * (1 / 2)"
    by (simp add: params2_simps lessThan_Suc numeral_2_eq_2)
  with mt i a show ?thesis by blast
qed

section \<open>Conservation of the built-in chain\<close>

lemma fold_frame:
  assumes "\<And>x s. g (f x s) = g s"
  shows "g (fold f xs s) = g s"
  by (induction xs arbitrary: s) (simp_all add: assms)

text \<open>The members of a population that only the built-in states write.\<close>

definition core :: "'c Population \<Rightarrow> real list \<times> real list \<times> real list \<times> 'c list \<times> 'c list \<times> 'c list \<times> 'c list \<times> 'c list \<times> 'c list \<times> nat \<times> nat \<times> nat" where
  "core pp = (lambda pp, S pp, R pp, E pp, Ip pp, Ia pp, Is pp, H pp, C pp,
              seed_row pp, schedule_row pp, p pp)"

lemma mature_compartment_core: "core (mature_compartment ext a k pp) = core pp"
  by (simp add: mature_compartment_def core_def split: prod.splits)

lemma mature_processes_core: "core (mature_processes ext P a pp) = core pp"
  unfolding mature_processes_def
  by (intro fold_frame mature_compartment_core)

lemma seed_compartment_core: "core (fst (seed_compartment ext P pr a c st)) = core (fst st)"
  by (simp add: seed_compartment_def core_def Let_def split: prod.splits)

lemma seed_process_core: "core (fst (seed_process ext P fl a pr st)) = core (fst st)"
proof -
  have "core (fst (fold (seed_compartment ext P pr a) cs st1)) = core (fst st1)" for cs st1
    by (rule fold_frame [where g = "\<lambda>s. core (fst s)"]) (rule seed_compartment_core)
  then show ?thesis
    by (simp add: seed_process_def Let_def core_def split: prod.splits)
qed

lemma seed_processes_core: "core (fst (seed_processes ext P fl a st)) = core (fst st)"
  unfolding seed_processes_def
  by (rule fold_frame [where g = "\<lambda>s. core (fst s)"]) (rule seed_process_core)

lemma contract_Add:
  "Compartment_contract ext \<Longrightarrow> Add ext P r n d c = (c1, r1) \<Longrightarrow> Size ext c1 = Size ext c + n"
  by (metis Compartment_contract_def fst_conv)

lemma contract_Mature:
  "Compartment_contract ext \<Longrightarrow> Mature ext c = (m, c1) \<Longrightarrow> Size ext c1 = Size ext c - m"
  by (metis Compartment_contract_def fst_conv snd_conv)

definition core_total :: "('c, 'r) externals \<Rightarrow> 'c Population \<Rightarrow> nat \<Rightarrow> real" where
  "core_total ext pp a =
     S pp ! a + Size ext (E pp ! a) + Size ext (Ip pp ! a) + Size ext (Ia pp ! a)
     + Size ext (Is pp ! a) + Size ext (H pp ! a) + R pp ! a"

definition age_groups :: "'c Population \<Rightarrow> nat \<Rightarrow> bool" where
  "age_groups pp n \<longleftrightarrow>
     length (S pp) = n \<and> length (R pp) = n \<and> length (E pp) = n \<and> length (Ip pp) = n
     \<and> length (Ia pp) = n \<and> length (Is pp) = n \<and> length (H pp) = n"

lemma builtin_states_frame:
  assumes "builtin_states ext P a (pp, r) = (fl, pp1, r1)"
  shows "lambda pp1 = lambda pp \<and> p pp1 = p pp \<and> seed_row pp1 = seed_row pp
    \<and> schedule_row pp1 = schedule_row pp \<and> pc pp1 = pc pp \<and> pci pp1 = pci pp
    \<and> pco pp1 = pco pp \<and> nd_out pp1 = nd_out pp \<and> ni_out pp1 = ni_out pp"
  using assms
  by (auto simp: builtin_states_def Let_def split: prod.splits)

lemma builtin_states_age_groups:
  assumes "builtin_states ext P a (pp, r) = (fl, pp1, r1)"
  shows "age_groups pp1 n = age_groups pp n"
  using assms
  by (auto simp: builtin_states_def Let_def age_groups_def split: prod.splits)

lemma builtin_states_other:
  assumes "builtin_states ext P a (pp, r) = (fl, pp1, r1)" and "b \<noteq> a"
  shows "core_total ext pp1 b = core_total ext pp b"
  using assms
  by (auto simp: builtin_states_def Let_def core_total_def split: prod.splits)

lemma builtin_states_conserves:
  assumes c: "Compartment_contract ext"
    and "builtin_states ext P a (pp, r) = (fl, pp1, r1)" and "age_groups pp n" and "a < n"
  shows "core_total ext pp1 a = core_total ext pp a"
  using assms(2-)
  by (auto simp: builtin_states_def Let_def core_total_def age_groups_def split: prod.splits
      dest!: contract_Add [OF c] contract_Mature [OF c])

definition conserved :: "('c, 'r) externals \<Rightarrow> real list \<Rightarrow> 'c Population \<Rightarrow> bool" where
  "conserved ext s pp \<longleftrightarrow>
     age_groups pp (length s) \<and> (\<forall>a<length s. core_total ext pp a = s ! a)"

lemma conserved_core:
  "core pp1 = core pp \<Longrightarrow> conserved ext s pp1 = conserved ext s pp"
  by (simp add: conserved_def core_def age_groups_def core_total_def)

lemma conserved_lambda [simp]:
  "conserved ext s (pp\<lparr>lambda := l\<rparr>) = conserved ext s pp"
  by (simp add: conserved_def age_groups_def core_total_def)

lemma conserved_seed_row [simp]:
  "conserved ext s (pp\<lparr>seed_row := k\<rparr>) = conserved ext s pp"
  by (simp add: conserved_def age_groups_def core_total_def)

lemma conserved_schedule_row [simp]:
  "conserved ext s (pp\<lparr>schedule_row := k\<rparr>) = conserved ext s pp"
  by (simp add: conserved_def age_groups_def core_total_def)

lemma builtin_states_conserved:
  assumes c: "Compartment_contract ext"
    and b: "builtin_states ext P a (pp, r) = (fl, pp1, r1)" and inv: "conserved ext s pp"
  shows "conserved ext s pp1"
proof -
  have ag: "age_groups pp1 (length s)"
    using inv builtin_states_age_groups [OF b] by (simp add: conserved_def)
  have "core_total ext pp1 b = s ! b" if "b < length s" for b
  proof (cases "b = a")
    case True
    with builtin_states_conserves [OF c b, of "length s"] inv that show ?thesis
      by (simp add: conserved_def)
  next
    case False
    with builtin_states_other [OF b] inv that show ?thesis
      by (simp add: conserved_def)
  qed
  with ag show ?thesis by (simp add: conserved_def)
qed

lemma Tick_age_core:
  assumes "builtin_states ext P a (pp, r) = (fl, pp1, r1)"
  shows "core (fst (Tick_age ext P t a (pp, r, rep))) = core pp1"
proof -
  obtain pp3 r2 where sp: "seed_processes ext P fl a (mature_processes ext P a pp1, r1) = (pp3, r2)"
    by (cases "seed_processes ext P fl a (mature_processes ext P a pp1, r1)")
  from seed_processes_core [of ext P fl a "(mature_processes ext P a pp1, r1)"]
  have "core pp3 = core pp1"
    by (simp add: sp mature_processes_core)
  moreover have "fst (Tick_age ext P t a (pp, r, rep)) = pp3"
    by (simp add: Tick_age_def assms sp)
  ultimately show ?thesis by simp
qed

lemma Tick_age_conserved:
  assumes c: "Compartment_contract ext"
    and inv: "conserved ext s (fst st)"
  shows "conserved ext s (fst (Tick_age ext P t a st))"
proof -
  obtain pp r rep where st: "st = (pp, r, rep)" by (cases st)
  obtain fl pp1 r1 where b: "builtin_states ext P a (pp, r) = (fl, pp1, r1)"
    by (cases "builtin_states ext P a (pp, r)")
  from builtin_states_conserved [OF c b] inv st
  have "conserved ext s pp1" by simp
  with conserved_core [OF Tick_age_core [OF b], of ext s t rep] st show ?thesis
    by simp
qed

lemma fold_Tick_age_conserved:
  assumes c: "Compartment_contract ext" and "conserved ext s (fst st)"
  shows "conserved ext s (fst (fold (Tick_age ext P t) as st))"
  using assms(2) by (induction as arbitrary: st) (simp_all add: Tick_age_conserved [OF c])

lemma Population_Tick_conserved:
  assumes c: "Compartment_contract ext"
    and t: "Population_Tick ext P r t fc rep pp = (b, pp1, r1, rep1)"
    and inv: "conserved ext s pp"
  shows "conserved ext s pp1"
proof -
  let ?st = "(pp\<lparr>lambda := force_of_infection (pop P ! p pp) fc\<rparr>, r, rep)"
  have "conserved ext s (fst (fold (Tick_age ext P t) [0..<length (lambda (fst ?st))] ?st))"
    by (rule fold_Tick_age_conserved [OF c]) (simp add: inv)
  moreover have "pp1 = fst (fold (Tick_age ext P t) [0..<length (lambda (fst ?st))] ?st)"
    using t by (auto simp: Population_Tick_def Let_def split: prod.splits)
  ultimately show ?thesis by simp
qed

lemma add_conserved:
  assumes c: "Compartment_contract ext"
    and a: "add ext P age n (pp, r) = Inr (pp1, r1)" and inv: "conserved ext s pp"
  shows "conserved ext s pp1"
proof (cases "age < length s")
  case True
  with a inv show ?thesis
    by (auto simp: add_def conserved_def age_groups_def core_total_def nth_list_update
        split: if_splits prod.splits dest!: contract_Add [OF c])
next
  case False
  with a inv show ?thesis
    by (auto simp: add_def conserved_def age_groups_def core_total_def nth_list_update
        split: if_splits prod.splits)
qed

lemma seed_deterministic_conserved:
  assumes c: "Compartment_contract ext"
    and "seed_deterministic ext P as (pp, r) = Inr (pp1, r1)" and "conserved ext s pp"
  shows "conserved ext s pp1"
  using assms(2,3)
proof (induction as arbitrary: pp r)
  case Nil
  then show ?case by simp
next
  case (Cons a as)
  then show ?case
    by (auto split: sum.splits dest: add_conserved [OF c])
qed

lemma seed_stochastic_conserved:
  assumes c: "Compartment_contract ext"
    and "seed_stochastic ext P as (pp, r) = Inr (pp1, r1)" and "conserved ext s pp"
  shows "conserved ext s pp1"
  using assms(2,3)
proof (induction as arbitrary: pp r)
  case Nil
  then show ?case by simp
next
  case (Cons a as)
  then show ?case
    by (auto split: if_splits dest: add_conserved [OF c])
qed

lemma seed_event_conserved:
  assumes c: "Compartment_contract ext"
    and "seed_event ext (P, pp, r) = Inr (P1, pp1, r1)" and "conserved ext s pp"
  shows "conserved ext s pp1"
  using assms(2,3)
  by (auto simp: seed_event_def Let_def split: if_splits sum.splits prod.splits
      dest: seed_deterministic_conserved [OF c] seed_stochastic_conserved [OF c])

lemma seeding_conserved:
  assumes c: "Compartment_contract ext"
    and "seeding ext t st = Inr (P1, pp1, r1)" and "conserved ext s (fst (snd st))"
  shows "conserved ext s pp1"
  using assms
proof (induction ext t st rule: seeding.induct)
  case (1 ext t P pp r)
  note c = "1.prems"(1)
  show ?case
  proof (cases "seed_row pp < length (seed_times (pop P ! p pp))
         \<and> seed_times (pop P ! p pp) ! seed_row pp \<le> t")
    case True
    with "1.prems"(2) obtain P2 pp2 r2 where
      ev: "seed_event ext (P, pp, r) = Inr (P2, pp2, r2)"
      and rest: "seeding ext t (P2, pp2\<lparr>seed_row := seed_row pp2 + 1\<rparr>, r2) = Inr (P1, pp1, r1)"
      by (subst (asm) seeding.simps) (auto split: sum.splits)
    from seed_event_conserved [OF c ev] "1.prems"(3)
    have "conserved ext s pp2" by simp
    with "1.IH" [OF True ev refl refl c rest] show ?thesis
      by simp
  next
    case False
    with "1.prems"(2,3) show ?thesis
      by (subst (asm) seeding.simps) auto
  qed
qed

lemma scheduled_changes_population:
  assumes "scheduled_changes ext t st = Some st1"
  shows "core ((snd st1)\<lparr>schedule_row := k\<rparr>) = core ((snd st)\<lparr>schedule_row := k\<rparr>)"
proof (rule scheduled_changes.raw_induct
    [where P = "\<lambda>ext t st st1.
       core ((snd st1)\<lparr>schedule_row := k\<rparr>) = core ((snd st)\<lparr>schedule_row := k\<rparr>)",
     OF _ assms])
  fix sc :: "('c, 'd) externals \<Rightarrow> real \<Rightarrow> Parameters \<times> 'a Population
      \<Rightarrow> (Parameters \<times> 'a Population) option"
    and ext t st st1
  assume IH: "\<And>t st b res. sc t st b = Some res
      \<Longrightarrow> core ((snd res)\<lparr>schedule_row := k\<rparr>) = core ((snd b)\<lparr>schedule_row := k\<rparr>)"
    and step: "(case st of
      (P, pp) \<Rightarrow>
        if schedule_row pp < length (schedule (pop P ! p pp)) \<and>
           sched_t (schedule (pop P ! p pp) ! schedule_row pp) \<le> t
        then sc ext t
              (Set_variable ext P (p pp)
                (sched_variable (schedule (pop P ! p pp) ! schedule_row pp))
                (sched_value (schedule (pop P ! p pp) ! schedule_row pp)),
               pp\<lparr>schedule_row := schedule_row pp + 1\<rparr>)
        else Some (P, pp)) =
     Some st1"
  then show "core ((snd st1)\<lparr>schedule_row := k\<rparr>) = core ((snd st)\<lparr>schedule_row := k\<rparr>)"
    by (auto split: prod.splits if_splits dest!: IH simp: core_def)
qed

lemma list_all2_update_right:
  "list_all2 Q xs ys \<Longrightarrow> Q (xs ! j) v \<Longrightarrow> list_all2 Q xs (ys[j := v])"
  unfolding list_all2_conv_all_nth
  by (metis length_list_update nth_list_update_eq nth_list_update_neq)

lemma scheduled_changes_conserved:
  assumes "scheduled_changes ext t (P, pp) = Some (P1, pp1)"
  shows "conserved ext1 s pp1 = conserved ext1 s pp"
proof -
  from scheduled_changes_population [OF assms, of 0]
  have "conserved ext1 s (pp1\<lparr>schedule_row := 0\<rparr>) = conserved ext1 s (pp\<lparr>schedule_row := 0\<rparr>)"
    by (intro conserved_core) simp
  then show ?thesis by simp
qed

lemma Population_Contagiousness_conserved:
  assumes c: "Compartment_contract ext"
    and "Population_Contagiousness ext P r t cg0 pp = Some (Inr (P1, pp1, r1, cg))"
    and "conserved ext s pp"
  shows "conserved ext s pp1"
  using assms(2,3)
  by (auto simp: Population_Contagiousness_def Let_def
      split: sum.splits option.splits prod.splits
      dest!: seeding_conserved [OF c] scheduled_changes_conserved [where ?ext1.0 = ext and s = s])

text \<open>Conservation in every population of a metapopulation.\<close>

definition all_conserved :: "('c, 'r) externals \<Rightarrow> real list list \<Rightarrow> 'c Metapopulation \<Rightarrow> bool" where
  "all_conserved ext sz mp \<longleftrightarrow> list_all2 (conserved ext) sz (pops mp)"

lemma contagiousness_loop_conserved:
  assumes c: "Compartment_contract ext"
    and "contagiousness_loop ext t js (P, mp, r) = Some (Inr (P1, mp1, r1))"
    and "all_conserved ext sz mp"
  shows "all_conserved ext sz mp1"
  using assms(2,3)
proof (induction js arbitrary: P mp r)
  case Nil
  then show ?case by simp
next
  case (Cons j js)
  from Cons.prems(1) obtain P2 pp2 r2 cg where
    pc: "Population_Contagiousness ext P r t (contag mp ! j) (pops mp ! j) = Some (Inr (P2, pp2, r2, cg))"
    and rest: "contagiousness_loop ext t js
        (P2, mp\<lparr>pops := (pops mp)[j := pp2], contag := (contag mp)[j := cg]\<rparr>, r2)
      = Some (Inr (P1, mp1, r1))"
    by (auto split: option.splits sum.splits prod.splits)
  have "all_conserved ext sz (mp\<lparr>pops := (pops mp)[j := pp2], contag := (contag mp)[j := cg]\<rparr>)"
  proof (cases "j < length (pops mp)")
    case True
    with Cons.prems(2) have "conserved ext (sz ! j) (pops mp ! j)"
      by (simp add: all_conserved_def list_all2_nthD2)
    from Population_Contagiousness_conserved [OF c pc this] Cons.prems(2)
    show ?thesis
      by (auto simp: all_conserved_def intro: list_all2_update_right)
  next
    case False
    with Cons.prems(2) show ?thesis
      by (simp add: all_conserved_def list_update_beyond)
  qed
  from Cons.IH [OF rest this] show ?case .
qed

lemma tick_loop_conserved:
  assumes c: "Compartment_contract ext"
    and "tick_loop ext P t js (b, mp, r, rep) = (b1, mp1, r1, rep1)"
    and "all_conserved ext sz mp"
  shows "all_conserved ext sz mp1"
  using assms(2,3)
proof (induction js arbitrary: b mp r rep)
  case Nil
  then show ?case by simp
next
  case (Cons j js)
  show ?case
  proof (cases b)
    case False
    with Cons show ?thesis by simp
  next
    case True
    obtain b2 pp2 r2 rep2 where
      pt: "Population_Tick ext P r t (infec mp ! j) rep (pops mp ! j) = (b2, pp2, r2, rep2)"
      by (cases "Population_Tick ext P r t (infec mp ! j) rep (pops mp ! j)")
    with True Cons.prems(1) have
      rest: "tick_loop ext P t js (b2, mp\<lparr>pops := (pops mp)[j := pp2]\<rparr>, r2, rep2)
        = (b1, mp1, r1, rep1)"
      by simp
    have "all_conserved ext sz (mp\<lparr>pops := (pops mp)[j := pp2]\<rparr>)"
    proof (cases "j < length (pops mp)")
      case True
      with Cons.prems(2) have "conserved ext (sz ! j) (pops mp ! j)"
        by (simp add: all_conserved_def list_all2_nthD2)
      from Population_Tick_conserved [OF c pt this] Cons.prems(2)
      show ?thesis
        by (auto simp: all_conserved_def intro: list_all2_update_right)
    next
      case False
      with Cons.prems(2) show ?thesis
        by (simp add: all_conserved_def list_update_beyond)
    qed
    from Cons.IH [OF rest this] show ?thesis .
  qed
qed

lemma all_conserved_frame [simp]:
  "all_conserved ext sz (mp\<lparr>contag := x\<rparr>) = all_conserved ext sz mp"
  "all_conserved ext sz (mp\<lparr>infec := z\<rparr>) = all_conserved ext sz mp"
  by (simp_all add: all_conserved_def)

lemma Metapopulation_Tick_conserved:
  assumes c: "Compartment_contract ext"
    and "Metapopulation_Tick ext P r t ts rep mp = Some (Inr (b, P1, mp1, r1, rep1))"
    and "all_conserved ext sz mp"
  shows "all_conserved ext sz mp1"
  using assms(2,3)
  by (auto simp: Metapopulation_Tick_def Let_def
      split: option.splits sum.splits prod.splits
      dest!: contagiousness_loop_conserved [OF c, where sz = sz]
      dest: tick_loop_conserved [OF c, where sz = sz])

lemma simulation_loop_conserved:
  assumes c: "Compartment_contract ext"
    and "simulation_loop ext k ts (P, mp, r, rep) = Some (Inr (P1, mp1, r1, rep1))"
    and "all_conserved ext sz mp"
  shows "all_conserved ext sz mp1"
  using assms(2,3)
proof (induction k arbitrary: ts P mp r rep)
  case 0
  then show ?case by simp
next
  case (Suc k)
  from Suc.prems(1) obtain b P2 mp2 r2 rep2 where
    mt: "Metapopulation_Tick ext P r (double_round (time0 P + double_round (real ts * time_step P))) ts rep mp
      = Some (Inr (b, P2, mp2, r2, rep2))"
    and rest: "if \<not> b then (P1, mp1, r1, rep1) = (P2, mp2, r2, rep2)
      else simulation_loop ext k (Suc ts) (P2, mp2, r2, rep2) = Some (Inr (P1, mp1, r1, rep1))"
    by (auto split: option.splits sum.splits prod.splits if_splits)
  from Metapopulation_Tick_conserved [OF c mt Suc.prems(2)]
  have inv: "all_conserved ext sz mp2" .
  show ?case
  proof (cases b)
    case True
    with rest Suc.IH inv show ?thesis by simp
  next
    case False
    with rest inv show ?thesis by simp
  qed
qed

lemma Population_new_conserved:
  assumes "Compartment_contract ext"
  shows "conserved ext (size_pp (pop P ! j)) (Population_new ext P j)"
  using assms
  by (simp add: conserved_def Population_new_def Let_def age_groups_def core_total_def
      Compartment_contract_def)

lemma fold_snoc_map: "fold (\<lambda>i ps. ps @ [f i]) js xs = xs @ map f js"
  by (induction js arbitrary: xs) simp_all

lemma Metapopulation_new_conserved:
  assumes "Compartment_contract ext"
  shows "all_conserved ext (map size_pp (pop P)) (Metapopulation_new ext P)"
  using Population_new_conserved [OF assms]
  by (simp add: all_conserved_def Metapopulation_new_def fold_snoc_map list_all2_conv_all_nth)

text \<open>
  Claim C2. For every population and every age group of it, after any number of ticks of
  the driver's loop, started from the freshly constructed metapopulation, the sum
  \<open>S + E.Size + Ip.Size + Ia.Size + Is.Size + H.Size + R\<close> is the initial size of the age
  group: the built-in chain moves every outflow into the next built-in state. No process
  of this file takes individuals out of the chain (a process is seeded with a copy of a
  flow), so the equality needs no hypothesis on the processes; it needs the contract of
  \<^verbatim>\<open>Compartment\<close>.
\<close>

theorem C2_conservation:
  assumes "Compartment_contract ext"
    and "simulation_loop ext k ts (P1, Metapopulation_new ext P, r, rep) = Some (Inr (P2, mp2, r2, rep2))"
    and "j < length (pop P)" and "a < length (size_pp (pop P ! j))"
  shows "S (pops mp2 ! j) ! a + Size ext (E (pops mp2 ! j) ! a) + Size ext (Ip (pops mp2 ! j) ! a)
      + Size ext (Ia (pops mp2 ! j) ! a) + Size ext (Is (pops mp2 ! j) ! a)
      + Size ext (H (pops mp2 ! j) ! a) + R (pops mp2 ! j) ! a
    = size_pp (pop P ! j) ! a"
proof -
  from simulation_loop_conserved [OF assms(1,2) Metapopulation_new_conserved [OF assms(1)]]
  have "list_all2 (conserved ext) (map size_pp (pop P)) (pops mp2)"
    by (simp add: all_conserved_def)
  with assms(3) have "conserved ext (size_pp (pop P ! j)) (pops mp2 ! j)"
    by (auto simp: list_all2_conv_all_nth)
  with assms(4) show ?thesis
    by (simp add: conserved_def core_total_def)
qed

text \<open>
  A population of 100 in one age group without contact, and one seed event at time 0 whose
  age weights sum to 10.
\<close>

definition pop_params7 :: PopulationParameters where
  "pop_params7 = pop_params0\<lparr>seed_times := [0], dist_seed_ages := \<lparr>weights = [10], storage = [0]\<rparr>\<rparr>"

definition params7 :: Parameters where
  "params7 = params0\<lparr>time1 := 2, pop := [pop_params7]\<rparr>"

lemmas tick_defs =
  Metapopulation_Tick_def Metapopulation_new_def Population_Contagiousness_def
  seeding.simps scheduled_changes.simps seed_event_def add_def Population_new_def Let_def
  ref_externals_def ref_Add_def ref_Mature_def ref_Multinomial_def ref_Binomial_def enrol_def
  delay1_def contagiousness_of_def incoming_force_def
  Population_Tick_def force_of_infection_def Tick_age_def builtin_states_def
  binomial_helper_def mature_processes_def seed_processes_def report_prevalences_def
  report_incidence_def to_int_def

lemma three_ticks_params7:
  "\<exists>rep3. simulation_loop ref_externals 3 0 (params7, Metapopulation_new ref_externals params7, 0, rep)
     = Some (Inr (params7,
         \<lparr>contag = [[3 / 40]], infec = [[3 / 40]],
          pops = [(Population_new ref_externals params7 0)
                    \<lparr>lambda := [0], S := [90], R := [5],
                     E := [\<lparr>contents = [0], occupancy = 0\<rparr>],
                     Ip := [\<lparr>contents = [0], occupancy = 0\<rparr>],
                     Ia := [\<lparr>contents = [0], occupancy = 0\<rparr>],
                     Is := [\<lparr>contents = [5], occupancy = 5\<rparr>],
                     H := [\<lparr>contents = [0], occupancy = 0\<rparr>],
                     C := [\<lparr>contents = [5], occupancy = 5\<rparr>], seed_row := 1\<rparr>]\<rparr>,
         0, rep3))"
  by (simp add: numeral_3_eq_3 tick_defs params7_def pop_params7_def params0_def pop_params0_def
      split: prod.splits)

theorem C2_conservation_witness:
  "Compartment_contract ref_externals
   \<and> (\<exists>P2 mp2 r2 rep2.
        simulation_loop ref_externals 3 0
          (params7, Metapopulation_new ref_externals params7, 0, snd (projr (Reporter_new params7 True)))
          = Some (Inr (P2, mp2, r2, rep2))
        \<and> S (pops mp2 ! 0) ! 0 = 90 \<and> occupancy (Is (pops mp2 ! 0) ! 0) = 5
        \<and> R (pops mp2 ! 0) ! 0 = 5
        \<and> S (pops mp2 ! 0) ! 0 + occupancy (E (pops mp2 ! 0) ! 0) + occupancy (Ip (pops mp2 ! 0) ! 0)
          + occupancy (Ia (pops mp2 ! 0) ! 0) + occupancy (Is (pops mp2 ! 0) ! 0)
          + occupancy (H (pops mp2 ! 0) ! 0) + R (pops mp2 ! 0) ! 0 = 100)"
proof -
  let ?rep = "snd (projr (Reporter_new params7 True))"
  from three_ticks_params7 [of ?rep] obtain mp3 rep3 where
    sl: "simulation_loop ref_externals 3 0 (params7, Metapopulation_new ref_externals params7, 0, ?rep)
      = Some (Inr (params7, mp3, 0, rep3))"
    and moved: "S (pops mp3 ! 0) ! 0 = 90" "occupancy (Is (pops mp3 ! 0) ! 0) = 5" "R (pops mp3 ! 0) ! 0 = 5"
    by auto
  have j: "0 < length (pop params7)" and a: "0 < length (size_pp (pop params7 ! 0))"
    by (simp_all add: params7_def pop_params7_def params0_def pop_params0_def)
  from C2_conservation [OF ref_contract sl j a]
  have "S (pops mp3 ! 0) ! 0 + occupancy (E (pops mp3 ! 0) ! 0) + occupancy (Ip (pops mp3 ! 0) ! 0)
          + occupancy (Ia (pops mp3 ! 0) ! 0) + occupancy (Is (pops mp3 ! 0) ! 0)
          + occupancy (H (pops mp3 ! 0) ! 0) + R (pops mp3 ! 0) ! 0 = 100"
    by (simp add: ref_externals_def params7_def pop_params7_def params0_def pop_params0_def)
  with sl moved ref_contract show ?thesis
    by blast
qed

section \<open>The continue-signal of a metapopulation tick\<close>

lemma Tick_age_frame:
  "lambda (fst (Tick_age ext P t a st)) = lambda (fst st) \<and> p (fst (Tick_age ext P t a st)) = p (fst st)"
proof -
  obtain pp r rep where st: "st = (pp, r, rep)" by (cases st)
  obtain fl pp1 r1 where b: "builtin_states ext P a (pp, r) = (fl, pp1, r1)"
    by (cases "builtin_states ext P a (pp, r)")
  from Tick_age_core [OF b, of t rep] builtin_states_frame [OF b] st show ?thesis
    by (simp add: core_def)
qed

lemma fold_Tick_age_frame:
  "lambda (fst (fold (Tick_age ext P t) as st)) = lambda (fst st)
   \<and> p (fst (fold (Tick_age ext P t) as st)) = p (fst st)"
  by (induction as arbitrary: st) (simp_all add: Tick_age_frame)

lemma length_force_of_infection: "length (force_of_infection q fc) = length fc"
proof -
  have "length (fold (\<lambda>b lam1. lam1[a := lam1 ! a + h a b]) bs lam) = length lam" for a bs lam
    and h :: "nat \<Rightarrow> nat \<Rightarrow> real"
    by (induction bs arbitrary: lam) simp_all
  then have "length (fold (\<lambda>a lam. fold (\<lambda>b lam1. lam1[a := lam1 ! a + h a b]) [0..<length lam] lam) as lam0)
      = length lam0" for as lam0 and h :: "nat \<Rightarrow> nat \<Rightarrow> real"
    by (induction as arbitrary: lam0) simp_all
  then show ?thesis
    by (simp add: force_of_infection_def)
qed

lemma Population_Tick_frame:
  assumes "Population_Tick ext P r t fc rep pp = (b, pp1, r1, rep1)"
  shows "p pp1 = p pp" and "lambda pp1 = force_of_infection (pop P ! p pp) fc"
    and "b = observer ext (p pp) (pop P ! p pp) t"
proof -
  let ?st = "(pp\<lparr>lambda := force_of_infection (pop P ! p pp) fc\<rparr>, r, rep)"
  let ?n = "length (lambda (fst ?st))"
  have pp1: "pp1 = fst (fold (Tick_age ext P t) [0..<?n] ?st)"
    and b: "b = observer ext (p pp1) (pop P ! p pp1) t"
    using assms by (auto simp: Population_Tick_def Let_def split: prod.splits)
  from fold_Tick_age_frame [of ext P t "[0..<?n]" ?st] pp1
  show "p pp1 = p pp" and "lambda pp1 = force_of_infection (pop P ! p pp) fc"
    by simp_all
  with b show "b = observer ext (p pp) (pop P ! p pp) t"
    by simp
qed

text \<open>
  The loop as the specification words it: the tick of every population of the list
  executes, whatever the earlier ones returned, and the signal is the conjunction of
  the results.
\<close>

fun tick_every ::
  "('c, 'r) externals \<Rightarrow> Parameters \<Rightarrow> real \<Rightarrow> nat list
    \<Rightarrow> bool \<times> 'c Metapopulation \<times> 'r \<times> Reporter \<Rightarrow> bool \<times> 'c Metapopulation \<times> 'r \<times> Reporter"
where
  "tick_every ext P t [] st = st"
| "tick_every ext P t (i # is) (keep_going, mp, r, rep) =
     (case Population_Tick ext P r t (infec mp ! i) rep (pops mp ! i) of
        (b, pp1, r1, rep1) \<Rightarrow>
          tick_every ext P t is (keep_going \<and> b, mp\<lparr>pops := (pops mp)[i := pp1]\<rparr>, r1, rep1))"

text \<open>
  \<^verbatim>\<open>Metapopulation::Tick\<close> with that loop over the first \<open>k\<close> populations; with \<open>k\<close> the
  number of populations it is the tick of the specification.
\<close>

definition Metapopulation_Tick_first ::
  "nat \<Rightarrow> ('c, 'r) externals \<Rightarrow> Parameters \<Rightarrow> 'r \<Rightarrow> real \<Rightarrow> nat \<Rightarrow> Reporter \<Rightarrow> 'c Metapopulation
    \<Rightarrow> (bool \<times> Parameters \<times> 'c Metapopulation \<times> 'r \<times> Reporter) outcome"
where
  "Metapopulation_Tick_first k ext P r t ts rep mp =
     (let n_ages = length (size_pp (pop P ! 0));
          mp0 = mp\<lparr>contag := replicate (length (pops mp)) (replicate n_ages 0)\<rparr>
      in case contagiousness_loop ext t [0..<length (pops mp0)] (P, mp0, r) of
           None \<Rightarrow> None
         | Some (Inl e) \<Rightarrow> Some (Inl e)
         | Some (Inr (P1, mp1, r1)) \<Rightarrow>
             let mp2 = mp1\<lparr>infec := incoming_force P1 (length (pops mp1)) n_ages (contag mp1)\<rparr>;
                 (keep_going, mp3, r2, rep1) =
                    tick_every ext P1 t (take k [0..<length (pops mp2)]) (True, mp2, r1, rep)
             in Some (Inr (keep_going, P1, mp3, r2, rep1)))"

definition Metapopulation_Tick_every ::
  "('c, 'r) externals \<Rightarrow> Parameters \<Rightarrow> 'r \<Rightarrow> real \<Rightarrow> nat \<Rightarrow> Reporter \<Rightarrow> 'c Metapopulation
    \<Rightarrow> (bool \<times> Parameters \<times> 'c Metapopulation \<times> 'r \<times> Reporter) outcome"
where
  "Metapopulation_Tick_every ext P r t ts rep mp =
     Metapopulation_Tick_first (length (pops mp)) ext P r t ts rep mp"

lemma tick_loop_False:
  "tick_loop ext P t js (False, mp, r, rep) = (False, mp, r, rep)"
  by (induction js) simp_all

lemma tick_every_step:
  assumes "Population_Tick ext P r t (infec mp ! j) rep (pops mp ! j) = (b, pp1, r1, rep1)"
  shows "tick_every ext P t (take (Suc k) (j # js)) (True, mp, r, rep)
    = tick_every ext P t (take k js) (b, mp\<lparr>pops := (pops mp)[j := pp1]\<rparr>, r1, rep1)"
  using assms by simp

lemma tick_loop_step:
  assumes "Population_Tick ext P r t (infec mp ! j) rep (pops mp ! j) = (b, pp1, r1, rep1)"
  shows "tick_loop ext P t (j # js) (True, mp, r, rep)
    = tick_loop ext P t js (b, mp\<lparr>pops := (pops mp)[j := pp1]\<rparr>, r1, rep1)"
  using assms by simp

lemma tick_loop_prefix:
  "\<exists>k\<le>length js.
     tick_loop ext P t js (True, mp, r, rep) = tick_every ext P t (take k js) (True, mp, r, rep)
     \<and> (fst (tick_loop ext P t js (True, mp, r, rep)) \<longrightarrow> k = length js)
     \<and> (\<forall>k'<k. fst (tick_every ext P t (take k' js) (True, mp, r, rep)))"
proof (induction js arbitrary: mp r rep)
  case Nil
  then show ?case by simp
next
  case (Cons j js)
  obtain b pp1 r1 rep1 where
    pt: "Population_Tick ext P r t (infec mp ! j) rep (pops mp ! j) = (b, pp1, r1, rep1)"
    by (cases "Population_Tick ext P r t (infec mp ! j) rep (pops mp ! j)")
  let ?mp1 = "mp\<lparr>pops := (pops mp)[j := pp1]\<rparr>"
  note loop = tick_loop_step [OF pt, of js]
  note every = tick_every_step [OF pt, of _ js]
  show ?case
  proof (cases b)
    case True
    then have bT: "b = True" by simp
    from Cons.IH [of ?mp1 r1 rep1] obtain k where kk: "k \<le> length js
      \<and> tick_loop ext P t js (True, ?mp1, r1, rep1) = tick_every ext P t (take k js) (True, ?mp1, r1, rep1)
      \<and> (fst (tick_loop ext P t js (True, ?mp1, r1, rep1)) \<longrightarrow> k = length js)
      \<and> (\<forall>k'<k. fst (tick_every ext P t (take k' js) (True, ?mp1, r1, rep1)))"
      by (erule exE)
    note k = kk [THEN conjunct1] kk [THEN conjunct2, THEN conjunct1]
      kk [THEN conjunct2, THEN conjunct2, THEN conjunct1]
      kk [THEN conjunct2, THEN conjunct2, THEN conjunct2]
    have f1: "Suc k \<le> length (j # js)"
      using k(1) by simp
    have f2: "tick_loop ext P t (j # js) (True, mp, r, rep)
        = tick_every ext P t (take (Suc k) (j # js)) (True, mp, r, rep)"
      unfolding loop every bT by (rule k(2))
    have f3: "fst (tick_loop ext P t (j # js) (True, mp, r, rep)) \<longrightarrow> Suc k = length (j # js)"
      unfolding loop bT using k(3) by simp
    have f4: "\<forall>k'<Suc k. fst (tick_every ext P t (take k' (j # js)) (True, mp, r, rep))"
    proof (intro allI impI)
      fix k' assume less: "k' < Suc k"
      show "fst (tick_every ext P t (take k' (j # js)) (True, mp, r, rep))"
      proof (cases k')
        case 0
        then show ?thesis by simp
      next
        case (Suc m)
        with less have "m < k" by simp
        with k(4) have "fst (tick_every ext P t (take m js) (True, ?mp1, r1, rep1))"
          by blast
        then show ?thesis
          unfolding Suc every bT .
      qed
    qed
    from f1 f2 f3 f4 show ?thesis by blast
  next
    case False
    then have bF: "b = False" by simp
    have f1: "Suc 0 \<le> length (j # js)" by simp
    have f2: "tick_loop ext P t (j # js) (True, mp, r, rep)
        = tick_every ext P t (take (Suc 0) (j # js)) (True, mp, r, rep)"
      unfolding loop every bF by (simp add: tick_loop_False)
    have f3: "fst (tick_loop ext P t (j # js) (True, mp, r, rep)) \<longrightarrow> Suc 0 = length (j # js)"
      unfolding loop bF by (simp add: tick_loop_False)
    have f4: "\<forall>k'<Suc 0. fst (tick_every ext P t (take k' (j # js)) (True, mp, r, rep))"
      by simp
    from f1 f2 f3 f4 show ?thesis by blast
  qed
qed

lemma Metapopulation_Tick_fails:
  assumes "\<And>P1 mp1 r1.
      contagiousness_loop ext t [0..<length (pops mp)]
        (P, mp\<lparr>contag := replicate (length (pops mp)) (replicate (length (size_pp (pop P ! 0))) 0)\<rparr>, r)
      \<noteq> Some (Inr (P1, mp1, r1))"
  shows "Metapopulation_Tick ext P r t ts rep mp = Metapopulation_Tick_first k ext P r t ts rep mp"
    and "Metapopulation_Tick ext P r t ts rep mp \<noteq> Some (Inr (True, st))"
  using assms
  by (auto simp: Metapopulation_Tick_def Metapopulation_Tick_first_def Let_def
      split: option.splits sum.splits)

lemma Metapopulation_Tick_loops:
  assumes "contagiousness_loop ext t [0..<length (pops mp)]
        (P, mp\<lparr>contag := replicate (length (pops mp)) (replicate (length (size_pp (pop P ! 0))) 0)\<rparr>, r)
      = Some (Inr (P1, mp1, r1))"
    and "mp2 = mp1\<lparr>infec := incoming_force P1 (length (pops mp1)) (length (size_pp (pop P ! 0))) (contag mp1)\<rparr>"
  shows "Metapopulation_Tick ext P r t ts rep mp
      = (case tick_loop ext P1 t [0..<length (pops mp)] (True, mp2, r1, rep) of
           (keep_going, mp3, r2, rep1) \<Rightarrow> Some (Inr (keep_going, P1, mp3, r2, rep1)))"
    and "Metapopulation_Tick_first k ext P r t ts rep mp
      = (case tick_every ext P1 t (take k [0..<length (pops mp)]) (True, mp2, r1, rep) of
           (keep_going, mp3, r2, rep1) \<Rightarrow> Some (Inr (keep_going, P1, mp3, r2, rep1)))"
  using assms contagiousness_loop_pops [OF assms(1)]
  by (simp_all add: Metapopulation_Tick_def Metapopulation_Tick_first_def Let_def
      split: prod.splits)

text \<open>
  Claim C1, as amended. The loop of \<^verbatim>\<open>Metapopulation::Tick\<close> ticks the populations in
  the order of their indices and stops ticking at the first one whose tick returns
  false: there is a \<open>k\<close> such that the call is the tick in which exactly the first \<open>k\<close>
  populations tick, every one of them, with the conjunction of their results as the
  signal; every shorter prefix has the signal true; and when the signal returned is true,
  \<open>k\<close> is the number of populations. So the signal is the conjunction over the populations
  that ticked, and the populations after the first false one do not tick in that step.
\<close>

theorem C1_continue_signal:
  "\<exists>k\<le>length (pops mp).
      Metapopulation_Tick ext P r t ts rep mp = Metapopulation_Tick_first k ext P r t ts rep mp
    \<and> (\<forall>st. Metapopulation_Tick ext P r t ts rep mp = Some (Inr (True, st)) \<longrightarrow> k = length (pops mp))
    \<and> (\<forall>k'<k. \<exists>st. Metapopulation_Tick_first k' ext P r t ts rep mp = Some (Inr (True, st)))"
proof (cases "\<exists>P1 mp1 r1. contagiousness_loop ext t [0..<length (pops mp)]
        (P, mp\<lparr>contag := replicate (length (pops mp)) (replicate (length (size_pp (pop P ! 0))) 0)\<rparr>, r)
      = Some (Inr (P1, mp1, r1))")
  case False
  then have "\<And>P1 mp1 r1. contagiousness_loop ext t [0..<length (pops mp)]
        (P, mp\<lparr>contag := replicate (length (pops mp)) (replicate (length (size_pp (pop P ! 0))) 0)\<rparr>, r)
      \<noteq> Some (Inr (P1, mp1, r1))"
    by blast
  from Metapopulation_Tick_fails [OF this] show ?thesis
    by (intro exI [of _ 0]) simp
next
  case True
  then obtain P1 mp1 r1 where cl: "contagiousness_loop ext t [0..<length (pops mp)]
        (P, mp\<lparr>contag := replicate (length (pops mp)) (replicate (length (size_pp (pop P ! 0))) 0)\<rparr>, r)
      = Some (Inr (P1, mp1, r1))"
    by blast
  define mp2 where "mp2 = mp1\<lparr>infec := incoming_force P1 (length (pops mp1))
      (length (size_pp (pop P ! 0))) (contag mp1)\<rparr>"
  note mt = Metapopulation_Tick_loops [OF cl mp2_def]
  let ?js = "[0..<length (pops mp)]"
  from tick_loop_prefix [of ?js ext P1 t mp2 r1 rep] obtain k where kk: "k \<le> length ?js
     \<and> tick_loop ext P1 t ?js (True, mp2, r1, rep) = tick_every ext P1 t (take k ?js) (True, mp2, r1, rep)
     \<and> (fst (tick_loop ext P1 t ?js (True, mp2, r1, rep)) \<longrightarrow> k = length ?js)
     \<and> (\<forall>k'<k. fst (tick_every ext P1 t (take k' ?js) (True, mp2, r1, rep)))"
    by (erule exE)
  note k = kk [THEN conjunct1] kk [THEN conjunct2, THEN conjunct1]
      kk [THEN conjunct2, THEN conjunct2, THEN conjunct1]
      kk [THEN conjunct2, THEN conjunct2, THEN conjunct2]
  have f1: "k \<le> length (pops mp)"
    using k(1) by simp
  have f2: "Metapopulation_Tick ext P r t ts rep mp = Metapopulation_Tick_first k ext P r t ts rep mp"
    unfolding mt k(2) ..
  have f3: "\<forall>st. Metapopulation_Tick ext P r t ts rep mp = Some (Inr (True, st)) \<longrightarrow> k = length (pops mp)"
    unfolding mt(1) using k(3) by (auto split: prod.splits)
  have f4: "\<forall>k'<k. \<exists>st. Metapopulation_Tick_first k' ext P r t ts rep mp = Some (Inr (True, st))"
    unfolding mt(2) using k(4) by (auto split: prod.splits)
  from f1 f2 f3 f4 show ?thesis by blast
qed

lemma Reporter_new_params2: "Reporter_new params2 True = Inr (params2, reporter2)"
  by (simp add: Reporter_new_def params2_def pop_params0_simps to_uint_def reporter2_def)

text \<open>The metapopulation after the contagiousness calls and the mixing of the tick.\<close>

definition mixed2 :: "ref_compartment Metapopulation" where
  "mixed2 = metapopulation2\<lparr>contag := [[17 / 200], [17 / 200]],
      infec := incoming_force params2 2 1 [[17 / 200], [17 / 200]]\<rparr>"

lemma stopping_tick:
  "Metapopulation_Tick stopping_externals params2 0 0 0 reporter2 metapopulation2
     = (case tick_loop stopping_externals params2 0 [0..<2] (True, mixed2, 0, reporter2) of
          (keep_going, mp3, r2, rep1) \<Rightarrow> Some (Inr (keep_going, params2, mp3, r2, rep1)))"
  "Metapopulation_Tick_first k stopping_externals params2 0 0 0 reporter2 metapopulation2
     = (case tick_every stopping_externals params2 0 (take k [0..<2]) (True, mixed2, 0, reporter2) of
          (keep_going, mp3, r2, rep1) \<Rightarrow> Some (Inr (keep_going, params2, mp3, r2, rep1)))"
proof -
  have cl: "contagiousness_loop stopping_externals 0 [0..<length (pops metapopulation2)]
      (params2, metapopulation2\<lparr>contag := replicate (length (pops metapopulation2))
          (replicate (length (size_pp (pop params2 ! 0))) 0)\<rparr>, 0)
    = Some (Inr (params2, metapopulation2\<lparr>contag := [[17 / 200], [17 / 200]]\<rparr>, 0))"
    unfolding metapopulation2_start stopping_externals_def by (rule contagiousness_loop_params2)
  have mx: "mixed2 = (metapopulation2\<lparr>contag := [[17 / 200], [17 / 200]]\<rparr>)
      \<lparr>infec := incoming_force params2 (length (pops (metapopulation2\<lparr>contag := [[17 / 200], [17 / 200]]\<rparr>)))
         (length (size_pp (pop params2 ! 0)))
         (contag (metapopulation2\<lparr>contag := [[17 / 200], [17 / 200]]\<rparr>))\<rparr>"
    by (simp add: mixed2_def metapopulation2_def params2_simps pop_params0_simps numeral_2_eq_2)
  from Metapopulation_Tick_loops [OF cl mx, unfolded metapopulation2_start(2)]
  show "Metapopulation_Tick stopping_externals params2 0 0 0 reporter2 metapopulation2
     = (case tick_loop stopping_externals params2 0 [0..<2] (True, mixed2, 0, reporter2) of
          (keep_going, mp3, r2, rep1) \<Rightarrow> Some (Inr (keep_going, params2, mp3, r2, rep1)))"
    and "Metapopulation_Tick_first k stopping_externals params2 0 0 0 reporter2 metapopulation2
     = (case tick_every stopping_externals params2 0 (take k [0..<2]) (True, mixed2, 0, reporter2) of
          (keep_going, mp3, r2, rep1) \<Rightarrow> Some (Inr (keep_going, params2, mp3, r2, rep1)))"
    by simp_all
qed

lemma mixed2_simps:
  "pops mixed2 = [population0, population0\<lparr>p := 1\<rparr>]"
  "length (infec mixed2 ! Suc 0) = Suc 0"
  by (simp_all add: mixed2_def metapopulation2_def incoming_force_row)

text \<open>The source's loop on that state: population 0 stops, population 1 is left as it was.\<close>

lemma stopping_tick_loop:
  "\<exists>pp1 r1 rep1. tick_loop stopping_externals params2 0 [0..<2] (True, mixed2, 0, reporter2)
     = (False, mixed2\<lparr>pops := [pp1, population0\<lparr>p := 1\<rparr>]\<rparr>, r1, rep1)"
proof -
  obtain b pp1 r1 rep1 where pt: "Population_Tick stopping_externals params2 0 0 (infec mixed2 ! 0)
      reporter2 (pops mixed2 ! 0) = (b, pp1, r1, rep1)"
    by (cases "Population_Tick stopping_externals params2 0 0 (infec mixed2 ! 0) reporter2 (pops mixed2 ! 0)")
  from Population_Tick_frame(3) [OF pt] have "b = False"
    by (simp add: mixed2_simps population0_simps stopping_externals_def)
  with pt have "tick_loop stopping_externals params2 0 [0, 1] (True, mixed2, 0, reporter2)
     = (False, mixed2\<lparr>pops := [pp1, population0\<lparr>p := 1\<rparr>]\<rparr>, r1, rep1)"
    by (simp add: tick_loop_False mixed2_simps)
  moreover have "[0..<2] = [0, 1 :: nat]" by (simp add: numeral_2_eq_2)
  ultimately show ?thesis by auto
qed

text \<open>The loop of the specification on the same state: population 1 ticks as well.\<close>

lemma stopping_tick_every:
  "\<exists>b pp1 pp2 r2 rep2. tick_every stopping_externals params2 0 (take 2 [0..<2]) (True, mixed2, 0, reporter2)
     = (b, mixed2\<lparr>pops := [pp1, pp2]\<rparr>, r2, rep2) \<and> length (lambda pp2) = 1"
proof -
  obtain b pp1 r1 rep1 where pt: "Population_Tick stopping_externals params2 0 0 (infec mixed2 ! 0)
      reporter2 (pops mixed2 ! 0) = (b, pp1, r1, rep1)"
    by (cases "Population_Tick stopping_externals params2 0 0 (infec mixed2 ! 0) reporter2 (pops mixed2 ! 0)")
  obtain b2 pp2 r2 rep2 where pt2: "Population_Tick stopping_externals params2 r1 0 (infec mixed2 ! 1)
      rep1 (population0\<lparr>p := 1\<rparr>) = (b2, pp2, r2, rep2)"
    by (cases "Population_Tick stopping_externals params2 r1 0 (infec mixed2 ! 1) rep1 (population0\<lparr>p := 1\<rparr>)")
  from Population_Tick_frame(2) [OF pt2] have "length (lambda pp2) = 1"
    by (simp add: length_force_of_infection mixed2_simps)
  moreover from pt pt2 have "tick_every stopping_externals params2 0 [0, 1] (True, mixed2, 0, reporter2)
     = (b \<and> b2, mixed2\<lparr>pops := [pp1, pp2]\<rparr>, r2, rep2)"
    by (simp add: mixed2_simps)
  moreover have "take 2 [0..<2] = [0, 1 :: nat]" by (simp add: numeral_2_eq_2)
  ultimately show ?thesis by auto
qed

lemma population0_lambda: "lambda (population0\<lparr>p := 1\<rparr>) = []"
  by (simp add: population0_def Population_new_def Let_def)

lemma stopping_tick_differs:
  "Metapopulation_Tick stopping_externals params2 0 0 0 reporter2 metapopulation2
     \<noteq> Metapopulation_Tick_first 2 stopping_externals params2 0 0 0 reporter2 metapopulation2"
proof -
  from stopping_tick_loop obtain pp1 r1 rep1 where
    l: "tick_loop stopping_externals params2 0 [0..<2] (True, mixed2, 0, reporter2)
     = (False, mixed2\<lparr>pops := [pp1, population0\<lparr>p := 1\<rparr>]\<rparr>, r1, rep1)"
    by blast
  from stopping_tick_every obtain b pp1' pp2 r2 rep2 where
    e: "tick_every stopping_externals params2 0 (take 2 [0..<2]) (True, mixed2, 0, reporter2)
     = (b, mixed2\<lparr>pops := [pp1', pp2]\<rparr>, r2, rep2)" and n: "length (lambda pp2) = 1"
    by blast
  show ?thesis
  proof
    assume "Metapopulation_Tick stopping_externals params2 0 0 0 reporter2 metapopulation2
     = Metapopulation_Tick_first 2 stopping_externals params2 0 0 0 reporter2 metapopulation2"
    then have "pops (mixed2\<lparr>pops := [pp1, population0\<lparr>p := 1\<rparr>]\<rparr>) = pops (mixed2\<lparr>pops := [pp1', pp2]\<rparr>)"
      unfolding stopping_tick l e by simp
    then have "pp2 = population0\<lparr>p := 1\<rparr>" by simp
    then have "lambda pp2 = []" by (simp only: population0_lambda)
    with n show False by simp
  qed
qed

text \<open>
  Claim C1 as stated fails: with two populations and an observer that stops population 0,
  the call differs from the tick in which every population ticks (population 1 keeps the
  state it had).
\<close>

theorem C1_every_tick_counterexample:
  "Metapopulation_Tick stopping_externals params2 0 0 0 reporter2 metapopulation2
     \<noteq> Metapopulation_Tick_every stopping_externals params2 0 0 0 reporter2 metapopulation2"
proof -
  have "length (pops metapopulation2) = 2"
    by (simp add: metapopulation2_def)
  with stopping_tick_differs show ?thesis
    by (simp add: Metapopulation_Tick_every_def)
qed


theorem C1_continue_signal_witness:
  "Metapopulation_Tick stopping_externals params2 0 0 0 reporter2 metapopulation2
     = Metapopulation_Tick_first 1 stopping_externals params2 0 0 0 reporter2 metapopulation2
   \<and> (\<exists>st. Metapopulation_Tick_first 0 stopping_externals params2 0 0 0 reporter2 metapopulation2
         = Some (Inr (True, st)))
   \<and> (\<exists>st. Metapopulation_Tick stopping_externals params2 0 0 0 reporter2 metapopulation2
         = Some (Inr (False, st)))"
proof -
  let ?tick = "Metapopulation_Tick stopping_externals params2 0 0 0 reporter2 metapopulation2"
  let ?first = "\<lambda>k. Metapopulation_Tick_first k stopping_externals params2 0 0 0 reporter2 metapopulation2"
  from C1_continue_signal [of metapopulation2 stopping_externals params2 0 0 0 reporter2]
  obtain k where kk: "k \<le> length (pops metapopulation2) \<and> ?tick = ?first k
      \<and> (\<forall>st. ?tick = Some (Inr (True, st)) \<longrightarrow> k = length (pops metapopulation2))
      \<and> (\<forall>k'<k. \<exists>st. ?first k' = Some (Inr (True, st)))"
    by (erule exE)
  note k1 = kk [THEN conjunct1] and k2 = kk [THEN conjunct2, THEN conjunct1]
  have n: "length (pops metapopulation2) = 2"
    by (simp add: metapopulation2_def)
  from stopping_tick_loop obtain st where stop: "?tick = Some (Inr (False, st))"
    unfolding stopping_tick by auto
  obtain st0 where zero: "?first 0 = Some (Inr (True, st0))"
    unfolding stopping_tick by simp
  have "k \<noteq> 2"
  proof
    assume "k = 2"
    with k2 have "?tick = ?first 2" by (simp only:)
    with stopping_tick_differs show False by (simp only: not_False_eq_True simp_thms)
  qed
  moreover have "k \<noteq> 0"
  proof
    assume "k = 0"
    with k2 have "?tick = ?first 0" by (simp only:)
    with stop zero show False by simp
  qed
  ultimately have "k = 1"
    using k1 n by simp
  with k2 have "?tick = ?first 1" by (simp only:)
  moreover have "\<exists>st. ?first 0 = Some (Inr (True, st))"
    using zero by (rule exI)
  moreover have "\<exists>st. ?tick = Some (Inr (False, st))"
    using stop by (rule exI)
  ultimately show ?thesis by (intro conjI)
qed

section \<open>The driver\<close>

text \<open>
  The ticks of the driver as the specification words them: exactly \<open>m\<close> calls of
  \<^verbatim>\<open>Metapopulation::Tick\<close>, for the step indices \<open>ts\<close>, \<open>ts + 1\<close>, ... in turn, each at
  the time \<open>time0 + index * time_step\<close>; the result carries the signal of the last call.
\<close>

fun first_ticks ::
  "('c, 'r) externals \<Rightarrow> nat \<Rightarrow> nat \<Rightarrow> bool \<times> Parameters \<times> 'c Metapopulation \<times> 'r \<times> Reporter
    \<Rightarrow> (bool \<times> Parameters \<times> 'c Metapopulation \<times> 'r \<times> Reporter) outcome"
where
  "first_ticks ext 0 ts st = Some (Inr st)"
| "first_ticks ext (Suc m) ts (b, P, mp, r, rep) =
     (case Metapopulation_Tick ext P r (double_round (time0 P + double_round (real ts * time_step P))) ts rep mp of
        None \<Rightarrow> None
      | Some (Inl e) \<Rightarrow> Some (Inl e)
      | Some (Inr st1) \<Rightarrow> first_ticks ext m (Suc ts) st1)"

text \<open>What the driver returns of such a result: the reporter, without the signal.\<close>

definition reporter_of ::
  "(bool \<times> Parameters \<times> 'c Metapopulation \<times> 'r \<times> Reporter) outcome \<Rightarrow> Reporter outcome"
where
  "reporter_of x =
     (case x of
        None \<Rightarrow> None
      | Some (Inl e) \<Rightarrow> Some (Inl e)
      | Some (Inr (b, P, mp, r, rep)) \<Rightarrow> Some (Inr rep))"

definition state_of ::
  "(bool \<times> Parameters \<times> 'c Metapopulation \<times> 'r \<times> Reporter) outcome
    \<Rightarrow> (Parameters \<times> 'c Metapopulation \<times> 'r \<times> Reporter) outcome"
where
  "state_of x =
     (case x of
        None \<Rightarrow> None
      | Some (Inl e) \<Rightarrow> Some (Inl e)
      | Some (Inr (b, st)) \<Rightarrow> Some (Inr st))"

lemma simulation_loop_prefix:
  "\<exists>m\<le>n.
      simulation_loop ext n ts st = state_of (first_ticks ext m ts (True, st))
    \<and> (m < n \<longrightarrow> (\<forall>st1. first_ticks ext m ts (True, st) \<noteq> Some (Inr (True, st1))))
    \<and> (\<forall>m'<m. \<exists>st1. first_ticks ext m' ts (True, st) = Some (Inr (True, st1)))"
proof (induction n arbitrary: ts st)
  case 0
  show ?case by (simp add: state_of_def)
next
  case (Suc n)
  obtain P mp r rep where st: "st = (P, mp, r, rep)" by (cases st)
  let ?tick = "Metapopulation_Tick ext P r (double_round (time0 P + double_round (real ts * time_step P))) ts rep mp"
  have zero: "\<forall>m'<Suc 0. \<exists>st1. first_ticks ext m' ts (True, st) = Some (Inr (True, st1))"
    by (simp add: st)
  have one: "first_ticks ext (Suc 0) ts (True, st)
      = (case ?tick of None \<Rightarrow> None | Some (Inl e) \<Rightarrow> Some (Inl e) | Some (Inr st1) \<Rightarrow> Some (Inr st1))"
    by (simp add: st split: option.splits sum.splits)
  show ?case
  proof (cases "\<exists>st1. ?tick = Some (Inr (True, st1))")
    case False
    then have f2: "simulation_loop ext (Suc n) ts st = state_of (first_ticks ext (Suc 0) ts (True, st))"
      unfolding one by (auto simp: st state_of_def split: option.splits sum.splits)
    from False have f3: "Suc 0 < Suc n \<longrightarrow> (\<forall>st1. first_ticks ext (Suc 0) ts (True, st) \<noteq> Some (Inr (True, st1)))"
      unfolding one by (auto split: option.splits sum.splits)
    have f1: "Suc 0 \<le> Suc n" by simp
    from f1 f2 f3 zero show ?thesis by blast
  next
    case True
    then obtain st1 where t: "?tick = Some (Inr (True, st1))" by blast
    have loop: "simulation_loop ext (Suc n) ts st = simulation_loop ext n (Suc ts) st1"
      by (cases st1) (simp add: st t)
    have every: "first_ticks ext (Suc m) ts (True, st) = first_ticks ext m (Suc ts) (True, st1)" for m
      by (simp add: st t)
    from Suc.IH [of "Suc ts" st1] obtain m where mm: "m \<le> n
      \<and> simulation_loop ext n (Suc ts) st1 = state_of (first_ticks ext m (Suc ts) (True, st1))
      \<and> (m < n \<longrightarrow> (\<forall>st2. first_ticks ext m (Suc ts) (True, st1) \<noteq> Some (Inr (True, st2))))
      \<and> (\<forall>m'<m. \<exists>st2. first_ticks ext m' (Suc ts) (True, st1) = Some (Inr (True, st2)))"
      by (erule exE)
    note m = mm [THEN conjunct1] mm [THEN conjunct2, THEN conjunct1]
      mm [THEN conjunct2, THEN conjunct2, THEN conjunct1]
      mm [THEN conjunct2, THEN conjunct2, THEN conjunct2]
    have f1: "Suc m \<le> Suc n" using m(1) by simp
    have f2: "simulation_loop ext (Suc n) ts st = state_of (first_ticks ext (Suc m) ts (True, st))"
      unfolding loop every by (rule m(2))
    have f3: "Suc m < Suc n \<longrightarrow> (\<forall>st2. first_ticks ext (Suc m) ts (True, st) \<noteq> Some (Inr (True, st2)))"
      unfolding every using m(3) by simp
    have f4: "\<forall>m'<Suc m. \<exists>st2. first_ticks ext m' ts (True, st) = Some (Inr (True, st2))"
    proof (intro allI impI)
      fix m' assume less: "m' < Suc m"
      show "\<exists>st2. first_ticks ext m' ts (True, st) = Some (Inr (True, st2))"
      proof (cases m')
        case 0
        then show ?thesis by (simp add: st)
      next
        case (Suc k)
        with less have "k < m" by simp
        with m(4) show ?thesis
          unfolding Suc every by blast
      qed
    qed
    from f1 f2 f3 f4 show ?thesis by blast
  qed
qed

text \<open>
  Claim C8. The constructor of the reporter throws when \<^verbatim>\<open>report_every\<close> is 0 or
  \<^verbatim>\<open>time_step\<close> is not the double \<open>1 / report_every\<close>, and then the exception is the
  result of \<^verbatim>\<open>RunSimulation\<close>. When the reporter is constructed, \<^verbatim>\<open>RunSimulation\<close> takes as
  its tick count the integer part of \<open>(1 + time1 - time0) / time_step\<close>, every operation
  rounded to a double; what it returns is the reporter left by exactly \<open>m\<close> calls of
  \<^verbatim>\<open>Metapopulation::Tick\<close>, made for the step indices \<open>0, 1, ...\<close> in turn at the times
  \<open>time0 + index * time_step\<close> (rounded likewise), where every call before the last
  returned true and \<open>m\<close> is below the tick count only when the last call did not return
  true. So on the first false return no remaining step is executed, and the reporter
  populated so far is returned as a value, not as an error.
\<close>

theorem C8_driver:
  "(report_every P = 0 \<or> time_step P \<noteq> double_round (1 / report_every P) \<longrightarrow>
      RunSimulation ext P r
        = Some (Inl (logic_error ''TODO: PopulationReporter requires P.time_step = 1 / P.report_every.'')))
   \<and> (Reporter_new P True = Inr (P1, rep) \<longrightarrow>
        report_every P \<noteq> 0 \<and> time_step P = double_round (1 / report_every P)
        \<and> (\<exists>m\<le>to_uint (double_round (double_round (double_round (1 + time1 P1) - time0 P1) / time_step P1)).
              RunSimulation ext P r
                = reporter_of (first_ticks ext m 0 (True, P1, Metapopulation_new ext P, r, rep))
            \<and> (m < to_uint (double_round (double_round (double_round (1 + time1 P1) - time0 P1) / time_step P1)) \<longrightarrow>
                 (\<forall>st. first_ticks ext m 0 (True, P1, Metapopulation_new ext P, r, rep)
                    \<noteq> Some (Inr (True, st))))
            \<and> (\<forall>m'<m. \<exists>st. first_ticks ext m' 0 (True, P1, Metapopulation_new ext P, r, rep)
                    = Some (Inr (True, st)))))"
proof (intro conjI impI)
  assume "report_every P = 0 \<or> time_step P \<noteq> double_round (1 / report_every P)"
  then have "Reporter_new P True
      = Inl (logic_error ''TODO: PopulationReporter requires P.time_step = 1 / P.report_every.'')"
    by (simp add: Reporter_new_def)
  then show "RunSimulation ext P r
      = Some (Inl (logic_error ''TODO: PopulationReporter requires P.time_step = 1 / P.report_every.''))"
    by (simp add: RunSimulation_def RunSimulation_state_def Let_def)
next
  assume made: "Reporter_new P True = Inr (P1, rep)"
  then show "report_every P \<noteq> 0"
    by (auto simp: Reporter_new_def split: if_splits)
  from made show "time_step P = double_round (1 / report_every P)"
    by (auto simp: Reporter_new_def split: if_splits)
  let ?n = "to_uint (double_round (double_round (double_round (1 + time1 P1) - time0 P1) / time_step P1))"
  let ?st = "(P1, Metapopulation_new ext P, r, rep)"
  from simulation_loop_prefix [of ?n ext 0 ?st] obtain m where mm: "m \<le> ?n
      \<and> simulation_loop ext ?n 0 ?st = state_of (first_ticks ext m 0 (True, ?st))
      \<and> (m < ?n \<longrightarrow> (\<forall>st1. first_ticks ext m 0 (True, ?st) \<noteq> Some (Inr (True, st1))))
      \<and> (\<forall>m'<m. \<exists>st1. first_ticks ext m' 0 (True, ?st) = Some (Inr (True, st1)))"
    by (erule exE)
  have "RunSimulation ext P r = reporter_of (first_ticks ext m 0 (True, ?st))"
    using mm [THEN conjunct2, THEN conjunct1] made
    by (simp add: RunSimulation_def RunSimulation_state_def Let_def reporter_of_def state_of_def
        split: option.splits sum.splits prod.splits)
  with mm show "\<exists>m\<le>?n.
        RunSimulation ext P r
          = reporter_of (first_ticks ext m 0 (True, P1, Metapopulation_new ext P, r, rep))
      \<and> (m < ?n \<longrightarrow>
           (\<forall>st. first_ticks ext m 0 (True, P1, Metapopulation_new ext P, r, rep)
              \<noteq> Some (Inr (True, st))))
      \<and> (\<forall>m'<m. \<exists>st. first_ticks ext m' 0 (True, P1, Metapopulation_new ext P, r, rep)
              = Some (Inr (True, st)))"
    by blast
qed


lemma contagiousness_loop_params2_pops:
  assumes "pops mp = [pa, pb]" and "p pa = 0" and "p pb = 1"
  shows "\<exists>mp1. contagiousness_loop (ref_externals\<lparr>observer := ob\<rparr>) t [0..<2] (params2, mp, r)
      = Some (Inr (params2, mp1, r)) \<and> pops mp1 = [pa, pb]"
proof -
  have "[0..<2] = [0, 1]"
    by (simp add: numeral_2_eq_2)
  then show ?thesis
    using assms by (simp add: Contagiousness_params2)
qed

lemma Metapopulation_new_params2:
  "pops (Metapopulation_new ext params2) = [Population_new ext params2 0, Population_new ext params2 1]"
  by (simp add: Metapopulation_new_def params2_simps fold_snoc_map numeral_2_eq_2)

lemma stopping_first_tick:
  "\<exists>st. Metapopulation_Tick stopping_externals params2 r t ts rep
      (Metapopulation_new stopping_externals params2) = Some (Inr (False, st))"
proof -
  let ?mp = "Metapopulation_new stopping_externals params2"
  let ?start = "?mp\<lparr>contag := replicate (length (pops ?mp)) (replicate (length (size_pp (pop params2 ! 0))) 0)\<rparr>"
  have n: "[0..<length (pops ?mp)] = [0..<2]"
    by (simp add: Metapopulation_new_params2 numeral_2_eq_2)
  have "\<exists>mp1. contagiousness_loop stopping_externals t [0..<length (pops ?mp)] (params2, ?start, r)
      = Some (Inr (params2, mp1, r))
    \<and> pops mp1 = [Population_new stopping_externals params2 0, Population_new stopping_externals params2 1]"
    unfolding n unfolding stopping_externals_def
    by (rule contagiousness_loop_params2_pops) (simp_all add: Metapopulation_new_params2 Population_new_p)
  then obtain mp1 where cl: "contagiousness_loop stopping_externals t [0..<length (pops ?mp)] (params2, ?start, r)
      = Some (Inr (params2, mp1, r))"
    and ps: "pops mp1 = [Population_new stopping_externals params2 0, Population_new stopping_externals params2 1]"
    by blast
  define mp2 where "mp2 = mp1\<lparr>infec := incoming_force params2 (length (pops mp1))
      (length (size_pp (pop params2 ! 0))) (contag mp1)\<rparr>"
  obtain b pp1 r1 rep1 where pt: "Population_Tick stopping_externals params2 r t (infec mp2 ! 0)
      rep (pops mp2 ! 0) = (b, pp1, r1, rep1)"
    by (cases "Population_Tick stopping_externals params2 r t (infec mp2 ! 0) rep (pops mp2 ! 0)")
  from Population_Tick_frame(3) [OF pt] have "b = False"
    by (simp add: mp2_def ps Population_new_p stopping_externals_def)
  with pt have "fst (tick_loop stopping_externals params2 t [0, 1] (True, mp2, r, rep)) = False"
    by (simp add: tick_loop_False)
  moreover have "[0..<length (pops ?mp)] = [0, 1]"
    by (simp add: Metapopulation_new_params2)
  ultimately show ?thesis
    unfolding Metapopulation_Tick_loops(1) [OF cl mp2_def]
    by (auto split: prod.splits)
qed

text \<open>
  Seventy-five steps a day over two days: the step is the double nearest to \<open>1 / 75\<close>,
  which is above it, so that the quotient \<open>3 / time_step\<close> is below 225 and rounds to the
  double below 225: the driver makes 224 steps.
\<close>

definition params75 :: Parameters where
  "params75 = params2\<lparr>time1 := 2, time_step := 7686143364045647 / 2 ^ 59, report_every := 75\<rparr>"

definition reporter75 :: Reporter where
  "reporter75 = reporter2\<lparr>n_times := 3, data := replicate 9 [0, 0, 0, 0, 0, 0]\<rparr>"

lemma Reporter_new_params75: "Reporter_new params75 True = Inr (params75, reporter75)"
  by (simp add: Reporter_new_def params75_def params2_def pop_params0_simps to_uint_def
      reporter75_def reporter2_def double_round_75 numeral_eq_Suc)

lemma time_steps_75:
  "to_uint (double_round (double_round (double_round (1 + time1 params75) - time0 params75)
      / time_step params75)) = 224"
proof -
  let ?x = "3 / (7686143364045647 / 2 ^ 59) :: real"
  have "double_round ?x = real_of_int (round_half_even (?x * 2 ^ nat (52 - 7))) / 2 ^ nat (52 - 7)"
    by (rule double_round_binade) (simp_all add: powr_realpow [symmetric, of 2 7, simplified]
        powr_realpow [symmetric, of 2 8, simplified])
  moreover have "round_half_even (?x * 2 ^ 45) = 7916483719987199"
    by (simp add: round_half_even_def)
  ultimately have "double_round ?x = 7916483719987199 / 2 ^ 45"
    by simp
  moreover have "double_round (double_round (1 + time1 params75) - time0 params75)
      / time_step params75 = ?x"
  proof -
    have "double_round (double_round (1 + time1 params75) - time0 params75) = 3"
      by (simp add: params75_def params2_def)
    then show ?thesis
      by (simp add: params75_def)
  qed
  moreover have "nat \<lfloor>7916483719987199 / 2 ^ 45 :: real\<rfloor> = 224"
    by simp
  ultimately show ?thesis
    by (simp only: to_uint_def)
qed

theorem C8_driver_witness:
  "RunSimulation ref_externals (params2\<lparr>time_step := 0, report_every := 0\<rparr>) 0
     = Some (Inl (logic_error ''TODO: PopulationReporter requires P.time_step = 1 / P.report_every.''))
   \<and> RunSimulation ref_externals (params2\<lparr>time_step := 1 / 2\<rparr>) 0
     = Some (Inl (logic_error ''TODO: PopulationReporter requires P.time_step = 1 / P.report_every.''))
   \<and> Reporter_new params2 True = Inr (params2, reporter2)
   \<and> report_every params75 \<noteq> 0 \<and> time_step params75 = double_round (1 / report_every params75)
   \<and> to_uint (double_round (double_round (double_round (1 + time1 params2) - time0 params2)
        / time_step params2)) = 2
   \<and> RunSimulation stopping_externals params2 0
       = reporter_of (first_ticks stopping_externals 1 0
           (True, params2, Metapopulation_new stopping_externals params2, 0, reporter2))
   \<and> (\<exists>st. first_ticks stopping_externals 1 0
           (True, params2, Metapopulation_new stopping_externals params2, 0, reporter2)
         = Some (Inr (False, st)))
   \<and> (\<exists>m\<le>224. RunSimulation ref_externals params75 0
         = reporter_of (first_ticks ref_externals m 0
             (True, params75, Metapopulation_new ref_externals params75, 0, reporter75)))"
proof -
  let ?n = "to_uint (double_round (double_round (double_round (1 + time1 params2) - time0 params2)
      / time_step params2))"
  let ?first = "\<lambda>m. first_ticks stopping_externals m 0
      (True, params2, Metapopulation_new stopping_externals params2, 0, reporter2)"
  have n: "?n = 2"
    by (simp add: params2_simps to_uint_def)
  from stopping_first_tick obtain st where
    "Metapopulation_Tick stopping_externals params2 0
       (double_round (time0 params2 + double_round (real 0 * time_step params2))) 0
       reporter2 (Metapopulation_new stopping_externals params2) = Some (Inr (False, st))"
    by blast
  then have one: "?first 1 = Some (Inr (False, st))"
    by simp
  have zero: "?first 0 = Some (Inr (True, params2, Metapopulation_new stopping_externals params2, 0, reporter2))"
    by simp
  note made = C8_driver [THEN conjunct2, rule_format]
  have thrown: "RunSimulation ref_externals (params2\<lparr>time_step := 0, report_every := 0\<rparr>) 0
     = Some (Inl (logic_error ''TODO: PopulationReporter requires P.time_step = 1 / P.report_every.''))"
    "RunSimulation ref_externals (params2\<lparr>time_step := 1 / 2\<rparr>) 0
     = Some (Inl (logic_error ''TODO: PopulationReporter requires P.time_step = 1 / P.report_every.''))"
    using C8_driver [THEN conjunct1, of "params2\<lparr>time_step := 0, report_every := 0\<rparr>" ref_externals 0]
      C8_driver [THEN conjunct1, of "params2\<lparr>time_step := 1 / 2\<rparr>" ref_externals 0]
    by (simp_all add: params2_simps)
  from made [OF Reporter_new_params75, of ref_externals 0]
  have test: "report_every params75 \<noteq> 0"
    "time_step params75 = double_round (1 / report_every params75)"
    by simp_all
  from made [OF Reporter_new_params2, of stopping_externals 0]
  obtain m where mm: "m \<le> ?n
    \<and> RunSimulation stopping_externals params2 0 = reporter_of (?first m)
    \<and> (m < ?n \<longrightarrow> (\<forall>st. ?first m \<noteq> Some (Inr (True, st))))
    \<and> (\<forall>m'<m. \<exists>st. ?first m' = Some (Inr (True, st)))"
    by (elim conjE exE) blast
  note m = mm [THEN conjunct1] mm [THEN conjunct2, THEN conjunct1]
      mm [THEN conjunct2, THEN conjunct2, THEN conjunct1]
      mm [THEN conjunct2, THEN conjunct2, THEN conjunct2]
  have "m \<noteq> 0"
  proof
    assume "m = 0"
    with m(3) n have "\<forall>st. ?first 0 \<noteq> Some (Inr (True, st))" by simp
    with zero show False by blast
  qed
  moreover have "m \<noteq> 2"
  proof
    assume "m = 2"
    with m(4) have "\<forall>m'<2. \<exists>st. ?first m' = Some (Inr (True, st))" by (simp only:)
    then have "\<exists>st. ?first 1 = Some (Inr (True, st))" by (rule allE [of _ 1]) simp
    with one show False by simp
  qed
  ultimately have "m = 1"
    using m(1) n by simp
  with m(2) have "RunSimulation stopping_externals params2 0 = reporter_of (?first 1)"
    by (simp only:)
  moreover have "\<exists>st. ?first 1 = Some (Inr (False, st))"
    using one by (rule exI)
  moreover from made [OF Reporter_new_params75, of ref_externals 0]
  have "\<exists>m\<le>224. RunSimulation ref_externals params75 0
         = reporter_of (first_ticks ref_externals m 0
             (True, params75, Metapopulation_new ref_externals params75, 0, reporter75))"
    unfolding time_steps_75 by blast
  ultimately show ?thesis
    using n Reporter_new_params2 thrown test by (intro conjI)
qed

section \<open>The force of infection and the flow from S to E\<close>

lemma force_of_infection_nth:
  assumes "a < length fc"
  shows "force_of_infection q fc ! a = (\<Sum>b<length fc. u q ! a * cm q a b * fc ! b)"
proof -
  let ?h = "\<lambda>a b. u q ! a * cm q a b * fc ! b"
  have inner: "fold (\<lambda>b lam1. lam1[a := lam1 ! a + ?h a b]) [0..<k] lam
      = lam[a := lam ! a + (\<Sum>b<k. ?h a b)]" for a k and lam :: "real list"
  proof (induction k)
    case 0
    show ?case by simp
  next
    case (Suc k)
    show ?case
      by (cases "a < length lam") (simp_all add: Suc list_update_beyond add.assoc)
  qed
  have outer: "fold (\<lambda>a lam. lam[a := lam ! a + (\<Sum>b<length lam. ?h a b)]) [0..<k] lam0
      = map (\<lambda>a. if a < k then lam0 ! a + (\<Sum>b<length lam0. ?h a b) else lam0 ! a) [0..<length lam0]"
    for k and lam0 :: "real list"
  proof (induction k)
    case 0
    show ?case by (simp add: map_nth)
  next
    case (Suc k)
    let ?G = "\<lambda>a lam. lam[a := lam ! a + (\<Sum>b<length lam. ?h a b)]"
    let ?ys = "map (\<lambda>a. if a < k then lam0 ! a + (\<Sum>b<length lam0. ?h a b) else lam0 ! a) [0..<length lam0]"
    have "fold ?G [0..<Suc k] lam0 = ?G k (fold ?G [0..<k] lam0)"
      by simp
    also have "\<dots> = ?G k ?ys"
      by (simp only: Suc)
    also have "\<dots> = map (\<lambda>a. if a < Suc k then lam0 ! a + (\<Sum>b<length lam0. ?h a b) else lam0 ! a)
        [0..<length lam0]"
      by (rule nth_equalityI) (auto simp: nth_list_update less_Suc_eq)
    finally show ?case .
  qed
  have "force_of_infection q fc
      = fold (\<lambda>a lam. lam[a := lam ! a + (\<Sum>b<length lam. ?h a b)]) [0..<length fc]
          (replicate (length fc) 0)"
    unfolding force_of_infection_def inner ..
  then show ?thesis
    using assms by (simp add: outer)
qed

text \<open>
  The flow from S to E as the specification words it: with \<open>n\<close> susceptibles and the force
  of infection \<open>lam\<close>, the expectation \<open>n * p\<close> in deterministic mode and a binomial draw
  otherwise, where \<open>p = 1 - exp (- lam * time_step)\<close>.
\<close>

definition S_E_flow :: "('c, 'r) externals \<Rightarrow> Parameters \<Rightarrow> 'r \<Rightarrow> real \<Rightarrow> real \<Rightarrow> real" where
  "S_E_flow ext P r n lam =
     (if deterministic P then n * (1 - exp (- lam * time_step P))
      else real (fst (Binomial ext r n (1 - exp (- lam * time_step P)))))"

lemma Tick_age_this:
  assumes "a < length (S pp)" and "a < length (E pp)"
  shows "\<exists>r1. S (fst (Tick_age ext P t a (pp, r, rep))) ! a
        = S pp ! a - S_E_flow ext P r (S pp ! a) (lambda pp ! a)
    \<and> E (fst (Tick_age ext P t a (pp, r, rep))) ! a
        = snd (Mature ext (fst (Add ext P r1 (S_E_flow ext P r (S pp ! a) (lambda pp ! a))
            (dE (pop P ! p pp)) (E pp ! a))))"
proof -
  obtain fl pp1 r1 where b: "builtin_states ext P a (pp, r) = (fl, pp1, r1)"
    by (cases "builtin_states ext P a (pp, r)")
  from Tick_age_core [OF b, of t rep]
  have "S (fst (Tick_age ext P t a (pp, r, rep))) = S pp1" "E (fst (Tick_age ext P t a (pp, r, rep))) = E pp1"
    by (simp_all add: core_def)
  moreover from b assms have "\<exists>r1. S pp1 ! a = S pp ! a - S_E_flow ext P r (S pp ! a) (lambda pp ! a)
    \<and> E pp1 ! a = snd (Mature ext (fst (Add ext P r1 (S_E_flow ext P r (S pp ! a) (lambda pp ! a))
          (dE (pop P ! p pp)) (E pp ! a))))"
    by (auto simp: builtin_states_def Let_def S_E_flow_def binomial_helper_def split: prod.splits)
       (metis fst_conv snd_conv)+
  ultimately show ?thesis by simp
qed

lemma Tick_age_other:
  assumes "a' \<noteq> a"
  shows "S (fst (Tick_age ext P t a' st)) ! a = S (fst st) ! a
    \<and> E (fst (Tick_age ext P t a' st)) ! a = E (fst st) ! a"
proof -
  obtain pp r rep where st: "st = (pp, r, rep)" by (cases st)
  obtain fl pp1 r1 where b: "builtin_states ext P a' (pp, r) = (fl, pp1, r1)"
    by (cases "builtin_states ext P a' (pp, r)")
  from Tick_age_core [OF b, of t rep]
  have "S (fst (Tick_age ext P t a' st)) = S pp1" "E (fst (Tick_age ext P t a' st)) = E pp1"
    by (simp_all add: core_def st)
  moreover from b assms have "S pp1 ! a = S pp ! a \<and> E pp1 ! a = E pp ! a"
    by (auto simp: builtin_states_def Let_def split: prod.splits)
  ultimately show ?thesis by (simp add: st)
qed

lemma Tick_age_lengths:
  "length (S (fst (Tick_age ext P t a st))) = length (S (fst st))
   \<and> length (E (fst (Tick_age ext P t a st))) = length (E (fst st))"
proof -
  obtain pp r rep where st: "st = (pp, r, rep)" by (cases st)
  obtain fl pp1 r1 where b: "builtin_states ext P a (pp, r) = (fl, pp1, r1)"
    by (cases "builtin_states ext P a (pp, r)")
  from Tick_age_core [OF b, of t rep]
  have "S (fst (Tick_age ext P t a st)) = S pp1" "E (fst (Tick_age ext P t a st)) = E pp1"
    by (simp_all add: core_def st)
  moreover from b have "length (S pp1) = length (S pp) \<and> length (E pp1) = length (E pp)"
    by (auto simp: builtin_states_def Let_def split: prod.splits)
  ultimately show ?thesis by (simp add: st)
qed

lemma fold_Tick_age_other:
  assumes "a \<notin> set as"
  shows "S (fst (fold (Tick_age ext P t) as st)) ! a = S (fst st) ! a
    \<and> E (fst (fold (Tick_age ext P t) as st)) ! a = E (fst st) ! a"
  using assms by (induction as arbitrary: st) (simp_all add: Tick_age_other)

lemma fold_Tick_age_lengths:
  "length (S (fst (fold (Tick_age ext P t) as st))) = length (S (fst st))
   \<and> length (E (fst (fold (Tick_age ext P t) as st))) = length (E (fst st))"
  by (induction as arbitrary: st) (simp_all add: Tick_age_lengths)


text \<open>
  Claim C5. After \<^verbatim>\<open>Population::Tick\<close>, for every age group \<open>a\<close>: \<open>lambda[a]\<close> is the sum
  over \<open>b\<close> of \<open>u[a] * cm(a, b) * infec[b]\<close>; and the flow from S to E, which is the
  expectation \<open>S[a] * p\<close> in deterministic mode and a binomial draw with \<open>n = S[a]\<close>
  otherwise, for \<open>p = 1 - exp (- lambda[a] * time_step)\<close> and the count \<open>S[a]\<close> at the
  start of the tick, has been subtracted from \<open>S[a]\<close> and added to \<open>E[a]\<close> (which has then
  matured once).
\<close>

theorem C5_force_and_flow:
  assumes "Population_Tick ext P r t fc rep pp = (b, pp1, r1, rep1)"
    and "a < length fc" and "a < length (S pp)" and "a < length (E pp)"
  shows "lambda pp1 ! a = (\<Sum>b<length fc. u (pop P ! p pp) ! a * cm (pop P ! p pp) a b * fc ! b)
    \<and> (\<exists>ra rb.
          S pp1 ! a = S pp ! a - S_E_flow ext P ra (S pp ! a) (lambda pp1 ! a)
        \<and> E pp1 ! a = snd (Mature ext (fst (Add ext P rb
              (S_E_flow ext P ra (S pp ! a) (lambda pp1 ! a)) (dE (pop P ! p pp)) (E pp ! a)))))"
proof -
  let ?L = "force_of_infection (pop P ! p pp) fc"
  let ?st = "(pp\<lparr>lambda := ?L\<rparr>, r, rep)"
  let ?n = "length ?L"
  have n: "?n = length fc"
    by (rule length_force_of_infection)
  have lam: "lambda pp1 = ?L"
    by (rule Population_Tick_frame(2) [OF assms(1)])
  have pp1: "pp1 = fst (fold (Tick_age ext P t) [0..<?n] ?st)"
    using assms(1) by (auto simp: Population_Tick_def Let_def split: prod.splits)
  have split: "[0..<?n] = [0..<a] @ a # [Suc a..<?n]"
    using assms(2) n by (metis le0 upt_conv_Cons upt_add_eq_append le_add_diff_inverse less_imp_le_nat)
  define sa where "sa = fold (Tick_age ext P t) [0..<a] ?st"
  obtain ppa ra repa where sa: "sa = (ppa, ra, repa)" by (cases sa)
  have before: "S ppa ! a = S pp ! a" "E ppa ! a = E pp ! a" "lambda ppa = ?L" "p ppa = p pp"
    "length (S ppa) = length (S pp)" "length (E ppa) = length (E pp)"
    using fold_Tick_age_other [of a "[0..<a]" ext P t ?st]
      fold_Tick_age_frame [of ext P t "[0..<a]" ?st]
      fold_Tick_age_lengths [of ext P t "[0..<a]" ?st]
    by (simp_all add: sa_def [symmetric] sa)
  from Tick_age_this [of a ppa ext P t ra repa] assms(3,4) before
  obtain rb where this_age:
    "S (fst (Tick_age ext P t a sa)) ! a = S pp ! a - S_E_flow ext P ra (S pp ! a) (?L ! a)"
    "E (fst (Tick_age ext P t a sa)) ! a
      = snd (Mature ext (fst (Add ext P rb (S_E_flow ext P ra (S pp ! a) (?L ! a))
          (dE (pop P ! p pp)) (E pp ! a))))"
    by (auto simp: sa)
  have "pp1 = fst (fold (Tick_age ext P t) [Suc a..<?n] (Tick_age ext P t a sa))"
    unfolding pp1 by (subst split) (simp add: sa_def)
  with fold_Tick_age_other [of a "[Suc a..<?n]" ext P t "Tick_age ext P t a sa"]
  have "S pp1 ! a = S (fst (Tick_age ext P t a sa)) ! a" "E pp1 ! a = E (fst (Tick_age ext P t a sa)) ! a"
    by simp_all
  with this_age have "\<exists>ra rb.
          S pp1 ! a = S pp ! a - S_E_flow ext P ra (S pp ! a) (?L ! a)
        \<and> E pp1 ! a = snd (Mature ext (fst (Add ext P rb
              (S_E_flow ext P ra (S pp ! a) (?L ! a)) (dE (pop P ! p pp)) (E pp ! a))))"
    by auto
  with force_of_infection_nth [OF assms(2)] show ?thesis
    unfolding lam by simp
qed


text \<open>A configuration with contact between the age groups.\<close>

definition params3 :: Parameters where
  "params3 = params0\<lparr>pop := [pop_params0\<lparr>cm := (\<lambda>a b. 2)\<rparr>]\<rparr>"

theorem C5_force_and_flow_witness:
  "lambda (fst (snd (Population_Tick ref_externals params3 0 0 [1 / 10] reporter2 population0))) ! 0
     = 1 / 5
   \<and> S (fst (snd (Population_Tick ref_externals params3 0 0 [1 / 10] reporter2 population0))) ! 0
     = 90 - 90 * (1 - exp (- (1 / 5)))"
proof -
  let ?tick = "Population_Tick ref_externals params3 0 0 [1 / 10] reporter2 population0"
  have t: "?tick = (fst ?tick, fst (snd ?tick), fst (snd (snd ?tick)), snd (snd (snd ?tick)))"
    by simp
  have h: "(0 :: nat) < length [1 / 10 :: real]" "0 < length (S population0)" "0 < length (E population0)"
    by (simp_all add: population0_def Population_new_def Let_def params0_simps pop_params0_simps)
  from C5_force_and_flow [OF t h] show ?thesis
    by (auto simp: S_E_flow_def params3_def params0_def pop_params0_def population0_simps)
qed

section \<open>The seeding guard\<close>

text \<open>The exception of the closure \<^verbatim>\<open>add\<close>.\<close>

abbreviation (input) not_enough :: error where
  "not_enough \<equiv> logic_error ''Not enough unexposed individuals to seed new infections.''"

lemma add_error:
  "add ext P age n st = Inl e \<Longrightarrow> e = not_enough"
  by (auto simp: add_def split: prod.splits if_splits)

lemma seed_deterministic_error:
  "seed_deterministic ext P as st = Inl e \<Longrightarrow> e = not_enough"
  by (induction as arbitrary: st) (auto split: sum.splits dest: add_error)

lemma seed_stochastic_error:
  "seed_stochastic ext P as st = Inl e \<Longrightarrow> e = not_enough"
  by (induction as arbitrary: st) (auto split: if_splits dest: add_error)

lemma seed_event_error:
  "seed_event ext st = Inl e \<Longrightarrow> e = not_enough"
  by (auto simp: seed_event_def Let_def split: prod.splits if_splits sum.splits
      dest: seed_deterministic_error seed_stochastic_error)

lemma seeding_error:
  "seeding ext t st = Inl e \<Longrightarrow> e = not_enough"
proof (induction ext t st rule: seeding.induct)
  case (1 ext t P pp r)
  show ?case
  proof (cases "seed_row pp < length (seed_times (pop P ! p pp))
         \<and> seed_times (pop P ! p pp) ! seed_row pp \<le> t")
    case True
    show ?thesis
    proof (cases "seed_event ext (P, pp, r)")
      case (Inl e1)
      with True "1.prems" have "e = e1"
        by (subst (asm) seeding.simps) simp
      with Inl show ?thesis by (simp add: seed_event_error)
    next
      case (Inr st1)
      obtain P1 pp1 r1 where st1: "st1 = (P1, pp1, r1)" by (cases st1)
      from Inr st1 True "1.prems"
      have "seeding ext t (P1, pp1\<lparr>seed_row := seed_row pp1 + 1\<rparr>, r1) = Inl e"
        by (subst (asm) seeding.simps) simp
      with "1.IH" [OF True Inr [unfolded st1] refl refl] show ?thesis .
    qed
  next
    case False
    with "1.prems" show ?thesis
      by (subst (asm) seeding.simps) simp
  qed
qed

lemma contagiousness_loop_append:
  "contagiousness_loop ext t (js @ ks) st
    = (case contagiousness_loop ext t js st of
         None \<Rightarrow> None
       | Some (Inl e) \<Rightarrow> Some (Inl e)
       | Some (Inr st1) \<Rightarrow> contagiousness_loop ext t ks st1)"
proof (induction js arbitrary: st)
  case Nil
  show ?case by simp
next
  case (Cons j js)
  obtain P mp r where st: "st = (P, mp, r)" by (cases st)
  show ?case
    by (simp add: st Cons split: option.splits sum.splits prod.splits)
qed

lemma contagiousness_loop_throws:
  assumes "contagiousness_loop ext t [0..<j] st = Some (Inr (P1, mp1, r1))"
    and "j < n" and "seeding ext t (P1, pops mp1 ! j, r1) = Inl e"
  shows "contagiousness_loop ext t [0..<n] st = Some (Inl e)"
proof -
  have "[0..<n] = [0..<j] @ j # [Suc j..<n]"
    using assms(2) by (metis le0 upt_conv_Cons upt_add_eq_append le_add_diff_inverse less_imp_le_nat)
  then show ?thesis
    using assms(1,3)
    by (simp add: contagiousness_loop_append Population_Contagiousness_def)
qed


text \<open>One seed event, stochastic: the first age marked by the draw receives one individual.\<close>

lemma seed_stochastic_none:
  assumes "\<forall>a\<in>set as. storage (dist_seed_ages (pop P ! p (fst st))) ! a \<noteq> 1"
  shows "seed_stochastic ext P as st = Inr st"
  using assms by (induction as) simp_all

lemma seed_stochastic_first:
  assumes "a < n" and "storage (dist_seed_ages (pop P ! p (fst st))) ! a = 1"
    and "\<forall>b<a. storage (dist_seed_ages (pop P ! p (fst st))) ! b \<noteq> 1"
  shows "seed_stochastic ext P [0..<n] st = add ext P a 1 st"
proof -
  have "seed_stochastic ext P ([k..<a] @ a # as) st = add ext P a 1 st" if "k \<le> a" for k as
    using that
  proof (induction "a - k" arbitrary: k)
    case 0
    then have "k = a" by simp
    with assms(2) show ?case by simp
  next
    case (Suc d)
    then have "k < a" by simp
    with assms(3) have "storage (dist_seed_ages (pop P ! p (fst st))) ! k \<noteq> 1" by simp
    moreover from \<open>k < a\<close> have "[k..<a] = k # [Suc k..<a]"
      by (simp add: upt_conv_Cons)
    moreover from Suc have "seed_stochastic ext P ([Suc k..<a] @ a # as) st = add ext P a 1 st"
      by simp
    ultimately show ?case by simp
  qed
  from this [of 0 "[Suc a..<n]"] assms(1) show ?thesis
    by (metis le0 upt_conv_Cons upt_add_eq_append le_add_diff_inverse less_imp_le_nat)
qed

text \<open>One seed event, deterministic: every age in turn, each guarded by its own count.\<close>

lemma add_other:
  assumes "add ext P a n (pp, r) = Inr (pp1, r1)"
  shows "pp1 = pp\<lparr>S := S pp1, E := E pp1\<rparr>" and "p pp1 = p pp"
    and "length (S pp1) = length (S pp)" and "length (E pp1) = length (E pp)"
    and "b \<noteq> a \<Longrightarrow> S pp1 ! b = S pp ! b \<and> E pp1 ! b = E pp ! b"
    and "a < length (S pp) \<Longrightarrow> S pp1 ! a = S pp ! a - n"
    and "a < length (E pp) \<Longrightarrow> E pp1 ! a = fst (Add ext P r n (dE (pop P ! p pp)) (E pp ! a))"
  using assms by (auto simp: add_def split: if_splits prod.splits)

lemma seed_deterministic_throws:
  assumes "distinct as" and "a \<in> set as"
    and "S pp ! a < weights (dist_seed_ages (pop P ! p pp)) ! a"
  shows "seed_deterministic ext P as (pp, r) = Inl not_enough"
  using assms
proof (induction as arbitrary: pp r)
  case Nil
  then show ?case by simp
next
  case (Cons b as)
  show ?case
  proof (cases "add ext P b (weights (dist_seed_ages (pop P ! p pp)) ! b) (pp, r)")
    case (Inl e)
    then show ?thesis
      by (simp add: add_error)
  next
    case (Inr st1)
    obtain pp1 r1 where st1: "st1 = (pp1, r1)" by (cases st1)
    note o = add_other [OF Inr [unfolded st1]]
    have "b \<noteq> a"
    proof
      assume "b = a"
      with Cons.prems(3) have "add ext P b (weights (dist_seed_ages (pop P ! p pp)) ! b) (pp, r)
          = Inl not_enough"
        by (simp add: add_def)
      with Inr show False by simp
    qed
    with Cons.prems have "distinct as" "a \<in> set as"
      and "S pp1 ! a < weights (dist_seed_ages (pop P ! p pp1)) ! a"
      using o(2) o(5) [of a] by simp_all
    from Cons.IH [OF this] show ?thesis
      by (simp add: Inr st1)
  qed
qed

lemma seed_deterministic_moves:
  assumes "distinct as"
    and "\<forall>a\<in>set as. \<not> S pp ! a < weights (dist_seed_ages (pop P ! p pp)) ! a"
  shows "\<exists>pp1 r1. seed_deterministic ext P as (pp, r) = Inr (pp1, r1)
      \<and> pp1 = pp\<lparr>S := S pp1, E := E pp1\<rparr>
      \<and> length (S pp1) = length (S pp) \<and> length (E pp1) = length (E pp)
      \<and> (\<forall>a. a \<notin> set as \<longrightarrow> S pp1 ! a = S pp ! a \<and> E pp1 ! a = E pp ! a)
      \<and> (\<forall>a\<in>set as. a < length (S pp) \<longrightarrow>
            S pp1 ! a = S pp ! a - weights (dist_seed_ages (pop P ! p pp)) ! a)
      \<and> (\<forall>a\<in>set as. a < length (E pp) \<longrightarrow>
            (\<exists>ra. E pp1 ! a = fst (Add ext P ra (weights (dist_seed_ages (pop P ! p pp)) ! a)
                                    (dE (pop P ! p pp)) (E pp ! a))))"
  using assms
proof (induction as arbitrary: pp r)
  case Nil
  show ?case by simp
next
  case (Cons b as)
  let ?w = "weights (dist_seed_ages (pop P ! p pp))"
  from Cons.prems(2) have "\<not> S pp ! b < ?w ! b" by simp
  then have "add ext P b (?w ! b) (pp, r)
      = Inr (pp\<lparr>S := (S pp)[b := S pp ! b - ?w ! b],
                E := (E pp)[b := fst (Add ext P r (?w ! b) (dE (pop P ! p pp)) (E pp ! b))]\<rparr>,
             snd (Add ext P r (?w ! b) (dE (pop P ! p pp)) (E pp ! b)))"
    by (simp add: add_def split: prod.splits)
  then obtain pp1 r1 where a: "add ext P b (?w ! b) (pp, r) = Inr (pp1, r1)"
    by blast
  note o = add_other [OF a]
  from Cons.prems have d: "distinct as" and nb: "b \<notin> set as"
    by simp_all
  have "\<forall>a\<in>set as. \<not> S pp1 ! a < weights (dist_seed_ages (pop P ! p pp1)) ! a"
  proof
    fix a assume a: "a \<in> set as"
    with nb have "a \<noteq> b" by auto
    with o(5) [of a] have "S pp1 ! a = S pp ! a" by simp
    with Cons.prems(2) a show "\<not> S pp1 ! a < weights (dist_seed_ages (pop P ! p pp1)) ! a"
      by (simp add: o(2))
  qed
  from Cons.IH [OF d this, of r1] obtain pp2 r2 where
    s: "seed_deterministic ext P as (pp1, r1) = Inr (pp2, r2)"
    and f: "pp2 = pp1\<lparr>S := S pp2, E := E pp2\<rparr>"
      "length (S pp2) = length (S pp1)" "length (E pp2) = length (E pp1)"
    and other: "\<forall>a. a \<notin> set as \<longrightarrow> S pp2 ! a = S pp1 ! a \<and> E pp2 ! a = E pp1 ! a"
    and moved: "\<forall>a\<in>set as. a < length (S pp1) \<longrightarrow>
            S pp2 ! a = S pp1 ! a - weights (dist_seed_ages (pop P ! p pp1)) ! a"
      "\<forall>a\<in>set as. a < length (E pp1) \<longrightarrow>
            (\<exists>ra. E pp2 ! a = fst (Add ext P ra (weights (dist_seed_ages (pop P ! p pp1)) ! a)
                                    (dE (pop P ! p pp1)) (E pp1 ! a)))"
    by blast
  have 1: "seed_deterministic ext P (b # as) (pp, r) = Inr (pp2, r2)"
    by (simp add: a s)
  have 2: "pp2 = pp\<lparr>S := S pp2, E := E pp2\<rparr>"
    by (subst f(1), subst o(1)) simp
  have 3: "length (S pp2) = length (S pp)" "length (E pp2) = length (E pp)"
    by (simp_all add: f(2,3) o(3,4))
  have 4: "S pp2 ! a = S pp ! a \<and> E pp2 ! a = E pp ! a" if "a \<notin> set (b # as)" for a
    using that other o(5) [of a] by simp
  have 5: "S pp2 ! a = S pp ! a - ?w ! a" if "a \<in> set (b # as)" "a < length (S pp)" for a
  proof (cases "a = b")
    case True
    with nb other o(6) that(2) show ?thesis by simp
  next
    case False
    with that moved(1) o(2,3) o(5) [of a] show ?thesis by simp
  qed
  have 6: "\<exists>ra. E pp2 ! a = fst (Add ext P ra (?w ! a) (dE (pop P ! p pp)) (E pp ! a))"
    if "a \<in> set (b # as)" "a < length (E pp)" for a
  proof (cases "a = b")
    case True
    with nb other o(7) that(2) show ?thesis by auto
  next
    case False
    with that have "a \<in> set as" "a < length (E pp1)"
      by (simp_all add: o(4))
    with moved(2) obtain ra where
      "E pp2 ! a = fst (Add ext P ra (weights (dist_seed_ages (pop P ! p pp1)) ! a)
                          (dE (pop P ! p pp1)) (E pp1 ! a))"
      by blast
    with False o(2) o(5) [of a] show ?thesis
      by auto
  qed
  from 1 2 3 4 5 6 show ?case
    by blast
qed

text \<open>
  The weights of the seeding, the test of the seeding loop, and the parameters once the
  draw of a stochastic event has been written into \<^verbatim>\<open>storage\<close>.
\<close>

definition seed_weights :: "Parameters \<Rightarrow> 'c Population \<Rightarrow> real list" where
  "seed_weights P pp = weights (dist_seed_ages (pop P ! p pp))"

definition seed_due :: "real \<Rightarrow> Parameters \<Rightarrow> 'c Population \<Rightarrow> bool" where
  "seed_due t P pp \<longleftrightarrow>
     seed_row pp < length (seed_times (pop P ! p pp)) \<and> seed_times (pop P ! p pp) ! seed_row pp \<le> t"

definition seed_draw :: "('c, 'r) externals \<Rightarrow> Parameters \<Rightarrow> 'c Population \<Rightarrow> 'r \<Rightarrow> nat list \<times> 'r" where
  "seed_draw ext P pp r =
     Multinomial ext r 1 (weights (dist_seed_ages (pop P ! p pp)))
       (storage (dist_seed_ages (pop P ! p pp)))"

definition stored_draw :: "Parameters \<Rightarrow> nat \<Rightarrow> nat list \<Rightarrow> Parameters" where
  "stored_draw P j st =
     P\<lparr>pop := (pop P)[j := (pop P ! j)\<lparr>dist_seed_ages := (dist_seed_ages (pop P ! j))\<lparr>storage := st\<rparr>\<rparr>]\<rparr>"

lemma stored_draw_simps:
  assumes "j < length (pop P)"
  shows "storage (dist_seed_ages (pop (stored_draw P j st) ! j)) = st"
    and "dE (pop (stored_draw P j st) ! j) = dE (pop P ! j)"
    and "weights (dist_seed_ages (pop (stored_draw P j st) ! j)) = weights (dist_seed_ages (pop P ! j))"
  using assms by (simp_all add: stored_draw_def)

lemma seeding_due:
  assumes "seed_due t P pp"
  shows "seeding ext t (P, pp, r)
    = (case seed_event ext (P, pp, r) of
         Inl e \<Rightarrow> Inl e
       | Inr (P1, pp1, r1) \<Rightarrow> seeding ext t (P1, pp1\<lparr>seed_row := seed_row pp1 + 1\<rparr>, r1))"
  using assms by (subst seeding.simps) (simp add: seed_due_def)

lemma seeding_not_due:
  assumes "\<not> seed_due t P pp"
  shows "seeding ext t (P, pp, r) = Inr (P, pp, r)"
  using assms by (subst seeding.simps) (auto simp: seed_due_def)

lemma seed_event_deterministic_throws:
  assumes "deterministic P" and "a < length (S pp)" and "S pp ! a < seed_weights P pp ! a"
  shows "seed_event ext (P, pp, r) = Inl not_enough"
proof -
  have "seed_deterministic ext P [0..<length (S pp)] (pp, r) = Inl not_enough"
    by (rule seed_deterministic_throws [of _ a]) (use assms in \<open>simp_all add: seed_weights_def\<close>)
  with assms(1) show ?thesis
    by (simp add: seed_event_def)
qed

lemma seed_event_deterministic_moves:
  assumes "deterministic P" and "\<forall>a<length (S pp). \<not> S pp ! a < seed_weights P pp ! a"
  shows "\<exists>pp1 r1. seed_event ext (P, pp, r) = Inr (P, pp1, r1)
      \<and> pp1 = pp\<lparr>S := S pp1, E := E pp1\<rparr>
      \<and> length (S pp1) = length (S pp) \<and> length (E pp1) = length (E pp)
      \<and> (\<forall>a<length (S pp).
            S pp1 ! a = S pp ! a - seed_weights P pp ! a
            \<and> (a < length (E pp) \<longrightarrow>
                 (\<exists>ra. E pp1 ! a
                    = fst (Add ext P ra (seed_weights P pp ! a) (dE (pop P ! p pp)) (E pp ! a)))))"
proof -
  from seed_deterministic_moves [of "[0..<length (S pp)]" pp P ext r] assms(2)
  obtain pp1 r1 where s: "seed_deterministic ext P [0..<length (S pp)] (pp, r) = Inr (pp1, r1)"
    and f: "pp1 = pp\<lparr>S := S pp1, E := E pp1\<rparr>" "length (S pp1) = length (S pp)"
      "length (E pp1) = length (E pp)"
    and m: "\<forall>a\<in>set [0..<length (S pp)]. a < length (S pp) \<longrightarrow>
            S pp1 ! a = S pp ! a - weights (dist_seed_ages (pop P ! p pp)) ! a"
      "\<forall>a\<in>set [0..<length (S pp)]. a < length (E pp) \<longrightarrow>
            (\<exists>ra. E pp1 ! a = fst (Add ext P ra (weights (dist_seed_ages (pop P ! p pp)) ! a)
                                    (dE (pop P ! p pp)) (E pp ! a)))"
    unfolding seed_weights_def by auto
  from s assms(1) have "seed_event ext (P, pp, r) = Inr (P, pp1, r1)"
    by (simp add: seed_event_def)
  with f m show ?thesis
    unfolding seed_weights_def by auto
qed

lemma seed_event_stochastic:
  assumes "\<not> deterministic P" and "p pp < length (pop P)"
  shows "a < length (S pp) \<Longrightarrow> fst (seed_draw ext P pp r) ! a = 1
      \<Longrightarrow> \<forall>b<a. fst (seed_draw ext P pp r) ! b \<noteq> 1
      \<Longrightarrow> seed_event ext (P, pp, r)
        = (case add ext (stored_draw P (p pp) (fst (seed_draw ext P pp r))) a 1
                  (pp, snd (seed_draw ext P pp r)) of
             Inl e \<Rightarrow> Inl e
           | Inr (pp2, r2) \<Rightarrow> Inr (stored_draw P (p pp) (fst (seed_draw ext P pp r)), pp2, r2))"
    and "\<forall>a<length (S pp). fst (seed_draw ext P pp r) ! a \<noteq> 1
      \<Longrightarrow> seed_event ext (P, pp, r)
        = Inr (stored_draw P (p pp) (fst (seed_draw ext P pp r)), pp, snd (seed_draw ext P pp r))"
proof -
  obtain st1 r1 where d: "seed_draw ext P pp r = (st1, r1)"
    by (cases "seed_draw ext P pp r")
  let ?P1 = "stored_draw P (p pp) st1"
  have ev: "seed_event ext (P, pp, r)
      = (case seed_stochastic ext ?P1 [0..<length (S pp)] (pp, r1) of
           Inl e \<Rightarrow> Inl e | Inr (pp2, r2) \<Rightarrow> Inr (?P1, pp2, r2))"
    unfolding stored_draw_def using assms(1) d
    by (simp add: seed_event_def seed_draw_def Let_def)
  have st: "storage (dist_seed_ages (pop ?P1 ! p pp)) = st1"
    by (rule stored_draw_simps(1) [OF assms(2)])
  {
    assume "a < length (S pp)" "fst (seed_draw ext P pp r) ! a = 1"
      "\<forall>b<a. fst (seed_draw ext P pp r) ! b \<noteq> 1"
    then have "seed_stochastic ext ?P1 [0..<length (S pp)] (pp, r1) = add ext ?P1 a 1 (pp, r1)"
      by (intro seed_stochastic_first) (simp_all add: st d)
    then show "seed_event ext (P, pp, r)
        = (case add ext (stored_draw P (p pp) (fst (seed_draw ext P pp r))) a 1
                  (pp, snd (seed_draw ext P pp r)) of
             Inl e \<Rightarrow> Inl e
           | Inr (pp2, r2) \<Rightarrow> Inr (stored_draw P (p pp) (fst (seed_draw ext P pp r)), pp2, r2))"
      unfolding d fst_conv snd_conv by (simp add: ev)
  }
  {
    assume "\<forall>a<length (S pp). fst (seed_draw ext P pp r) ! a \<noteq> 1"
    then have "seed_stochastic ext ?P1 [0..<length (S pp)] (pp, r1) = Inr (pp, r1)"
      by (intro seed_stochastic_none) (simp add: st d)
    then show "seed_event ext (P, pp, r)
        = Inr (stored_draw P (p pp) (fst (seed_draw ext P pp r)), pp, snd (seed_draw ext P pp r))"
      unfolding d fst_conv snd_conv by (simp add: ev)
  }
qed

text \<open>
  Claim C3. The closure \<^verbatim>\<open>add\<close> of the seeding throws when the count to inject exceeds
  the susceptibles of the age group, before it has changed anything; otherwise it
  subtracts the count from \<open>S[age]\<close> and adds it to \<open>E[age]\<close>. Every seed event that is due
  goes through it, for every age group it targets:
  \<^item> when a seed event is due, the seeding loop runs the event and throws what it throws;
  \<^item> in deterministic mode the event targets every age group \<open>a\<close> with the count
    \<^verbatim>\<open>weights[a]\<close>: it throws when one age group has fewer susceptibles than its count,
    and otherwise subtracts every count from \<open>S[a]\<close> and adds it to \<open>E[a]\<close>;
  \<^item> in stochastic mode the event targets the first age group that the draw has marked
    with 1, with the count 1: it throws when that age group has less than one
    susceptible, and otherwise subtracts 1 from its \<open>S\<close> and adds 1 to its \<open>E\<close>.
  That exception is the only one the seeding loop throws, and it is fatal: when the
  seeding of population \<open>j\<close> throws after the populations before it have returned,
  \<^verbatim>\<open>Metapopulation::Tick\<close> throws it, and so does the loop of the driver.
\<close>

theorem C3_seeding_guard:
  "(S pp ! age < n \<longrightarrow> add ext P age n (pp, r) = Inl not_enough)
   \<and> (\<not> S pp ! age < n \<longrightarrow>
        add ext P age n (pp, r)
          = Inr (pp\<lparr>S := (S pp)[age := S pp ! age - n],
                    E := (E pp)[age := fst (Add ext P r n (dE (pop P ! p pp)) (E pp ! age))]\<rparr>,
                 snd (Add ext P r n (dE (pop P ! p pp)) (E pp ! age))))
   \<and> (seed_due t P pp \<longrightarrow>
        seeding ext t (P, pp, r)
          = (case seed_event ext (P, pp, r) of
               Inl e \<Rightarrow> Inl e
             | Inr (P1, pp1, r1) \<Rightarrow> seeding ext t (P1, pp1\<lparr>seed_row := seed_row pp1 + 1\<rparr>, r1)))
   \<and> (deterministic P \<and> a < length (S pp) \<and> S pp ! a < seed_weights P pp ! a \<longrightarrow>
        seed_event ext (P, pp, r) = Inl not_enough)
   \<and> (deterministic P \<and> (\<forall>a<length (S pp). \<not> S pp ! a < seed_weights P pp ! a) \<longrightarrow>
        (\<exists>pp1 r1. seed_event ext (P, pp, r) = Inr (P, pp1, r1)
           \<and> (\<forall>a<length (S pp).
                 S pp1 ! a = S pp ! a - seed_weights P pp ! a
                 \<and> (a < length (E pp) \<longrightarrow>
                      (\<exists>ra. E pp1 ! a
                         = fst (Add ext P ra (seed_weights P pp ! a) (dE (pop P ! p pp))
                                  (E pp ! a)))))))
   \<and> (\<not> deterministic P \<and> p pp < length (pop P) \<and> a < length (S pp)
        \<and> fst (seed_draw ext P pp r) ! a = 1 \<and> (\<forall>b<a. fst (seed_draw ext P pp r) ! b \<noteq> 1)
        \<and> S pp ! a < 1 \<longrightarrow>
        seed_event ext (P, pp, r) = Inl not_enough)
   \<and> (\<not> deterministic P \<and> p pp < length (pop P) \<and> a < length (S pp)
        \<and> fst (seed_draw ext P pp r) ! a = 1 \<and> (\<forall>b<a. fst (seed_draw ext P pp r) ! b \<noteq> 1)
        \<and> \<not> S pp ! a < 1 \<longrightarrow>
        seed_event ext (P, pp, r)
          = Inr (stored_draw P (p pp) (fst (seed_draw ext P pp r)),
                 pp\<lparr>S := (S pp)[a := S pp ! a - 1],
                    E := (E pp)[a := fst (Add ext (stored_draw P (p pp) (fst (seed_draw ext P pp r)))
                                            (snd (seed_draw ext P pp r)) 1 (dE (pop P ! p pp))
                                            (E pp ! a))]\<rparr>,
                 snd (Add ext (stored_draw P (p pp) (fst (seed_draw ext P pp r)))
                        (snd (seed_draw ext P pp r)) 1 (dE (pop P ! p pp)) (E pp ! a))))
   \<and> (seeding ext t st = Inl e \<longrightarrow> e = not_enough)
   \<and> (contagiousness_loop ext t [0..<j]
          (P0, mp\<lparr>contag := replicate (length (pops mp))
                         (replicate (length (size_pp (pop P0 ! 0))) 0)\<rparr>, r0)
          = Some (Inr (P1, mp1, r1))
        \<and> j < length (pops mp) \<and> seeding ext t (P1, pops mp1 ! j, r1) = Inl e
        \<longrightarrow> Metapopulation_Tick ext P0 r0 t ts rep mp = Some (Inl e))
   \<and> (Metapopulation_Tick ext P0 r0 (double_round (time0 P0 + double_round (real ts * time_step P0)))
          ts rep mp = Some (Inl e)
        \<longrightarrow> simulation_loop ext (Suc k) ts (P0, mp, r0, rep) = Some (Inl e))"
proof (intro conjI impI)
  assume "S pp ! age < n"
  then show "add ext P age n (pp, r) = Inl not_enough"
    by (simp add: add_def)
next
  assume "\<not> S pp ! age < n"
  then show "add ext P age n (pp, r)
      = Inr (pp\<lparr>S := (S pp)[age := S pp ! age - n],
                E := (E pp)[age := fst (Add ext P r n (dE (pop P ! p pp)) (E pp ! age))]\<rparr>,
             snd (Add ext P r n (dE (pop P ! p pp)) (E pp ! age)))"
    by (simp add: add_def split: prod.splits)
next
  assume "seed_due t P pp"
  then show "seeding ext t (P, pp, r)
      = (case seed_event ext (P, pp, r) of
           Inl e \<Rightarrow> Inl e
         | Inr (P1, pp1, r1) \<Rightarrow> seeding ext t (P1, pp1\<lparr>seed_row := seed_row pp1 + 1\<rparr>, r1))"
    by (rule seeding_due)
next
  assume "deterministic P \<and> a < length (S pp) \<and> S pp ! a < seed_weights P pp ! a"
  then show "seed_event ext (P, pp, r) = Inl not_enough"
    by (intro seed_event_deterministic_throws [of P a]) simp_all
next
  assume "deterministic P \<and> (\<forall>a<length (S pp). \<not> S pp ! a < seed_weights P pp ! a)"
  with seed_event_deterministic_moves [of P pp ext r]
  show "\<exists>pp1 r1. seed_event ext (P, pp, r) = Inr (P, pp1, r1)
           \<and> (\<forall>a<length (S pp).
                 S pp1 ! a = S pp ! a - seed_weights P pp ! a
                 \<and> (a < length (E pp) \<longrightarrow>
                      (\<exists>ra. E pp1 ! a
                         = fst (Add ext P ra (seed_weights P pp ! a) (dE (pop P ! p pp))
                                  (E pp ! a)))))"
    by blast
next
  let ?P1 = "stored_draw P (p pp) (fst (seed_draw ext P pp r))"
  assume h: "\<not> deterministic P \<and> p pp < length (pop P) \<and> a < length (S pp)
        \<and> fst (seed_draw ext P pp r) ! a = 1 \<and> (\<forall>b<a. fst (seed_draw ext P pp r) ! b \<noteq> 1)
        \<and> S pp ! a < 1"
  then have "seed_event ext (P, pp, r)
      = (case add ext ?P1 a 1 (pp, snd (seed_draw ext P pp r)) of
           Inl e \<Rightarrow> Inl e | Inr (pp2, r2) \<Rightarrow> Inr (?P1, pp2, r2))"
    by (intro seed_event_stochastic(1)) simp_all
  moreover from h have "add ext ?P1 a 1 (pp, snd (seed_draw ext P pp r)) = Inl not_enough"
    by (simp add: add_def)
  ultimately show "seed_event ext (P, pp, r) = Inl not_enough"
    by simp
next
  let ?P1 = "stored_draw P (p pp) (fst (seed_draw ext P pp r))"
  let ?r1 = "snd (seed_draw ext P pp r)"
  assume h: "\<not> deterministic P \<and> p pp < length (pop P) \<and> a < length (S pp)
        \<and> fst (seed_draw ext P pp r) ! a = 1 \<and> (\<forall>b<a. fst (seed_draw ext P pp r) ! b \<noteq> 1)
        \<and> \<not> S pp ! a < 1"
  then have "seed_event ext (P, pp, r)
      = (case add ext ?P1 a 1 (pp, ?r1) of
           Inl e \<Rightarrow> Inl e | Inr (pp2, r2) \<Rightarrow> Inr (?P1, pp2, r2))"
    by (intro seed_event_stochastic(1)) simp_all
  moreover from h have "add ext ?P1 a 1 (pp, ?r1)
      = Inr (pp\<lparr>S := (S pp)[a := S pp ! a - 1],
                E := (E pp)[a := fst (Add ext ?P1 ?r1 1 (dE (pop P ! p pp)) (E pp ! a))]\<rparr>,
             snd (Add ext ?P1 ?r1 1 (dE (pop P ! p pp)) (E pp ! a)))"
    by (simp add: add_def stored_draw_simps(2) split: prod.splits)
  ultimately show "seed_event ext (P, pp, r)
          = Inr (?P1,
                 pp\<lparr>S := (S pp)[a := S pp ! a - 1],
                    E := (E pp)[a := fst (Add ext ?P1 ?r1 1 (dE (pop P ! p pp)) (E pp ! a))]\<rparr>,
                 snd (Add ext ?P1 ?r1 1 (dE (pop P ! p pp)) (E pp ! a)))"
    by simp
next
  assume "seeding ext t st = Inl e"
  then show "e = not_enough"
    by (rule seeding_error)
next
  assume a: "contagiousness_loop ext t [0..<j]
          (P0, mp\<lparr>contag := replicate (length (pops mp))
                         (replicate (length (size_pp (pop P0 ! 0))) 0)\<rparr>, r0)
          = Some (Inr (P1, mp1, r1))
        \<and> j < length (pops mp) \<and> seeding ext t (P1, pops mp1 ! j, r1) = Inl e"
  from contagiousness_loop_throws [OF a [THEN conjunct1] a [THEN conjunct2, THEN conjunct1]
      a [THEN conjunct2, THEN conjunct2]]
  show "Metapopulation_Tick ext P0 r0 t ts rep mp = Some (Inl e)"
    by (simp add: Metapopulation_Tick_def Let_def)
next
  assume "Metapopulation_Tick ext P0 r0 (double_round (time0 P0 + double_round (real ts * time_step P0)))
      ts rep mp = Some (Inl e)"
  then show "simulation_loop ext (Suc k) ts (P0, mp, r0, rep) = Some (Inl e)"
    by simp
qed

definition params4 :: Parameters where
  "params4 = params0\<lparr>pop := [pop_params0\<lparr>size_pp := [0], seed_times := [0]\<rparr>]\<rparr>"

text \<open>
  A population of no individuals with one seed event at time 0, and the stochastic modes
  of it and of the seeded population of 100.
\<close>

definition params4s :: Parameters where
  "params4s = params4\<lparr>deterministic := False\<rparr>"

definition params7s :: Parameters where
  "params7s = params7\<lparr>deterministic := False\<rparr>"

lemma seeded_simps:
  "deterministic params4" "deterministic params7" "\<not> deterministic params4s" "\<not> deterministic params7s"
  "length (pop params4s) = 1" "length (pop params7s) = 1"
  "p (Population_new ext P j) = j"
  "S (Population_new ext params4 0) = [0]" "S (Population_new ext params4s 0) = [0]"
  "S (Population_new ext params7 0) = [100]" "S (Population_new ext params7s 0) = [100]"
  "E (Population_new ext params7 0) = [Compartment_new ext]"
  "E (Population_new ext params7s 0) = [Compartment_new ext]"
  "seed_weights params4 (Population_new ext params4 0) = [1]"
  "seed_weights params7 (Population_new ext params7 0) = [10]"
  "seed_due 0 params4 (Population_new ext params4 0)"
  "fst (seed_draw ref_externals params4s (Population_new ref_externals params4s 0) r) = [1]"
  "fst (seed_draw ref_externals params7s (Population_new ref_externals params7s 0) r) = [1]"
  "snd (seed_draw ref_externals params7s (Population_new ref_externals params7s 0) r) = Suc r"
  by (simp_all add: params4s_def params7s_def params4_def params7_def pop_params7_def params0_def
      pop_params0_def Population_new_def Let_def seed_weights_def seed_due_def seed_draw_def
      ref_externals_def ref_Multinomial_def)

theorem C3_seeding_guard_witness:
  "add ref_externals params0 0 100 (population0, 0) = Inl not_enough
   \<and> add ref_externals params0 0 10 (population0, 0)
       = Inr (population0\<lparr>S := [80], E := [\<lparr>contents = [0, 10], occupancy = 10\<rparr>]\<rparr>, 0)
   \<and> seed_event ref_externals (params4, Population_new ref_externals params4 0, 0) = Inl not_enough
   \<and> seeding ref_externals 0 (params4, Population_new ref_externals params4 0, 0) = Inl not_enough
   \<and> (\<exists>pp1 r1. seed_event ref_externals (params7, Population_new ref_externals params7 0, 0)
          = Inr (params7, pp1, r1)
        \<and> S pp1 ! 0 = 90 \<and> E pp1 ! 0 = \<lparr>contents = [0, 10], occupancy = 10\<rparr>)
   \<and> seed_event ref_externals (params4s, Population_new ref_externals params4s 0, 0) = Inl not_enough
   \<and> (\<exists>P1 r1. seed_event ref_externals (params7s, Population_new ref_externals params7s 0, 0)
          = Inr (P1, (Population_new ref_externals params7s 0)
                       \<lparr>S := [99], E := [\<lparr>contents = [0, 1], occupancy = 1\<rparr>]\<rparr>, r1))
   \<and> Metapopulation_Tick ref_externals params4 0 0 0 reporter2 (Metapopulation_new ref_externals params4)
       = Some (Inl not_enough)
   \<and> simulation_loop ref_externals 1 0
        (params4, Metapopulation_new ref_externals params4, 0, reporter2) = Some (Inl not_enough)"
proof -
  let ?mp = "Metapopulation_new ref_externals params4"
  let ?p4 = "Population_new ref_externals params4 0"
  let ?p7 = "Population_new ref_externals params7 0"
  let ?p4s = "Population_new ref_externals params4s 0"
  let ?p7s = "Population_new ref_externals params7s 0"
  have pops: "pops ?mp = [?p4]"
    by (simp add: Metapopulation_new_def params4_def)
  have s: "S population0 ! 0 < 100" "\<not> S population0 ! 0 < 10"
    by (simp_all add: population0_simps)
  have 1: "add ref_externals params0 0 100 (population0, 0) = Inl not_enough"
    using C3_seeding_guard [of population0 0 100 ref_externals params0 0] s by blast
  have 2: "add ref_externals params0 0 10 (population0, 0)
       = Inr (population0\<lparr>S := [80], E := [\<lparr>contents = [0, 10], occupancy = 10\<rparr>]\<rparr>, 0)"
    using C3_seeding_guard [THEN conjunct2, THEN conjunct1, of population0 0 10 ref_externals params0 0] s
    by (simp add: population0_def Population_new_def Let_def params0_def pop_params0_def
        ref_externals_def ref_Add_def delay1_def enrol_def)
  note rest = C3_seeding_guard [THEN conjunct2, THEN conjunct2]
  have 3: "seed_event ref_externals (params4, ?p4, 0) = Inl not_enough"
    using rest [THEN conjunct2, THEN conjunct1, of params4 0 ?p4 ref_externals 0]
    by (simp add: seeded_simps)
  have 4: "seeding ref_externals 0 (params4, ?p4, 0) = Inl not_enough"
    using rest [THEN conjunct1, of 0 params4 ?p4 ref_externals 0] 3
    by (simp add: seeded_simps)
  from rest [THEN conjunct2, THEN conjunct2, THEN conjunct1, of params7 ?p7 ref_externals 0]
  obtain pp1 r1 where e5: "seed_event ref_externals (params7, ?p7, 0) = Inr (params7, pp1, r1)"
    and m5: "\<forall>a<length (S ?p7). S pp1 ! a = S ?p7 ! a - seed_weights params7 ?p7 ! a
                 \<and> (a < length (E ?p7) \<longrightarrow>
                      (\<exists>ra. E pp1 ! a
                         = fst (Add ref_externals params7 ra (seed_weights params7 ?p7 ! a)
                                  (dE (pop params7 ! p ?p7)) (E ?p7 ! a))))"
    by (auto simp: seeded_simps)
  from m5 have "S pp1 ! 0 = 90 \<and> E pp1 ! 0 = \<lparr>contents = [0, 10], occupancy = 10\<rparr>"
    by (simp add: seeded_simps)
       (simp add: ref_externals_def ref_Add_def params7_def pop_params7_def params0_def
         pop_params0_def delay1_def enrol_def)
  with e5 have 5: "\<exists>pp1 r1. seed_event ref_externals (params7, ?p7, 0) = Inr (params7, pp1, r1)
        \<and> S pp1 ! 0 = 90 \<and> E pp1 ! 0 = \<lparr>contents = [0, 10], occupancy = 10\<rparr>"
    by blast
  have 6: "seed_event ref_externals (params4s, ?p4s, 0) = Inl not_enough"
    using rest [THEN conjunct2, THEN conjunct2, THEN conjunct2, THEN conjunct1,
        of params4s ?p4s 0 ref_externals 0]
    by (simp add: seeded_simps)
  have 7: "\<exists>P1 r1. seed_event ref_externals (params7s, ?p7s, 0)
          = Inr (P1, ?p7s\<lparr>S := [99], E := [\<lparr>contents = [0, 1], occupancy = 1\<rparr>]\<rparr>, r1)"
    using rest [THEN conjunct2, THEN conjunct2, THEN conjunct2, THEN conjunct2, THEN conjunct1,
        of params7s ?p7s 0 ref_externals 0]
    by (simp add: seeded_simps)
       (simp add: ref_externals_def ref_Add_def ref_Multinomial_def params7s_def params7_def
         pop_params7_def params0_def pop_params0_def delay1_def enrol_def stored_draw_def)
  from rest [THEN conjunct2, THEN conjunct2, THEN conjunct2, THEN conjunct2, THEN conjunct2,
      THEN conjunct1, of ref_externals 0 "(params4, ?p4, 0)" not_enough] 4
  have e: "not_enough = not_enough" by simp
  have "contagiousness_loop ref_externals 0 [0..<0]
          (params4, ?mp\<lparr>contag := replicate (length (pops ?mp))
                         (replicate (length (size_pp (pop params4 ! 0))) 0)\<rparr>, 0)
          = Some (Inr (params4, ?mp\<lparr>contag := replicate (length (pops ?mp))
                         (replicate (length (size_pp (pop params4 ! 0))) 0)\<rparr>, 0))
        \<and> 0 < length (pops ?mp)
        \<and> seeding ref_externals 0 (params4, pops (?mp\<lparr>contag := replicate (length (pops ?mp))
                         (replicate (length (size_pp (pop params4 ! 0))) 0)\<rparr>) ! 0, 0) = Inl not_enough"
    by (simp add: pops 4)
  with rest [THEN conjunct2, THEN conjunct2, THEN conjunct2, THEN conjunct2, THEN conjunct2,
      THEN conjunct2, THEN conjunct1,
      of ref_externals 0 0 params4 ?mp 0 params4 _ 0 not_enough 0 reporter2]
  have 8: "Metapopulation_Tick ref_externals params4 0 0 0 reporter2 ?mp = Some (Inl not_enough)"
    by blast
  have "double_round (time0 params4 + double_round (real 0 * time_step params4)) = 0"
    by (simp add: params4_def params0_def)
  with 8 rest [THEN conjunct2, THEN conjunct2, THEN conjunct2, THEN conjunct2, THEN conjunct2,
      THEN conjunct2, THEN conjunct2,
      of ref_externals params4 0 0 reporter2 ?mp not_enough 0]
  have 9: "simulation_loop ref_externals 1 0 (params4, ?mp, 0, reporter2) = Some (Inl not_enough)"
    by simp
  from 1 2 3 4 5 6 7 8 9 show ?thesis by (intro conjI)
qed

section \<open>Reporting alignment\<close>

subsection \<open>The cells a tick may write\<close>

text \<open>What fixes the row of a cell.\<close>

definition shape :: "Reporter \<Rightarrow> real \<times> nat \<times> nat" where
  "shape rep = (t0 rep, n_populations rep, n_age_groups rep)"

lemma rep_row_shape: "shape rep1 = shape rep \<Longrightarrow> rep_row rep1 = rep_row rep"
  by (auto simp: shape_def rep_row_def fun_eq_iff)

text \<open>
  \<open>writes_within rep rep1 K\<close>: the reporter \<open>rep1\<close> differs from \<open>rep\<close> at most in the cells
  \<open>(channel, row)\<close> of \<open>K\<close>.
\<close>

definition writes_within :: "Reporter \<Rightarrow> Reporter \<Rightarrow> (nat \<times> nat) set \<Rightarrow> bool" where
  "writes_within rep rep1 K \<longleftrightarrow>
     shape rep1 = shape rep
     \<and> (\<forall>c. c \<notin> fst ` K \<longrightarrow> data rep1 ! c = data rep ! c)
     \<and> (\<forall>c row. (c, row) \<notin> K \<longrightarrow> data rep1 ! c ! row = data rep ! c ! row)"

lemma writes_within_refl: "writes_within rep rep K"
  by (simp add: writes_within_def)

lemma writes_within_trans:
  "writes_within rep rep1 K \<Longrightarrow> writes_within rep1 rep2 K \<Longrightarrow> writes_within rep rep2 K"
  by (simp add: writes_within_def)

lemma writes_within_mono:
  "writes_within rep rep1 K \<Longrightarrow> K \<subseteq> K' \<Longrightarrow> writes_within rep rep1 K'"
  unfolding writes_within_def by (meson image_mono subsetD)

lemma rep_set_writes:
  "writes_within rep (rep_set rep t j a c v) {(c, rep_row rep t j a)}"
proof -
  have "data (rep_set rep t j a c v) ! c' ! row = data rep ! c' ! row"
    if "(c', row) \<noteq> (c, rep_row rep t j a)" for c' row
    using that
    by (cases "c' = c"; cases "c < length (data rep)") (simp_all add: rep_set_def list_update_beyond)
  then show ?thesis
    by (auto simp: writes_within_def shape_def rep_set_def)
qed

lemma rep_add_writes:
  "writes_within rep (rep_add rep t j a c v) {(c, rep_row rep t j a)}"
  by (simp add: rep_add_def rep_set_writes)

lemma fold_writes:
  assumes "\<And>x s. x \<in> set xs \<Longrightarrow> shape s = shape s0 \<Longrightarrow> writes_within s (f x s) K"
  shows "writes_within s0 (fold f xs s0) K"
proof -
  have "writes_within s (fold f xs s) K" if "shape s = shape s0" for s
    using assms that
  proof (induction xs arbitrary: s)
    case Nil
    show ?case by (simp add: writes_within_refl)
  next
    case (Cons x xs)
    have step: "writes_within s (f x s) K"
      by (rule Cons.prems(1)) (simp_all add: Cons.prems(2))
    then have "shape (f x s) = shape s0"
      by (simp add: writes_within_def Cons.prems(2))
    then have "writes_within (f x s) (fold f xs (f x s)) K"
      by (intro Cons.IH Cons.prems(1)) simp_all
    with step show ?case
      by (simp add: writes_within_trans)
  qed
  then show ?thesis by simp
qed

text \<open>The channels of the two kinds.\<close>

definition prevalence_channels :: "Parameters \<Rightarrow> nat set" where
  "prevalence_channels P = {0, 1, 2, 3, 4, 5} \<union> (\<Union>pr \<in> set (processes P). set (p_cols pr))"

definition incidence_channels :: "Parameters \<Rightarrow> nat set" where
  "incidence_channels P =
     {6, 7, 8} \<union> (\<Union>pr \<in> set (processes P). set (i_cols pr) \<union> set (o_cols pr))"

lemma process_prevalences_writes:
  assumes "pr \<in> set (processes P)"
  shows "writes_within rep (process_prevalences ext t a pp pr rep)
    (prevalence_channels P \<times> {rep_row rep t (p pp) a})"
  unfolding process_prevalences_def
proof (rule fold_writes)
  fix i s assume i: "i \<in> set [0..<length (p_cols pr)]" and "shape s = shape rep"
  then have "rep_row s = rep_row rep" by (rule_tac rep_row_shape)
  with rep_set_writes [of s t "p pp" a "p_cols pr ! i"]
  have "writes_within s (rep_set s t (p pp) a (p_cols pr ! i) (Size ext (pc pp ! (p_ids pr ! i) ! a)))
      {(p_cols pr ! i, rep_row rep t (p pp) a)}"
    by simp
  moreover from i have "p_cols pr ! i \<in> set (p_cols pr)"
    by simp
  with assms have "p_cols pr ! i \<in> prevalence_channels P"
    unfolding prevalence_channels_def by blast
  ultimately show "writes_within s (rep_set s t (p pp) a (p_cols pr ! i) (Size ext (pc pp ! (p_ids pr ! i) ! a)))
     (prevalence_channels P \<times> {rep_row rep t (p pp) a})"
    by (elim writes_within_mono) auto
qed

lemma report_prevalences_writes:
  "writes_within rep (report_prevalences ext P t a pp rep)
    ((if t = real_of_int (to_int t) then prevalence_channels P else {}) \<times> {rep_row rep t (p pp) a})"
proof (cases "t = real_of_int (to_int t)")
  case False
  then show ?thesis
    by (simp add: report_prevalences_def writes_within_refl)
next
  case True
  let ?K = "prevalence_channels P \<times> {rep_row rep t (p pp) a}"
  have builtin: "writes_within s (rep_set s t (p pp) a c v) ?K"
    if "shape s = shape rep" "c \<in> {0, 1, 2, 3, 4, 5}" for s c v
  proof -
    from that(1) have "rep_row s = rep_row rep" by (rule rep_row_shape)
    with rep_set_writes [of s t "p pp" a c v]
    have "writes_within s (rep_set s t (p pp) a c v) {(c, rep_row rep t (p pp) a)}"
      by simp
    then show ?thesis
      by (rule writes_within_mono) (use that(2) in \<open>auto simp: prevalence_channels_def\<close>)
  qed
  have procs: "writes_within s (fold (process_prevalences ext t a pp) (processes P) s) ?K"
    if s: "shape s = shape rep" for s
  proof -
    have "writes_within s (fold (process_prevalences ext t a pp) (processes P) s)
        (prevalence_channels P \<times> {rep_row s t (p pp) a})"
    proof (rule fold_writes)
      fix pr s1 assume "pr \<in> set (processes P)" "shape s1 = shape s"
      with process_prevalences_writes [of pr P s1 ext t a pp] rep_row_shape [of s1 s]
      show "writes_within s1 (process_prevalences ext t a pp pr s1)
          (prevalence_channels P \<times> {rep_row s t (p pp) a})"
        by simp
    qed
    then show ?thesis by (simp only: rep_row_shape [OF s])
  qed
  define r0 where "r0 = rep_set rep t (p pp) a 0 (S pp ! a)"
  define r1 where "r1 = rep_set r0 t (p pp) a 1 (Size ext (E pp ! a))"
  define r2 where "r2 = rep_set r1 t (p pp) a 2 (Size ext (Ip pp ! a))"
  define r3 where "r3 = rep_set r2 t (p pp) a 3 (Size ext (Is pp ! a))"
  define r4 where "r4 = rep_set r3 t (p pp) a 4 (Size ext (Ia pp ! a))"
  define r5 where "r5 = rep_set r4 t (p pp) a 5 (R pp ! a)"
  have w0: "writes_within rep r0 ?K" unfolding r0_def by (rule builtin) simp_all
  then have s0: "shape r0 = shape rep" by (simp add: writes_within_def)
  have "writes_within r0 r1 ?K" unfolding r1_def by (rule builtin) (simp_all add: s0)
  with w0 have w1: "writes_within rep r1 ?K" by (rule writes_within_trans)
  then have s1: "shape r1 = shape rep" by (simp add: writes_within_def)
  have "writes_within r1 r2 ?K" unfolding r2_def by (rule builtin) (simp_all add: s1)
  with w1 have w2: "writes_within rep r2 ?K" by (rule writes_within_trans)
  then have s2: "shape r2 = shape rep" by (simp add: writes_within_def)
  have "writes_within r2 r3 ?K" unfolding r3_def by (rule builtin) (simp_all add: s2)
  with w2 have w3: "writes_within rep r3 ?K" by (rule writes_within_trans)
  then have s3: "shape r3 = shape rep" by (simp add: writes_within_def)
  have "writes_within r3 r4 ?K" unfolding r4_def by (rule builtin) (simp_all add: s3)
  with w3 have w4: "writes_within rep r4 ?K" by (rule writes_within_trans)
  then have s4: "shape r4 = shape rep" by (simp add: writes_within_def)
  have "writes_within r4 r5 ?K" unfolding r5_def by (rule builtin) (simp_all add: s4)
  with w4 have w5: "writes_within rep r5 ?K" by (rule writes_within_trans)
  then have s5: "shape r5 = shape rep" by (simp add: writes_within_def)
  from w5 procs [OF s5] have "writes_within rep (fold (process_prevalences ext t a pp) (processes P) r5) ?K"
    by (rule writes_within_trans)
  moreover have "report_prevalences ext P t a pp rep = fold (process_prevalences ext t a pp) (processes P) r5"
    using True by (simp add: report_prevalences_def Let_def r0_def r1_def r2_def r3_def r4_def r5_def)
  ultimately show ?thesis
    using True by simp
qed


lemma process_incidences_writes:
  assumes "pr \<in> set (processes P)"
  shows "writes_within rep (process_incidences t a pp pr rep)
    (incidence_channels P \<times> {rep_row rep t (p pp) a})"
  unfolding process_incidences_def
proof (rule fold_writes)
  fix i s assume i: "i \<in> set [0..<length (i_cols pr)]" and "shape s = shape rep"
  then have "rep_row s = rep_row rep" by (rule_tac rep_row_shape)
  with rep_add_writes [of s t "p pp" a "i_cols pr ! i"]
  have "writes_within s (rep_add s t (p pp) a (i_cols pr ! i) (pci pp ! (i_ids pr ! i)))
      {(i_cols pr ! i, rep_row rep t (p pp) a)}"
    by simp
  moreover from i have "i_cols pr ! i \<in> set (i_cols pr)"
    by simp
  with assms have "i_cols pr ! i \<in> incidence_channels P"
    unfolding incidence_channels_def by blast
  ultimately show "writes_within s (rep_add s t (p pp) a (i_cols pr ! i) (pci pp ! (i_ids pr ! i)))
     (incidence_channels P \<times> {rep_row rep t (p pp) a})"
    by (elim writes_within_mono) auto
qed

lemma process_outcidences_writes:
  assumes "pr \<in> set (processes P)"
  shows "writes_within rep (process_outcidences t a pp pr rep)
    (incidence_channels P \<times> {rep_row rep t (p pp) a})"
  unfolding process_outcidences_def
proof (rule fold_writes)
  fix i s assume i: "i \<in> set [0..<length (o_cols pr)]" and "shape s = shape rep"
  then have "rep_row s = rep_row rep" by (rule_tac rep_row_shape)
  with rep_add_writes [of s t "p pp" a "o_cols pr ! i"]
  have "writes_within s (rep_add s t (p pp) a (o_cols pr ! i) (pco pp ! (o_ids pr ! i)))
      {(o_cols pr ! i, rep_row rep t (p pp) a)}"
    by simp
  moreover from i have "o_cols pr ! i \<in> set (o_cols pr)"
    by simp
  with assms have "o_cols pr ! i \<in> incidence_channels P"
    unfolding incidence_channels_def by blast
  ultimately show "writes_within s (rep_add s t (p pp) a (o_cols pr ! i) (pco pp ! (o_ids pr ! i)))
     (incidence_channels P \<times> {rep_row rep t (p pp) a})"
    by (elim writes_within_mono) auto
qed

lemma report_incidence_writes:
  "writes_within rep (report_incidence P t a fl pp rep)
    (incidence_channels P \<times> {rep_row rep t (p pp) a})"
proof -
  let ?K = "incidence_channels P \<times> {rep_row rep t (p pp) a}"
  have builtin: "writes_within s (rep_add s t (p pp) a c v) ?K"
    if "shape s = shape rep" "c \<in> {6, 7, 8}" for s c v
  proof -
    from that(1) have "rep_row s = rep_row rep" by (rule rep_row_shape)
    with rep_add_writes [of s t "p pp" a c v]
    have "writes_within s (rep_add s t (p pp) a c v) {(c, rep_row rep t (p pp) a)}"
      by simp
    then show ?thesis
      by (rule writes_within_mono) (use that(2) in \<open>auto simp: incidence_channels_def\<close>)
  qed
  have procs: "writes_within s (fold (\<lambda>process rp.
        process_outcidences t a pp process (process_incidences t a pp process rp)) (processes P) s) ?K"
    if s: "shape s = shape rep" for s
  proof (rule writes_within_mono [OF fold_writes subset_refl])
    fix pr s1 assume pr: "pr \<in> set (processes P)" and s1: "shape s1 = shape s"
    from s1 s have r1: "rep_row s1 = rep_row rep" by (intro rep_row_shape) simp
    from process_incidences_writes [OF pr, of s1 t a pp]
    have w1: "writes_within s1 (process_incidences t a pp pr s1) ?K"
      by (simp add: r1)
    then have "shape (process_incidences t a pp pr s1) = shape rep"
      by (simp add: writes_within_def s1 s)
    then have "rep_row (process_incidences t a pp pr s1) = rep_row rep"
      by (rule rep_row_shape)
    with process_outcidences_writes [OF pr, of "process_incidences t a pp pr s1" t a pp]
    have "writes_within (process_incidences t a pp pr s1)
        (process_outcidences t a pp pr (process_incidences t a pp pr s1)) ?K"
      by simp
    with w1 show "writes_within s1 (process_outcidences t a pp pr (process_incidences t a pp pr s1)) ?K"
      by (rule writes_within_trans)
  qed
  define r6 where "r6 = rep_add rep t (p pp) a 6 (nIp_Is fl)"
  define r7 where "r7 = rep_add r6 t (p pp) a 7 (n_reported fl)"
  define r8 where "r8 = rep_add r7 t (p pp) a 8 (nE_Ia fl)"
  have w6: "writes_within rep r6 ?K" unfolding r6_def by (rule builtin) simp_all
  then have s6: "shape r6 = shape rep" by (simp add: writes_within_def)
  have "writes_within r6 r7 ?K" unfolding r7_def by (rule builtin) (simp_all add: s6)
  with w6 have w7: "writes_within rep r7 ?K" by (rule writes_within_trans)
  then have s7: "shape r7 = shape rep" by (simp add: writes_within_def)
  have "writes_within r7 r8 ?K" unfolding r8_def by (rule builtin) (simp_all add: s7)
  with w7 have w8: "writes_within rep r8 ?K" by (rule writes_within_trans)
  then have s8: "shape r8 = shape rep" by (simp add: writes_within_def)
  from w8 procs [OF s8] have "writes_within rep (fold (\<lambda>process rp.
        process_outcidences t a pp process (process_incidences t a pp process rp)) (processes P) r8) ?K"
    by (rule writes_within_trans)
  then show ?thesis
    by (simp add: report_incidence_def Let_def r6_def r7_def r8_def)
qed

text \<open>The part of the loop body that does not touch the reporter.\<close>

definition Tick_age_state ::
  "('c, 'r) externals \<Rightarrow> Parameters \<Rightarrow> nat \<Rightarrow> 'c Population \<times> 'r \<Rightarrow> Flows \<times> 'c Population \<times> 'r"
where
  "Tick_age_state ext P a st =
     (let (fl, pp1, r1) = builtin_states ext P a st;
          (pp3, r2) = seed_processes ext P fl a (mature_processes ext P a pp1, r1)
      in (fl, pp3, r2))"

lemma Tick_age_reporter:
  "Tick_age ext P t a (pp, r, rep)
    = (case Tick_age_state ext P a (pp, r) of
         (fl, pp3, r2) \<Rightarrow>
           (pp3, r2, report_incidence P t a fl pp3 (report_prevalences ext P t a pp rep)))"
  by (simp add: Tick_age_def Tick_age_state_def Let_def split: prod.splits)

text \<open>The channels a tick at time \<open>t\<close> may write.\<close>

definition tick_channels :: "Parameters \<Rightarrow> real \<Rightarrow> nat set" where
  "tick_channels P t =
     (if t = real_of_int (to_int t) then prevalence_channels P else {}) \<union> incidence_channels P"

lemma Tick_age_writes:
  "writes_within rep (snd (snd (Tick_age ext P t a (pp, r, rep))))
     (tick_channels P t \<times> {rep_row rep t (p pp) a})"
proof -
  obtain fl pp3 r2 where ts: "Tick_age_state ext P a (pp, r) = (fl, pp3, r2)"
    by (cases "Tick_age_state ext P a (pp, r)")
  obtain fl1 pp1 r1 where b: "builtin_states ext P a (pp, r) = (fl1, pp1, r1)"
    by (cases "builtin_states ext P a (pp, r)")
  from Tick_age_core [OF b, of t rep] builtin_states_frame [OF b]
  have p: "p pp3 = p pp"
    by (simp add: Tick_age_reporter ts core_def)
  let ?r1 = "report_prevalences ext P t a pp rep"
  let ?K = "tick_channels P t \<times> {rep_row rep t (p pp) a}"
  have w1: "writes_within rep ?r1 ?K"
    by (rule writes_within_mono [OF report_prevalences_writes]) (auto simp: tick_channels_def)
  then have "rep_row ?r1 = rep_row rep"
    by (intro rep_row_shape) (simp add: writes_within_def)
  with report_incidence_writes [of ?r1 P t a fl pp3] p
  have "writes_within ?r1 (report_incidence P t a fl pp3 ?r1)
      (incidence_channels P \<times> {rep_row rep t (p pp) a})"
    by simp
  then have "writes_within ?r1 (report_incidence P t a fl pp3 ?r1) ?K"
    by (rule writes_within_mono) (auto simp: tick_channels_def)
  with w1 have "writes_within rep (report_incidence P t a fl pp3 ?r1) ?K"
    by (rule writes_within_trans)
  then show ?thesis
    unfolding Tick_age_reporter ts by simp
qed

lemma fold_Tick_age_writes:
  "writes_within (snd (snd st)) (snd (snd (fold (Tick_age ext P t) as st)))
     (tick_channels P t \<times> (\<lambda>a. rep_row (snd (snd st)) t (p (fst st)) a) ` set as)"
proof (induction as arbitrary: st)
  case Nil
  show ?case by (simp add: writes_within_refl)
next
  case (Cons a as)
  obtain pp r rep where st: "st = (pp, r, rep)" by (cases st)
  let ?st1 = "Tick_age ext P t a st"
  let ?K = "tick_channels P t \<times> (\<lambda>a. rep_row rep t (p pp) a) ` set (a # as)"
  have w1: "writes_within rep (snd (snd ?st1)) ?K"
    unfolding st by (rule writes_within_mono [OF Tick_age_writes]) auto
  then have "rep_row (snd (snd ?st1)) = rep_row rep"
    by (intro rep_row_shape) (simp add: writes_within_def)
  moreover have "p (fst ?st1) = p pp"
    using Tick_age_frame [of ext P t a st] by (simp add: st)
  ultimately have "writes_within (snd (snd ?st1)) (snd (snd (fold (Tick_age ext P t) as ?st1)))
      (tick_channels P t \<times> (\<lambda>a. rep_row rep t (p pp) a) ` set as)"
    using Cons.IH [of ?st1] by simp
  then have "writes_within (snd (snd ?st1)) (snd (snd (fold (Tick_age ext P t) as ?st1))) ?K"
    by (rule writes_within_mono) auto
  with w1 have "writes_within rep (snd (snd (fold (Tick_age ext P t) as ?st1))) ?K"
    by (rule writes_within_trans)
  then show ?case
    by (simp add: st)
qed

lemma Population_Tick_writes:
  assumes "Population_Tick ext P r t fc rep pp = (b, pp1, r1, rep1)"
  shows "writes_within rep rep1
     (tick_channels P t \<times> (\<lambda>a. rep_row rep t (p pp) a) ` {..<length fc})"
proof -
  let ?st = "(pp\<lparr>lambda := force_of_infection (pop P ! p pp) fc\<rparr>, r, rep)"
  have "rep1 = snd (snd (fold (Tick_age ext P t) [0..<length fc] ?st))"
    using assms by (auto simp: Population_Tick_def Let_def length_force_of_infection split: prod.splits)
  with fold_Tick_age_writes [of ?st ext P t "[0..<length fc]"] show ?thesis
    by (simp add: atLeast0LessThan)
qed

subsection \<open>What a tick adds does not depend on what the cell holds\<close>

text \<open>A reporter with the amount \<open>d\<close> added to one cell.\<close>

definition shift_cell :: "Reporter \<Rightarrow> nat \<Rightarrow> nat \<Rightarrow> real \<Rightarrow> Reporter" where
  "shift_cell rep c row d =
     rep\<lparr>data := (data rep)[c := (data rep ! c)[row := data rep ! c ! row + d]]\<rparr>"

lemma rep_row_data [simp]: "rep_row (rep\<lparr>data := m\<rparr>) = rep_row rep"
  by (simp add: rep_row_def fun_eq_iff)

lemma rep_row_shift [simp]: "rep_row (shift_cell rep c row d) = rep_row rep"
  by (simp add: shift_cell_def)

lemma update_cell_swap:
  fixes m :: "real list list"
  assumes "(c, row) \<noteq> (c', row')"
  shows "(m[c := (m ! c)[row := x]])[c' := ((m[c := (m ! c)[row := x]]) ! c')[row' := z]]
    = (m[c' := (m ! c')[row' := z]])[c := ((m[c' := (m ! c')[row' := z]]) ! c)[row := x]]"
proof (cases "c = c'")
  case False
  then show ?thesis
    by (simp add: list_update_swap)
next
  case True
  with assms have "row \<noteq> row'" by simp
  with True show ?thesis
    by (cases "c < length m") (simp_all add: list_update_swap list_update_beyond)
qed

lemma rep_set_shift:
  assumes "(c', rep_row rep t j a) \<noteq> (c, row)"
  shows "rep_set (shift_cell rep c row d) t j a c' v = shift_cell (rep_set rep t j a c' v) c row d"
proof -
  let ?m = "data rep" and ?r = "rep_row rep t j a"
  have cell: "(?m[c' := (?m ! c')[?r := v]]) ! c ! row = ?m ! c ! row"
    using assms
    by (cases "c' = c"; cases "c' < length ?m") (auto simp: list_update_beyond)
  from assms have ne: "(c, row) \<noteq> (c', ?r)" by auto
  show ?thesis
    by (simp add: rep_set_def shift_cell_def cell
        update_cell_swap [OF ne, of ?m "?m ! c ! row + d" v])
qed

lemma rep_add_shift:
  "rep_add (shift_cell rep c row d) t j a c' v = shift_cell (rep_add rep t j a c' v) c row d"
proof (cases "(c', rep_row rep t j a) = (c, row)")
  case False
  then have "rep_get (shift_cell rep c row d) t j a c' = rep_get rep t j a c'"
    by (cases "c' = c"; cases "c < length (data rep)")
       (auto simp: rep_get_def shift_cell_def list_update_beyond)
  with rep_set_shift [OF False] show ?thesis
    by (simp add: rep_add_def)
next
  case True
  then show ?thesis
    by (cases "c < length (data rep)"; cases "row < length (data rep ! c)")
       (simp_all add: rep_add_def rep_set_def rep_get_def shift_cell_def list_update_beyond
          add.commute add.left_commute)
qed

lemma fold_shift:
  assumes "\<And>x s. x \<in> set xs \<Longrightarrow> f x (shift_cell s c row d) = shift_cell (f x s) c row d"
  shows "fold f xs (shift_cell s c row d) = shift_cell (fold f xs s) c row d"
  using assms by (induction xs arbitrary: s) simp_all

lemma process_incidences_shift:
  "process_incidences t a pp pr (shift_cell rep c row d)
    = shift_cell (process_incidences t a pp pr rep) c row d"
  unfolding process_incidences_def by (rule fold_shift) (rule rep_add_shift)

lemma process_outcidences_shift:
  "process_outcidences t a pp pr (shift_cell rep c row d)
    = shift_cell (process_outcidences t a pp pr rep) c row d"
  unfolding process_outcidences_def by (rule fold_shift) (rule rep_add_shift)

lemma report_incidence_shift:
  "report_incidence P t a fl pp (shift_cell rep c row d)
    = shift_cell (report_incidence P t a fl pp rep) c row d"
proof -
  have "fold (\<lambda>process rp. process_outcidences t a pp process (process_incidences t a pp process rp))
      prs (shift_cell s c row d)
    = shift_cell (fold (\<lambda>process rp.
        process_outcidences t a pp process (process_incidences t a pp process rp)) prs s) c row d"
    for prs s
    by (rule fold_shift) (simp add: process_incidences_shift process_outcidences_shift)
  then show ?thesis
    by (simp add: report_incidence_def Let_def rep_add_shift)
qed

lemma process_prevalences_shift:
  assumes "c \<notin> set (p_cols pr)"
  shows "process_prevalences ext t a pp pr (shift_cell rep c row d)
    = shift_cell (process_prevalences ext t a pp pr rep) c row d"
  unfolding process_prevalences_def
proof (rule fold_shift)
  fix i s assume "i \<in> set [0..<length (p_cols pr)]"
  with assms have "p_cols pr ! i \<noteq> c" by auto
  then show "rep_set (shift_cell s c row d) t (p pp) a (p_cols pr ! i) (Size ext (pc pp ! (p_ids pr ! i) ! a))
    = shift_cell (rep_set s t (p pp) a (p_cols pr ! i) (Size ext (pc pp ! (p_ids pr ! i) ! a))) c row d"
    by (intro rep_set_shift) simp
qed

lemma report_prevalences_shift:
  assumes "c \<notin> prevalence_channels P"
  shows "report_prevalences ext P t a pp (shift_cell rep c row d)
    = shift_cell (report_prevalences ext P t a pp rep) c row d"
proof -
  have "fold (process_prevalences ext t a pp) (processes P) (shift_cell s c row d)
    = shift_cell (fold (process_prevalences ext t a pp) (processes P) s) c row d" for s
  proof (rule fold_shift)
    fix pr s1 assume "pr \<in> set (processes P)"
    with assms have "c \<notin> set (p_cols pr)"
      by (auto simp: prevalence_channels_def)
    then show "process_prevalences ext t a pp pr (shift_cell s1 c row d)
      = shift_cell (process_prevalences ext t a pp pr s1) c row d"
      by (rule process_prevalences_shift)
  qed
  moreover have "rep_set (shift_cell s c row d) t (p pp) a k v = shift_cell (rep_set s t (p pp) a k v) c row d"
    if "k \<in> {0, 1, 2, 3, 4, 5}" for s k v
  proof (rule rep_set_shift)
    from that assms have "k \<noteq> c" by (auto simp: prevalence_channels_def)
    then show "(k, rep_row s t (p pp) a) \<noteq> (c, row)" by simp
  qed
  ultimately show ?thesis
    by (simp add: report_prevalences_def Let_def)
qed

lemma Tick_age_shift:
  assumes "c \<notin> prevalence_channels P"
  shows "Tick_age ext P t a (pp, r, shift_cell rep c row d)
    = (case Tick_age ext P t a (pp, r, rep) of (pp1, r1, rep1) \<Rightarrow> (pp1, r1, shift_cell rep1 c row d))"
  by (simp add: Tick_age_reporter report_prevalences_shift [OF assms] report_incidence_shift
      split: prod.splits)

lemma fold_Tick_age_shift:
  assumes "c \<notin> prevalence_channels P"
  shows "fold (Tick_age ext P t) as (pp, r, shift_cell rep c row d)
    = (case fold (Tick_age ext P t) as (pp, r, rep) of
         (pp1, r1, rep1) \<Rightarrow> (pp1, r1, shift_cell rep1 c row d))"
proof (induction as arbitrary: pp r rep)
  case Nil
  show ?case by simp
next
  case (Cons a as)
  obtain pp1 r1 rep1 where t: "Tick_age ext P t a (pp, r, rep) = (pp1, r1, rep1)"
    by (cases "Tick_age ext P t a (pp, r, rep)")
  show ?case
    by (simp add: Tick_age_shift [OF assms] t Cons)
qed

lemma Population_Tick_shift:
  assumes "c \<notin> prevalence_channels P"
    and "Population_Tick ext P r t fc rep pp = (b, pp1, r1, rep1)"
  shows "Population_Tick ext P r t fc (shift_cell rep c row d) pp = (b, pp1, r1, shift_cell rep1 c row d)"
  using assms(2)
  by (simp add: Population_Tick_def Let_def fold_Tick_age_shift [OF assms(1)] split: prod.splits)

subsection \<open>What an overwrite forgets\<close>

text \<open>
  An overwrite forgets what the cell held: \<open>shift_row rep t j a c d\<close> is the reporter with
  \<open>d\<close> added to the cell of channel \<open>c\<close> in the row of \<open>(t, j, a)\<close>.
\<close>

definition shift_row :: "Reporter \<Rightarrow> real \<Rightarrow> nat \<Rightarrow> nat \<Rightarrow> nat \<Rightarrow> real \<Rightarrow> Reporter" where
  "shift_row rep t j a c d = shift_cell rep c (rep_row rep t j a) d"

lemma rep_set_forgets: "rep_set (shift_row rep t j a c d) t j a c v = rep_set rep t j a c v"
  by (cases "c < length (data rep)")
     (simp_all add: rep_set_def shift_row_def shift_cell_def list_update_beyond)

lemma rep_row_rep_set: "rep_row (rep_set rep t j a c v) = rep_row rep"
  by (simp add: rep_set_def)

lemma rep_row_rep_add: "rep_row (rep_add rep t j a c v) = rep_row rep"
  by (simp add: rep_add_def rep_row_rep_set)

lemma rep_row_age: "rep_row rep t j a' = rep_row rep t j a \<longleftrightarrow> a' = a"
  by (simp add: rep_row_def)

lemma rep_set_shift_row:
  assumes "c' \<noteq> c \<or> a' \<noteq> a"
  shows "rep_set (shift_row rep t j a c d) t j a' c' v = shift_row (rep_set rep t j a' c' v) t j a c d"
proof -
  from assms have "(c', rep_row rep t j a') \<noteq> (c, rep_row rep t j a)"
    by (auto simp: rep_row_age)
  then show ?thesis
    unfolding shift_row_def by (simp add: rep_set_shift rep_row_rep_set)
qed

lemma rep_add_shift_row:
  "rep_add (shift_row rep t j a c d) t j a' c' v = shift_row (rep_add rep t j a' c' v) t j a c d"
  unfolding shift_row_def by (simp add: rep_add_shift rep_row_rep_add)

text \<open>Either way, the shifted run ends like the run itself or like its shift.\<close>

definition keeps_or_forgets ::
  "(Reporter \<Rightarrow> Reporter) \<Rightarrow> real \<Rightarrow> nat \<Rightarrow> nat \<Rightarrow> nat \<Rightarrow> real \<Rightarrow> bool" where
  "keeps_or_forgets f t j a c d \<longleftrightarrow>
     (\<forall>s. f (shift_row s t j a c d) = shift_row (f s) t j a c d \<or> f (shift_row s t j a c d) = f s)"

definition forgets ::
  "(Reporter \<Rightarrow> Reporter) \<Rightarrow> real \<Rightarrow> nat \<Rightarrow> nat \<Rightarrow> nat \<Rightarrow> real \<Rightarrow> bool" where
  "forgets f t j a c d \<longleftrightarrow> (\<forall>s. f (shift_row s t j a c d) = f s)"

lemma forgets_keeps: "forgets f t j a c d \<Longrightarrow> keeps_or_forgets f t j a c d"
  by (simp add: forgets_def keeps_or_forgets_def)

lemma keeps_or_forgets_comp:
  "keeps_or_forgets f t j a c d \<Longrightarrow> keeps_or_forgets g t j a c d
    \<Longrightarrow> keeps_or_forgets (\<lambda>s. g (f s)) t j a c d"
  unfolding keeps_or_forgets_def by metis

lemma forgets_then: "forgets f t j a c d \<Longrightarrow> forgets (\<lambda>s. g (f s)) t j a c d"
  by (simp add: forgets_def)

lemma then_forgets:
  "keeps_or_forgets f t j a c d \<Longrightarrow> forgets g t j a c d \<Longrightarrow> forgets (\<lambda>s. g (f s)) t j a c d"
  unfolding keeps_or_forgets_def forgets_def by metis

lemma fold_keeps_or_forgets:
  assumes "\<And>x. x \<in> set xs \<Longrightarrow> keeps_or_forgets (f x) t j a c d"
  shows "keeps_or_forgets (fold f xs) t j a c d"
  using assms
proof (induction xs)
  case Nil
  show ?case by (simp add: keeps_or_forgets_def)
next
  case (Cons x xs)
  have "keeps_or_forgets (\<lambda>s. fold f xs (f x s)) t j a c d"
    by (rule keeps_or_forgets_comp) (simp_all add: Cons)
  then show ?case by (simp add: keeps_or_forgets_def)
qed

lemma fold_forgets:
  assumes "\<And>x. x \<in> set xs \<Longrightarrow> keeps_or_forgets (f x) t j a c d"
    and "x \<in> set xs" and "forgets (f x) t j a c d"
  shows "forgets (fold f xs) t j a c d"
proof -
  from assms(2) obtain ys zs where xs: "xs = ys @ x # zs"
    by (meson split_list)
  have "keeps_or_forgets (fold f ys) t j a c d"
    by (rule fold_keeps_or_forgets) (simp add: assms(1) xs)
  then have "forgets (\<lambda>s. f x (fold f ys s)) t j a c d"
    using assms(3) by (rule then_forgets)
  then have "forgets (\<lambda>s. fold f zs (f x (fold f ys s))) t j a c d"
    by (rule forgets_then)
  then show ?thesis
    by (simp add: xs forgets_def)
qed

lemma rep_set_keeps_or_forgets:
  "keeps_or_forgets (\<lambda>s. rep_set s t j a' c' v) t j a c d"
proof (cases "c' = c \<and> a' = a")
  case True
  then show ?thesis
    by (simp add: keeps_or_forgets_def rep_set_forgets)
next
  case False
  then show ?thesis
    by (simp add: keeps_or_forgets_def rep_set_shift_row)
qed

lemma rep_add_keeps: "keeps_or_forgets (\<lambda>s. rep_add s t j a' c' v) t j a c d"
  by (simp add: keeps_or_forgets_def rep_add_shift_row)

lemma process_prevalences_keeps_or_forgets:
  "keeps_or_forgets (process_prevalences ext t a' pp pr) t (p pp) a c d"
  unfolding process_prevalences_def
  by (rule fold_keeps_or_forgets) (rule rep_set_keeps_or_forgets)

lemma process_prevalences_forgets:
  assumes "c \<in> set (p_cols pr)"
  shows "forgets (process_prevalences ext t a pp pr) t (p pp) a c d"
proof -
  from assms obtain i where i: "i < length (p_cols pr)" "p_cols pr ! i = c"
    by (auto simp: in_set_conv_nth)
  show ?thesis
    unfolding process_prevalences_def
  proof (rule fold_forgets [where x = i])
    show "i \<in> set [0..<length (p_cols pr)]" using i by simp
    show "forgets (\<lambda>rp. rep_set rp t (p pp) a (p_cols pr ! i) (Size ext (pc pp ! (p_ids pr ! i) ! a)))
        t (p pp) a c d"
      by (simp add: forgets_def i rep_set_forgets)
  qed (rule rep_set_keeps_or_forgets)
qed

definition builtin_prevalences :: "('c, 'r) externals \<Rightarrow> nat \<Rightarrow> 'c Population \<Rightarrow> (nat \<times> real) list" where
  "builtin_prevalences ext a pp =
     [(0, S pp ! a), (1, Size ext (E pp ! a)), (2, Size ext (Ip pp ! a)), (3, Size ext (Is pp ! a)),
      (4, Size ext (Ia pp ! a)), (5, R pp ! a)]"

lemma report_prevalences_folds:
  "report_prevalences ext P t a pp rep =
     (if t = real_of_int (to_int t) then
        fold (process_prevalences ext t a pp) (processes P)
          (fold (\<lambda>cv s. rep_set s t (p pp) a (fst cv) (snd cv)) (builtin_prevalences ext a pp) rep)
      else rep)"
  by (simp add: report_prevalences_def builtin_prevalences_def Let_def)

lemma report_prevalences_keeps_or_forgets:
  "keeps_or_forgets (report_prevalences ext P t a' pp) t (p pp) a c d"
proof (cases "t = real_of_int (to_int t)")
  case False
  then show ?thesis
    by (simp add: report_prevalences_def keeps_or_forgets_def)
next
  case True
  let ?f = "fold (process_prevalences ext t a' pp) (processes P)"
  let ?g = "fold (\<lambda>cv s. rep_set s t (p pp) a' (fst cv) (snd cv)) (builtin_prevalences ext a' pp)"
  have f: "keeps_or_forgets ?f t (p pp) a c d"
    by (rule fold_keeps_or_forgets) (rule process_prevalences_keeps_or_forgets)
  have g: "keeps_or_forgets ?g t (p pp) a c d"
    by (rule fold_keeps_or_forgets) (rule rep_set_keeps_or_forgets)
  from keeps_or_forgets_comp [OF g f] True show ?thesis
    by (simp add: report_prevalences_folds keeps_or_forgets_def)
qed

lemma report_prevalences_forgets:
  assumes "t = real_of_int (to_int t)" and "c \<in> prevalence_channels P"
  shows "forgets (report_prevalences ext P t a pp) t (p pp) a c d"
proof -
  let ?f = "fold (process_prevalences ext t a pp) (processes P)"
  let ?g = "fold (\<lambda>cv s. rep_set s t (p pp) a (fst cv) (snd cv)) (builtin_prevalences ext a pp)"
  have f: "keeps_or_forgets ?f t (p pp) a c d"
    by (rule fold_keeps_or_forgets) (rule process_prevalences_keeps_or_forgets)
  have g: "keeps_or_forgets ?g t (p pp) a c d"
    by (rule fold_keeps_or_forgets) (rule rep_set_keeps_or_forgets)
  have "forgets (\<lambda>s. ?f (?g s)) t (p pp) a c d"
  proof (cases "c \<in> {0, 1, 2, 3, 4, 5}")
    case True
    then obtain v where "(c, v) \<in> set (builtin_prevalences ext a pp)"
      by (auto simp: builtin_prevalences_def)
    moreover have "forgets (\<lambda>s. rep_set s t (p pp) a (fst (c, v)) (snd (c, v))) t (p pp) a c d"
      by (simp add: forgets_def rep_set_forgets)
    ultimately have "forgets ?g t (p pp) a c d"
      by (intro fold_forgets [where x = "(c, v)"] rep_set_keeps_or_forgets)
    then show ?thesis by (rule forgets_then)
  next
    case False
    with assms(2) obtain pr where pr: "pr \<in> set (processes P)" "c \<in> set (p_cols pr)"
      by (auto simp: prevalence_channels_def)
    have "forgets ?f t (p pp) a c d"
      by (rule fold_forgets [OF process_prevalences_keeps_or_forgets pr(1)])
         (rule process_prevalences_forgets [OF pr(2)])
    with g show ?thesis by (rule then_forgets)
  qed
  with assms(1) show ?thesis
    by (simp add: report_prevalences_folds forgets_def)
qed

lemma rep_row_report_incidence: "rep_row (report_incidence P t a fl pp s) = rep_row s"
  using report_incidence_writes [of s P t a fl pp]
  by (intro rep_row_shape) (simp add: writes_within_def)

lemma report_incidence_shift_row:
  "report_incidence P t a' fl pp (shift_row s t j a c d)
    = shift_row (report_incidence P t a' fl pp s) t j a c d"
  by (simp add: shift_row_def report_incidence_shift rep_row_report_incidence)

lemma Tick_age_shift_row:
  assumes "Tick_age ext P t a' (pp, r, rep) = (pp1, r1, rep1)"
  shows "\<exists>x. Tick_age ext P t a' (pp, r, shift_row rep t (p pp) a c d) = (pp1, r1, x)
      \<and> (x = shift_row rep1 t (p pp) a c d \<or> x = rep1)
      \<and> (a' = a \<and> t = real_of_int (to_int t) \<and> c \<in> prevalence_channels P \<longrightarrow> x = rep1)"
proof -
  obtain fl pp3 r2 where s: "Tick_age_state ext P a' (pp, r) = (fl, pp3, r2)"
    by (cases "Tick_age_state ext P a' (pp, r)")
  let ?prev = "report_prevalences ext P t a' pp"
  let ?inc = "report_incidence P t a' fl pp3"
  let ?sh = "shift_row rep t (p pp) a c d"
  from assms s have res: "pp1 = pp3" "r1 = r2" "rep1 = ?inc (?prev rep)"
    by (auto simp: Tick_age_reporter)
  have tick: "Tick_age ext P t a' (pp, r, ?sh) = (pp1, r1, ?inc (?prev ?sh))"
    by (simp add: Tick_age_reporter s res)
  from report_prevalences_keeps_or_forgets [of ext P t a' pp a c d]
  have "?prev ?sh = shift_row (?prev rep) t (p pp) a c d \<or> ?prev ?sh = ?prev rep"
    by (simp add: keeps_or_forgets_def)
  then have 1: "?inc (?prev ?sh) = shift_row rep1 t (p pp) a c d \<or> ?inc (?prev ?sh) = rep1"
    by (auto simp: res report_incidence_shift_row)
  have 2: "?inc (?prev ?sh) = rep1"
    if "a' = a" "t = real_of_int (to_int t)" "c \<in> prevalence_channels P"
    using report_prevalences_forgets [OF that(2,3), where ext = ext and a = a and pp = pp and d = d]
      that(1)
    by (simp add: forgets_def res)
  from tick 1 2 show ?thesis
    by blast
qed

lemma fold_Tick_age_shift_row:
  assumes "fold (Tick_age ext P t) as (pp, r, rep) = (pp1, r1, rep1)"
  shows "\<exists>x. fold (Tick_age ext P t) as (pp, r, shift_row rep t (p pp) a c d) = (pp1, r1, x)
      \<and> (x = shift_row rep1 t (p pp) a c d \<or> x = rep1)
      \<and> (a \<in> set as \<and> t = real_of_int (to_int t) \<and> c \<in> prevalence_channels P \<longrightarrow> x = rep1)"
  using assms
proof (induction as arbitrary: pp r rep)
  case Nil
  then show ?case by simp
next
  case (Cons a' as)
  obtain pp2 r2 rep2 where t: "Tick_age ext P t a' (pp, r, rep) = (pp2, r2, rep2)"
    by (cases "Tick_age ext P t a' (pp, r, rep)")
  with Cons.prems have rest: "fold (Tick_age ext P t) as (pp2, r2, rep2) = (pp1, r1, rep1)"
    by simp
  from Tick_age_frame [of ext P t a' "(pp, r, rep)"] t have p2: "p pp2 = p pp"
    by simp
  from Tick_age_shift_row [OF t, of a c d] obtain x where
    x: "Tick_age ext P t a' (pp, r, shift_row rep t (p pp) a c d) = (pp2, r2, x)"
      "x = shift_row rep2 t (p pp) a c d \<or> x = rep2"
      "a' = a \<and> t = real_of_int (to_int t) \<and> c \<in> prevalence_channels P \<longrightarrow> x = rep2"
    by blast
  from Cons.IH [OF rest] obtain z where
    z: "fold (Tick_age ext P t) as (pp2, r2, shift_row rep2 t (p pp) a c d) = (pp1, r1, z)"
      "z = shift_row rep1 t (p pp) a c d \<or> z = rep1"
      "a \<in> set as \<and> t = real_of_int (to_int t) \<and> c \<in> prevalence_channels P \<longrightarrow> z = rep1"
    unfolding p2 by blast
  show ?case
  proof (cases "x = rep2")
    case True
    with x(1) rest show ?thesis by simp
  next
    case False
    with x have "x = shift_row rep2 t (p pp) a c d"
      and "\<not> (a' = a \<and> t = real_of_int (to_int t) \<and> c \<in> prevalence_channels P)"
      by auto
    with x(1) z show ?thesis by auto
  qed
qed

lemma Population_Tick_forgets:
  assumes "Population_Tick ext P r t fc rep pp = (b, pp1, r1, rep1)"
    and "t = real_of_int (to_int t)" and "c \<in> prevalence_channels P" and "a < length fc"
  shows "Population_Tick ext P r t fc (shift_row rep t (p pp) a c d) pp = (b, pp1, r1, rep1)"
proof -
  let ?pp0 = "pp\<lparr>lambda := force_of_infection (pop P ! p pp) fc\<rparr>"
  let ?n = "length (lambda ?pp0)"
  have n: "?n = length fc"
    by (simp add: length_force_of_infection)
  from assms(1) have f: "fold (Tick_age ext P t) [0..<?n] (?pp0, r, rep) = (pp1, r1, rep1)"
    and b: "b = observer ext (p pp1) (pop P ! p pp1) t"
    by (auto simp: Population_Tick_def Let_def split: prod.splits)
  from fold_Tick_age_shift_row [OF f, of a c d] assms(2-4) n
  have "fold (Tick_age ext P t) [0..<?n] (?pp0, r, shift_row rep t (p pp) a c d) = (pp1, r1, rep1)"
    by auto
  with b show ?thesis
    by (simp add: Population_Tick_def Let_def)
qed

subsection \<open>The process loops of one age group\<close>

text \<open>The compartments of the processes, in the order of the two loops over them.\<close>

definition process_compartments :: "Parameters \<Rightarrow> nat list" where
  "process_compartments P = concat (map ids (processes P))"

lemma fold_concat_map: "fold (\<lambda>x. fold f (g x)) xs s = fold f (concat (map g xs)) s"
  by (induction xs arbitrary: s) simp_all

lemma mature_processes_fold:
  "mature_processes ext P a pp = fold (mature_compartment ext a) (process_compartments P) pp"
  by (simp add: mature_processes_def process_compartments_def fold_concat_map)

lemma mature_compartment_frame:
  "pci (mature_compartment ext a k pp) = pci pp \<and> nd_out (mature_compartment ext a k pp) = nd_out pp
   \<and> ni_out (mature_compartment ext a k pp) = ni_out pp
   \<and> length (pco (mature_compartment ext a k pp)) = length (pco pp)
   \<and> length (pc (mature_compartment ext a k pp)) = length (pc pp)"
  by (simp add: mature_compartment_def split: prod.splits)

lemma mature_compartment_other:
  "k \<noteq> ci \<Longrightarrow> pco (mature_compartment ext a k pp) ! ci = pco pp ! ci
    \<and> pc (mature_compartment ext a k pp) ! ci = pc pp ! ci"
  by (simp add: mature_compartment_def split: prod.splits)

lemma mature_compartment_other_age:
  "a' \<noteq> a \<Longrightarrow> pc (mature_compartment ext a k pp) ! ci ! a' = pc pp ! ci ! a'"
  by (cases "k = ci"; cases "k < length (pc pp)")
     (simp_all add: mature_compartment_def list_update_beyond split: prod.splits)

lemma mature_compartment_this:
  "k < length (pco pp) \<Longrightarrow> pco (mature_compartment ext a k pp) ! k = fst (Mature ext (pc pp ! k ! a))"
  "k < length (pc pp) \<Longrightarrow> a < length (pc pp ! k)
    \<Longrightarrow> pc (mature_compartment ext a k pp) ! k ! a = snd (Mature ext (pc pp ! k ! a))"
  by (simp_all add: mature_compartment_def split: prod.splits)

lemma fold_mature_frame:
  "pci (fold (mature_compartment ext a) ks pp) = pci pp
   \<and> nd_out (fold (mature_compartment ext a) ks pp) = nd_out pp
   \<and> ni_out (fold (mature_compartment ext a) ks pp) = ni_out pp
   \<and> length (pco (fold (mature_compartment ext a) ks pp)) = length (pco pp)
   \<and> length (pc (fold (mature_compartment ext a) ks pp)) = length (pc pp)"
  by (induction ks arbitrary: pp) (simp_all add: mature_compartment_frame)

lemma fold_mature_other:
  "ci \<notin> set ks \<Longrightarrow> pco (fold (mature_compartment ext a) ks pp) ! ci = pco pp ! ci
    \<and> pc (fold (mature_compartment ext a) ks pp) ! ci = pc pp ! ci"
  by (induction ks arbitrary: pp) (auto simp: mature_compartment_other)

lemma fold_mature_other_age:
  "a' \<noteq> a \<Longrightarrow> pc (fold (mature_compartment ext a) ks pp) ! ci ! a' = pc pp ! ci ! a'"
  by (induction ks arbitrary: pp) (simp_all add: mature_compartment_other_age)

lemma fold_mature_this:
  assumes "distinct ks" and "ci \<in> set ks"
  shows "ci < length (pco pp)
      \<Longrightarrow> pco (fold (mature_compartment ext a) ks pp) ! ci = fst (Mature ext (pc pp ! ci ! a))"
    and "ci < length (pc pp) \<Longrightarrow> a < length (pc pp ! ci)
      \<Longrightarrow> pc (fold (mature_compartment ext a) ks pp) ! ci ! a = snd (Mature ext (pc pp ! ci ! a))"
  using assms
proof (induction ks arbitrary: pp)
  case Nil
  {
    case 1 then show ?case by simp
  next
    case 2 then show ?case by simp
  }
next
  case (Cons k ks)
  {
    case 1
    show ?case
    proof (cases "k = ci")
      case True
      with "1.prems" have "ci \<notin> set ks" by simp
      from fold_mature_other [OF this, of ext a "mature_compartment ext a k pp"]
        mature_compartment_this(1) [of k pp ext a] True "1.prems"(1)
      show ?thesis by simp
    next
      case False
      with "1.prems" have "distinct ks" "ci \<in> set ks" by simp_all
      from Cons.IH(1) [OF _ this, of "mature_compartment ext a k pp"] "1.prems"(1) False
      show ?thesis
        by (simp add: mature_compartment_frame mature_compartment_other)
    qed
  next
    case 2
    show ?case
    proof (cases "k = ci")
      case True
      with "2.prems" have "ci \<notin> set ks" by simp
      from fold_mature_other [OF this, of ext a "mature_compartment ext a k pp"]
        mature_compartment_this(2) [of k pp a ext] True "2.prems"(1,2)
      show ?thesis by simp
    next
      case False
      with "2.prems" have "distinct ks" "ci \<in> set ks" by simp_all
      from Cons.IH(2) [OF _ _ this, of "mature_compartment ext a k pp"] "2.prems"(1,2) False
      show ?thesis
        by (simp add: mature_compartment_frame mature_compartment_other)
    qed
  }
qed

lemma seed_compartment_frame:
  "pco (fst (seed_compartment ext P pr a c st)) = pco (fst st)
   \<and> nd_out (fst (seed_compartment ext P pr a c st)) = nd_out (fst st)
   \<and> ni_out (fst (seed_compartment ext P pr a c st)) = ni_out (fst st)
   \<and> length (pci (fst (seed_compartment ext P pr a c st))) = length (pci (fst st))
   \<and> length (pc (fst (seed_compartment ext P pr a c st))) = length (pc (fst st))"
  by (simp add: seed_compartment_def Let_def split: prod.splits)

lemma seed_compartment_other:
  "ids pr ! c \<noteq> ci \<Longrightarrow> pci (fst (seed_compartment ext P pr a c st)) ! ci = pci (fst st) ! ci
    \<and> pc (fst (seed_compartment ext P pr a c st)) ! ci = pc (fst st) ! ci"
  by (simp add: seed_compartment_def Let_def split: prod.splits)

lemma seed_compartment_other_age:
  "a' \<noteq> a \<Longrightarrow> pc (fst (seed_compartment ext P pr a c st)) ! ci ! a' = pc (fst st) ! ci ! a'"
  by (cases st; cases "ids pr ! c = ci"; cases "ids pr ! c < length (pc (fst st))")
     (auto simp: seed_compartment_def Let_def list_update_beyond split: prod.splits)

lemma seed_compartment_this:
  assumes "ids pr ! c < length (pci (fst st))" and "ids pr ! c < length (pc (fst st))"
    and "a < length (pc (fst st) ! (ids pr ! c))"
  shows "pci (fst (seed_compartment ext P pr a c st)) ! (ids pr ! c) = nd_out (fst st) ! c
    \<and> pc (fst (seed_compartment ext P pr a c st)) ! (ids pr ! c) ! a
        = fst (Add ext P (snd st) (nd_out (fst st) ! c) (delays pr ! c) (pc (fst st) ! (ids pr ! c) ! a))"
  using assms by (cases st) (auto simp: seed_compartment_def Let_def split: prod.splits)

lemma fold_seed_frame:
  "pco (fst (fold (seed_compartment ext P pr a) cs st)) = pco (fst st)
   \<and> nd_out (fst (fold (seed_compartment ext P pr a) cs st)) = nd_out (fst st)
   \<and> ni_out (fst (fold (seed_compartment ext P pr a) cs st)) = ni_out (fst st)
   \<and> length (pci (fst (fold (seed_compartment ext P pr a) cs st))) = length (pci (fst st))
   \<and> length (pc (fst (fold (seed_compartment ext P pr a) cs st))) = length (pc (fst st))"
  by (induction cs arbitrary: st) (simp_all add: seed_compartment_frame)

lemma fold_seed_other:
  "ci \<notin> (\<lambda>c. ids pr ! c) ` set cs
    \<Longrightarrow> pci (fst (fold (seed_compartment ext P pr a) cs st)) ! ci = pci (fst st) ! ci
      \<and> pc (fst (fold (seed_compartment ext P pr a) cs st)) ! ci = pc (fst st) ! ci"
  by (induction cs arbitrary: st) (auto simp: seed_compartment_other)

lemma fold_seed_other_age:
  "a' \<noteq> a \<Longrightarrow> pc (fst (fold (seed_compartment ext P pr a) cs st)) ! ci ! a' = pc (fst st) ! ci ! a'"
  by (induction cs arbitrary: st) (simp_all add: seed_compartment_other_age)

lemma fold_seed_this:
  assumes "distinct (map (\<lambda>c. ids pr ! c) cs)" and "c \<in> set cs"
    and "ids pr ! c < length (pci (fst st))" and "ids pr ! c < length (pc (fst st))"
    and "a < length (pc (fst st) ! (ids pr ! c))"
  shows "pci (fst (fold (seed_compartment ext P pr a) cs st)) ! (ids pr ! c) = nd_out (fst st) ! c
    \<and> (\<exists>rb. pc (fst (fold (seed_compartment ext P pr a) cs st)) ! (ids pr ! c) ! a
          = fst (Add ext P rb (nd_out (fst st) ! c) (delays pr ! c) (pc (fst st) ! (ids pr ! c) ! a)))"
  using assms
proof (induction cs arbitrary: st)
  case Nil
  then show ?case by simp
next
  case (Cons c' cs)
  let ?st1 = "seed_compartment ext P pr a c' st"
  show ?case
  proof (cases "c' = c")
    case True
    with Cons.prems(1) have "ids pr ! c \<notin> (\<lambda>c. ids pr ! c) ` set cs" by simp
    from fold_seed_other [OF this, of ext P a ?st1] seed_compartment_this [OF Cons.prems(3-5), of ext P]
      True
    show ?thesis by auto
  next
    case False
    with Cons.prems(1,2) have d: "distinct (map (\<lambda>c. ids pr ! c) cs)" "c \<in> set cs"
      and ne: "ids pr ! c' \<noteq> ids pr ! c"
      by auto
    from Cons.IH [OF d, of ?st1] Cons.prems(3-5) ne show ?thesis
      by (simp add: seed_compartment_frame seed_compartment_other)
  qed
qed

text \<open>One process: the split of the entering count, then the loop over its compartments.\<close>

lemma seed_process_frame:
  "pco (fst (seed_process ext P fl a pr st)) = pco (fst st)
   \<and> length (pci (fst (seed_process ext P fl a pr st))) = length (pci (fst st))
   \<and> length (pc (fst (seed_process ext P fl a pr st))) = length (pc (fst st))"
  by (cases st) (simp add: seed_process_def Let_def fold_seed_frame split: prod.splits)

lemma seed_process_other:
  "ci \<notin> set (ids pr)
    \<Longrightarrow> pci (fst (seed_process ext P fl a pr st)) ! ci = pci (fst st) ! ci
      \<and> pc (fst (seed_process ext P fl a pr st)) ! ci = pc (fst st) ! ci"
proof -
  assume "ci \<notin> set (ids pr)"
  then have "ci \<notin> (\<lambda>c. ids pr ! c) ` set [0..<length (ids pr)]"
    by auto
  note other = fold_seed_other [OF this, of ext P a]
  obtain pp r where st: "st = (pp, r)" by (cases st)
  obtain nd ni r1 where m: "multinomial_helper ext P r (n_entering fl (pco pp) (source_id pr))
      (prob pr ! a) (nd_out pp) (ni_out pp) = (nd, ni, r1)"
    by (cases "multinomial_helper ext P r (n_entering fl (pco pp) (source_id pr))
      (prob pr ! a) (nd_out pp) (ni_out pp)")
  from other [of "(pp\<lparr>nd_out := nd, ni_out := ni\<rparr>, r1)"] show ?thesis
    by (simp add: seed_process_def st m)
qed

lemma seed_process_other_age:
  "a' \<noteq> a \<Longrightarrow> pc (fst (seed_process ext P fl a pr st)) ! ci ! a' = pc (fst st) ! ci ! a'"
  by (cases st) (simp add: seed_process_def Let_def fold_seed_other_age split: prod.splits)

lemma seed_process_this:
  assumes "distinct (ids pr)" and "c < length (ids pr)"
    and "ids pr ! c < length (pci (fst st))" and "ids pr ! c < length (pc (fst st))"
    and "a < length (pc (fst st) ! (ids pr ! c))"
  shows "pci (fst (seed_process ext P fl a pr st)) ! (ids pr ! c)
      = fst (multinomial_helper ext P (snd st) (n_entering fl (pco (fst st)) (source_id pr))
               (prob pr ! a) (nd_out (fst st)) (ni_out (fst st))) ! c
    \<and> (\<exists>rb. pc (fst (seed_process ext P fl a pr st)) ! (ids pr ! c) ! a
          = fst (Add ext P rb (pci (fst (seed_process ext P fl a pr st)) ! (ids pr ! c))
                   (delays pr ! c) (pc (fst st) ! (ids pr ! c) ! a)))"
proof -
  obtain pp r where st: "st = (pp, r)" by (cases st)
  obtain nd ni r1 where m: "multinomial_helper ext P r (n_entering fl (pco pp) (source_id pr))
      (prob pr ! a) (nd_out pp) (ni_out pp) = (nd, ni, r1)"
    by (cases "multinomial_helper ext P r (n_entering fl (pco pp) (source_id pr))
      (prob pr ! a) (nd_out pp) (ni_out pp)")
  let ?st1 = "(pp\<lparr>nd_out := nd, ni_out := ni\<rparr>, r1)"
  have d: "distinct (map (\<lambda>c. ids pr ! c) [0..<length (ids pr)])"
    using assms(1) by (simp add: map_nth)
  have s: "seed_process ext P fl a pr (pp, r)
      = fold (seed_compartment ext P pr a) [0..<length (ids pr)] ?st1"
    by (simp add: seed_process_def m)
  from fold_seed_this [OF d, of c ?st1 a ext P] assms(2-5) show ?thesis
    by (simp add: s st m)
qed

text \<open>The loop over the processes.\<close>

lemma fold_seed_process_frame:
  "pco (fst (fold (seed_process ext P fl a) prs st)) = pco (fst st)
   \<and> length (pci (fst (fold (seed_process ext P fl a) prs st))) = length (pci (fst st))
   \<and> length (pc (fst (fold (seed_process ext P fl a) prs st))) = length (pc (fst st))"
  by (induction prs arbitrary: st) (simp_all add: seed_process_frame)

lemma fold_seed_process_other:
  "ci \<notin> set (concat (map ids prs))
    \<Longrightarrow> pci (fst (fold (seed_process ext P fl a) prs st)) ! ci = pci (fst st) ! ci
      \<and> pc (fst (fold (seed_process ext P fl a) prs st)) ! ci = pc (fst st) ! ci"
  by (induction prs arbitrary: st) (simp_all add: seed_process_other)

lemma fold_seed_process_other_age:
  "a' \<noteq> a \<Longrightarrow> pc (fst (fold (seed_process ext P fl a) prs st)) ! ci ! a' = pc (fst st) ! ci ! a'"
  by (induction prs arbitrary: st) (simp_all add: seed_process_other_age)

lemma fold_seed_process_this:
  assumes "distinct (concat (map ids prs))" and "pr \<in> set prs" and "c < length (ids pr)"
    and "ids pr ! c < length (pci (fst st))" and "ids pr ! c < length (pc (fst st))"
    and "a < length (pc (fst st) ! (ids pr ! c))"
  shows "\<exists>ra nd ni rb.
      pci (fst (fold (seed_process ext P fl a) prs st)) ! (ids pr ! c)
        = fst (multinomial_helper ext P ra (n_entering fl (pco (fst st)) (source_id pr))
                 (prob pr ! a) nd ni) ! c
      \<and> pc (fst (fold (seed_process ext P fl a) prs st)) ! (ids pr ! c) ! a
        = fst (Add ext P rb (pci (fst (fold (seed_process ext P fl a) prs st)) ! (ids pr ! c))
                 (delays pr ! c) (pc (fst st) ! (ids pr ! c) ! a))"
proof -
  from assms(2) obtain before after where prs: "prs = before @ pr # after"
    by (meson split_list)
  let ?ci = "ids pr ! c"
  from assms(1,3) have d: "distinct (ids pr)" "?ci \<notin> set (concat (map ids before))"
    "?ci \<notin> set (concat (map ids after))"
    unfolding prs by (auto dest: nth_mem)
  let ?st1 = "fold (seed_process ext P fl a) before st"
  let ?st2 = "seed_process ext P fl a pr ?st1"
  have 1: "pci (fst ?st1) ! ?ci = pci (fst st) ! ?ci" "pc (fst ?st1) ! ?ci = pc (fst st) ! ?ci"
    "pco (fst ?st1) = pco (fst st)" "length (pci (fst ?st1)) = length (pci (fst st))"
    "length (pc (fst ?st1)) = length (pc (fst st))"
    using fold_seed_process_other [OF d(2), of ext P fl a st]
      fold_seed_process_frame [of ext P fl a before st]
    by simp_all
  from seed_process_this [OF d(1) assms(3), of ?st1 a ext P fl] assms(4-6) 1
  obtain rb where 2: "pci (fst ?st2) ! ?ci
      = fst (multinomial_helper ext P (snd ?st1) (n_entering fl (pco (fst st)) (source_id pr))
               (prob pr ! a) (nd_out (fst ?st1)) (ni_out (fst ?st1))) ! c"
    "pc (fst ?st2) ! ?ci ! a
      = fst (Add ext P rb (pci (fst ?st2) ! ?ci) (delays pr ! c) (pc (fst st) ! ?ci ! a))"
    by auto
  have 3: "pci (fst (fold (seed_process ext P fl a) prs st)) ! ?ci = pci (fst ?st2) ! ?ci"
    "pc (fst (fold (seed_process ext P fl a) prs st)) ! ?ci = pc (fst ?st2) ! ?ci"
    using fold_seed_process_other [OF d(3), of ext P fl a ?st2]
    by (simp_all add: prs)
  from 2 show ?thesis
    unfolding 3 by blast
qed

text \<open>The sizes of the process vectors; no loop of the tick changes them.\<close>

definition process_sizes :: "'c Population \<Rightarrow> nat \<times> nat \<times> nat list" where
  "process_sizes pp = (length (pci pp), length (pco pp), map length (pc pp))"

lemma map_length_update: "map length (xs[k := (xs ! k)[a := v]]) = map length xs"
  by (cases "k < length xs") (simp_all add: map_update list_update_same_conv list_update_beyond)

lemma mature_compartment_sizes: "process_sizes (mature_compartment ext a k pp) = process_sizes pp"
  by (simp add: mature_compartment_def process_sizes_def map_length_update split: prod.splits)

lemma mature_processes_sizes: "process_sizes (mature_processes ext P a pp) = process_sizes pp"
  unfolding mature_processes_fold by (intro fold_frame mature_compartment_sizes)

lemma seed_compartment_sizes:
  "process_sizes (fst (seed_compartment ext P pr a c st)) = process_sizes (fst st)"
  by (cases st)
     (simp add: seed_compartment_def process_sizes_def map_length_update Let_def split: prod.splits)

lemma seed_process_sizes: "process_sizes (fst (seed_process ext P fl a pr st)) = process_sizes (fst st)"
proof -
  have "process_sizes (fst (fold (seed_compartment ext P pr a) cs st1)) = process_sizes (fst st1)"
    for cs st1
    by (rule fold_frame [where g = "\<lambda>s. process_sizes (fst s)"]) (rule seed_compartment_sizes)
  then show ?thesis
    by (cases st) (simp add: seed_process_def Let_def process_sizes_def split: prod.splits)
qed

lemma seed_processes_sizes:
  "process_sizes (fst (seed_processes ext P fl a st)) = process_sizes (fst st)"
  unfolding seed_processes_def
  by (rule fold_frame [where g = "\<lambda>s. process_sizes (fst s)"]) (rule seed_process_sizes)

lemma process_sizes_nth:
  assumes "process_sizes pp1 = process_sizes pp"
  shows "length (pci pp1) = length (pci pp)" "length (pco pp1) = length (pco pp)"
    "length (pc pp1) = length (pc pp)" "ci < length (pc pp) \<Longrightarrow> length (pc pp1 ! ci) = length (pc pp ! ci)"
proof -
  from assms have m: "map length (pc pp1) = map length (pc pp)"
    and "length (pci pp1) = length (pci pp)" "length (pco pp1) = length (pco pp)"
    by (simp_all add: process_sizes_def)
  then show "length (pci pp1) = length (pci pp)" "length (pco pp1) = length (pco pp)"
    by simp_all
  from m show l: "length (pc pp1) = length (pc pp)"
    by (rule map_eq_imp_length_eq)
  assume "ci < length (pc pp)"
  with m l show "length (pc pp1 ! ci) = length (pc pp ! ci)"
    by (metis nth_map)
qed

text \<open>The process steps of one age group.\<close>

lemma Tick_age_state_sizes:
  assumes "Tick_age_state ext P a (pp, r) = (fl, pp3, r2)"
  shows "process_sizes pp3 = process_sizes pp"
proof -
  obtain fl1 pp1 r1 where b: "builtin_states ext P a (pp, r) = (fl1, pp1, r1)"
    by (cases "builtin_states ext P a (pp, r)")
  from assms b have "pp3 = fst (seed_processes ext P fl1 a (mature_processes ext P a pp1, r1))"
    by (auto simp: Tick_age_state_def split: prod.splits)
  then have "process_sizes pp3 = process_sizes pp1"
    by (simp add: seed_processes_sizes mature_processes_sizes)
  with builtin_states_frame [OF b] show ?thesis
    by (simp add: process_sizes_def)
qed

lemma Tick_age_state_other_age:
  assumes "Tick_age_state ext P a' (pp, r) = (fl, pp3, r2)" and "a' \<noteq> a"
  shows "pc pp3 ! ci ! a = pc pp ! ci ! a"
proof -
  obtain fl1 pp1 r1 where b: "builtin_states ext P a' (pp, r) = (fl1, pp1, r1)"
    by (cases "builtin_states ext P a' (pp, r)")
  from assms b have "pp3 = fst (seed_processes ext P fl1 a' (mature_processes ext P a' pp1, r1))"
    by (auto simp: Tick_age_state_def split: prod.splits)
  with builtin_states_frame [OF b] assms(2) show ?thesis
    by (simp add: seed_processes_def fold_seed_process_other_age mature_processes_fold
        fold_mature_other_age)
qed

lemma Tick_age_state_process:
  assumes "Tick_age_state ext P a (pp, r) = (fl, pp3, r2)"
    and "distinct (process_compartments P)"
    and "\<forall>ci\<in>set (process_compartments P).
           ci < length (pc pp) \<and> a < length (pc pp ! ci) \<and> ci < length (pci pp) \<and> ci < length (pco pp)"
  shows "\<forall>ci\<in>set (process_compartments P). pco pp3 ! ci = fst (Mature ext (pc pp ! ci ! a))"
    and "pr \<in> set (processes P) \<Longrightarrow> c < length (ids pr) \<Longrightarrow>
      \<exists>ra nd ni rb.
        pci pp3 ! (ids pr ! c)
          = fst (multinomial_helper ext P ra (n_entering fl (pco pp3) (source_id pr))
                   (prob pr ! a) nd ni) ! c
        \<and> pc pp3 ! (ids pr ! c) ! a
          = fst (Add ext P rb (pci pp3 ! (ids pr ! c)) (delays pr ! c)
                   (snd (Mature ext (pc pp ! (ids pr ! c) ! a))))"
proof -
  obtain fl1 pp1 r1 where b: "builtin_states ext P a (pp, r) = (fl1, pp1, r1)"
    by (cases "builtin_states ext P a (pp, r)")
  let ?pp2 = "mature_processes ext P a pp1"
  from assms(1) b have fl: "fl = fl1"
    and pp3: "pp3 = fst (fold (seed_process ext P fl a) (processes P) (?pp2, r1))"
    by (auto simp: Tick_age_state_def seed_processes_def split: prod.splits)
  from builtin_states_frame [OF b] have same: "pc pp1 = pc pp" "pci pp1 = pci pp" "pco pp1 = pco pp"
    by simp_all
  have pco3: "pco pp3 = pco ?pp2"
    using fold_seed_process_frame [of ext P fl a "processes P" "(?pp2, r1)"] by (simp add: pp3)
  have matured: "pco ?pp2 ! ci = fst (Mature ext (pc pp ! ci ! a))"
    "pc ?pp2 ! ci ! a = snd (Mature ext (pc pp ! ci ! a))"
    if "ci \<in> set (process_compartments P)" for ci
    using fold_mature_this [OF assms(2) that, where pp = pp1 and ext = ext and a = a] assms(3) that
    by (simp_all add: mature_processes_fold same)
  from matured(1) show "\<forall>ci\<in>set (process_compartments P). pco pp3 ! ci = fst (Mature ext (pc pp ! ci ! a))"
    by (simp add: pco3)
  assume pr: "pr \<in> set (processes P)" "c < length (ids pr)"
  then have ci: "ids pr ! c \<in> set (process_compartments P)"
    unfolding process_compartments_def by (auto intro!: bexI [of _ pr])
  have "process_sizes pp1 = process_sizes pp"
    by (simp add: process_sizes_def same)
  then have sizes: "process_sizes ?pp2 = process_sizes pp"
    by (simp add: mature_processes_sizes)
  from ci assms(3) process_sizes_nth [OF sizes]
  have range: "ids pr ! c < length (pci (fst (?pp2, r1)))" "ids pr ! c < length (pc (fst (?pp2, r1)))"
    "a < length (pc (fst (?pp2, r1)) ! (ids pr ! c))"
    by simp_all
  from fold_seed_process_this [OF assms(2) [unfolded process_compartments_def] pr range, of ext P fl]
  show "\<exists>ra nd ni rb.
        pci pp3 ! (ids pr ! c)
          = fst (multinomial_helper ext P ra (n_entering fl (pco pp3) (source_id pr))
                   (prob pr ! a) nd ni) ! c
        \<and> pc pp3 ! (ids pr ! c) ! a
          = fst (Add ext P rb (pci pp3 ! (ids pr ! c)) (delays pr ! c)
                   (snd (Mature ext (pc pp ! (ids pr ! c) ! a))))"
    by (simp add: pp3 [symmetric] pco3 matured(2) [OF ci])
qed

text \<open>The loop over the age groups.\<close>

lemma fold_Tick_age_sizes:
  "process_sizes (fst (fold (Tick_age ext P t) as st)) = process_sizes (fst st)"
proof (rule fold_frame [where g = "\<lambda>s. process_sizes (fst s)"])
  fix a and s :: "'a Population \<times> 'b \<times> Reporter"
  obtain pp r rep where s: "s = (pp, r, rep)" by (cases s)
  obtain fl pp3 r2 where ts: "Tick_age_state ext P a (pp, r) = (fl, pp3, r2)"
    by (cases "Tick_age_state ext P a (pp, r)")
  from Tick_age_state_sizes [OF ts] show "process_sizes (fst (Tick_age ext P t a s)) = process_sizes (fst s)"
    by (simp add: s Tick_age_reporter ts)
qed

lemma fold_Tick_age_other_age:
  "a \<notin> set as \<Longrightarrow> pc (fst (fold (Tick_age ext P t) as st)) ! ci ! a = pc (fst st) ! ci ! a"
proof (induction as arbitrary: st)
  case Nil
  show ?case by simp
next
  case (Cons a' as)
  obtain pp r rep where s: "st = (pp, r, rep)" by (cases st)
  obtain fl pp3 r2 where ts: "Tick_age_state ext P a' (pp, r) = (fl, pp3, r2)"
    by (cases "Tick_age_state ext P a' (pp, r)")
  from Cons.prems have "a' \<noteq> a" "a \<notin> set as" by auto
  with Tick_age_state_other_age [OF ts, of a ci] Cons.IH [of "Tick_age ext P t a' st"]
  show ?case
    by (simp add: s Tick_age_reporter ts)
qed

subsection \<open>The cells that step 3 adds to\<close>

text \<open>The sizes of the columns of the reporter; no write changes them.\<close>

definition dims :: "Reporter \<Rightarrow> nat list" where
  "dims rep = map length (data rep)"

lemma dims_nth:
  assumes "dims rep1 = dims rep"
  shows "length (data rep1) = length (data rep)"
    "c < length (data rep) \<Longrightarrow> length (data rep1 ! c) = length (data rep ! c)"
proof -
  from assms have m: "map length (data rep1) = map length (data rep)"
    by (simp add: dims_def)
  then show l: "length (data rep1) = length (data rep)"
    by (rule map_eq_imp_length_eq)
  assume "c < length (data rep)"
  with m l show "length (data rep1 ! c) = length (data rep ! c)"
    by (metis nth_map)
qed

lemma rep_set_dims: "dims (rep_set rep t j a c v) = dims rep"
  by (simp add: rep_set_def dims_def map_length_update)

lemma rep_add_dims: "dims (rep_add rep t j a c v) = dims rep"
  by (simp add: rep_add_def rep_set_dims)

lemma process_prevalences_dims: "dims (process_prevalences ext t a pp pr rep) = dims rep"
  unfolding process_prevalences_def by (intro fold_frame rep_set_dims)

lemma report_prevalences_dims: "dims (report_prevalences ext P t a pp rep) = dims rep"
proof -
  have "dims (fold (process_prevalences ext t a pp) (processes P) s) = dims s" for s
    by (intro fold_frame process_prevalences_dims)
  moreover have "dims (fold (\<lambda>cv s. rep_set s t (p pp) a (fst cv) (snd cv)) ws s) = dims s" for ws s
    by (intro fold_frame rep_set_dims)
  ultimately show ?thesis
    by (simp add: report_prevalences_folds)
qed

text \<open>The additions of step 3 of one age group, in their order.\<close>

definition incidence_writes :: "Parameters \<Rightarrow> Flows \<Rightarrow> 'c Population \<Rightarrow> (nat \<times> real) list" where
  "incidence_writes P fl pp =
     [(6, nIp_Is fl), (7, n_reported fl), (8, nE_Ia fl)]
     @ concat (map (\<lambda>pr. map (\<lambda>i. (i_cols pr ! i, pci pp ! (i_ids pr ! i))) [0..<length (i_cols pr)]
                        @ map (\<lambda>i. (o_cols pr ! i, pco pp ! (o_ids pr ! i))) [0..<length (o_cols pr)])
                 (processes P))"

definition incidence_columns :: "Parameters \<Rightarrow> nat list" where
  "incidence_columns P = [6, 7, 8] @ concat (map (\<lambda>pr. i_cols pr @ o_cols pr) (processes P))"

lemma incidence_columns_writes: "map fst (incidence_writes P fl pp) = incidence_columns P"
  by (simp add: incidence_writes_def incidence_columns_def map_concat comp_def map_nth)

lemma report_incidence_folds:
  "report_incidence P t a fl pp rep
    = fold (\<lambda>cv s. rep_add s t (p pp) a (fst cv) (snd cv)) (incidence_writes P fl pp) rep"
proof -
  let ?f = "\<lambda>cv s. rep_add s t (p pp) a (fst cv) (snd cv)"
  let ?w = "\<lambda>pr. map (\<lambda>i. (i_cols pr ! i, pci pp ! (i_ids pr ! i))) [0..<length (i_cols pr)]
                        @ map (\<lambda>i. (o_cols pr ! i, pco pp ! (o_ids pr ! i))) [0..<length (o_cols pr)]"
  let ?s8 = "rep_add (rep_add (rep_add rep t (p pp) a 6 (nIp_Is fl)) t (p pp) a 7 (n_reported fl))
      t (p pp) a 8 (nE_Ia fl)"
  have step: "(\<lambda>process rp. process_outcidences t a pp process (process_incidences t a pp process rp))
      = (\<lambda>pr. fold ?f (?w pr))"
    by (intro ext) (simp add: process_outcidences_def process_incidences_def fold_map comp_def)
  have "report_incidence P t a fl pp rep
      = fold (\<lambda>process rp. process_outcidences t a pp process (process_incidences t a pp process rp))
          (processes P) ?s8"
    by (simp add: report_incidence_def Let_def)
  also have "\<dots> = fold (\<lambda>pr. fold ?f (?w pr)) (processes P) ?s8"
    by (simp only: step)
  also have "\<dots> = fold ?f (concat (map ?w (processes P))) ?s8"
    by (rule fold_concat_map)
  also have "\<dots> = fold ?f (incidence_writes P fl pp) rep"
    by (simp add: incidence_writes_def)
  finally show ?thesis .
qed

lemma report_incidence_dims: "dims (report_incidence P t a fl pp rep) = dims rep"
  unfolding report_incidence_folds by (intro fold_frame rep_add_dims)

lemma rep_add_cell:
  assumes "col < length (data s)" and "row < length (data s ! col)"
  shows "data (rep_add s t j a c v) ! col ! row
    = data s ! col ! row + (if c = col \<and> rep_row s t j a = row then v else 0)"
  using assms
  by (cases "c = col"; cases "rep_row s t j a = row")
     (simp_all add: rep_add_def rep_set_def rep_get_def)

lemma fold_rep_add_cell:
  assumes "col < length (data s)" and "rep_row s t j a < length (data s ! col)"
  shows "data (fold (\<lambda>cv s. rep_add s t j a (fst cv) (snd cv)) ws s) ! col ! rep_row s t j a
    = data s ! col ! rep_row s t j a + sum_list (map snd (filter (\<lambda>cv. fst cv = col) ws))"
  using assms
proof (induction ws arbitrary: s)
  case Nil
  show ?case by simp
next
  case (Cons w ws)
  let ?s1 = "rep_add s t j a (fst w) (snd w)"
  have row: "rep_row ?s1 = rep_row s"
    by (rule rep_row_rep_add)
  have d: "dims ?s1 = dims s"
    by (rule rep_add_dims)
  from dims_nth [OF d] Cons.prems
  have "col < length (data ?s1)" "rep_row ?s1 t j a < length (data ?s1 ! col)"
    by (simp_all add: row)
  from Cons.IH [OF this] rep_add_cell [OF Cons.prems, of t j a "fst w" "snd w"]
  show ?case
    by (simp add: row)
qed

lemma sum_list_single:
  assumes "distinct (map fst ws)" and "(c, v) \<in> set ws"
  shows "sum_list (map snd (filter (\<lambda>cv. fst cv = c) ws)) = (v :: real)"
  using assms
proof (induction ws)
  case Nil
  then show ?case by simp
next
  case (Cons w ws)
  show ?case
  proof (cases "w = (c, v)")
    case True
    with Cons.prems(1) have "filter (\<lambda>cv. fst cv = c) ws = []"
      by (auto simp: filter_empty_conv image_iff)
    with True show ?thesis by simp
  next
    case False
    with Cons.prems have "(c, v) \<in> set ws" "distinct (map fst ws)" "fst w \<noteq> c"
      by (auto simp: image_iff)
    with Cons.IH show ?thesis by simp
  qed
qed

lemma report_incidence_cell:
  assumes "distinct (incidence_columns P)" and "(col, v) \<in> set (incidence_writes P fl pp)"
    and "col < length (data s)" and "rep_row s t (p pp) a < length (data s ! col)"
  shows "data (report_incidence P t a fl pp s) ! col ! rep_row s t (p pp) a
    = data s ! col ! rep_row s t (p pp) a + v"
  using fold_rep_add_cell [OF assms(3,4), of "incidence_writes P fl pp"]
    sum_list_single [OF _ assms(2)] assms(1)
  by (simp add: report_incidence_folds incidence_columns_writes)

lemma incidence_writes_member:
  assumes "pr \<in> set (processes P)"
  shows "i < length (i_cols pr) \<Longrightarrow> (i_cols pr ! i, pci pp ! (i_ids pr ! i)) \<in> set (incidence_writes P fl pp)"
    and "i < length (o_cols pr) \<Longrightarrow> (o_cols pr ! i, pco pp ! (o_ids pr ! i)) \<in> set (incidence_writes P fl pp)"
  using assms unfolding incidence_writes_def by (auto intro!: bexI [of _ pr])

lemma Tick_age_dims: "dims (snd (snd (Tick_age ext P t a st))) = dims (snd (snd st))"
proof -
  obtain pp r rep where s: "st = (pp, r, rep)" by (cases st)
  obtain fl pp3 r2 where ts: "Tick_age_state ext P a (pp, r) = (fl, pp3, r2)"
    by (cases "Tick_age_state ext P a (pp, r)")
  show ?thesis
    by (simp add: s Tick_age_reporter ts report_incidence_dims report_prevalences_dims)
qed

lemma fold_Tick_age_dims: "dims (snd (snd (fold (Tick_age ext P t) as st))) = dims (snd (snd st))"
  by (rule fold_frame [where g = "\<lambda>s. dims (snd (snd s))"]) (rule Tick_age_dims)

text \<open>
  The state of the loop over the age groups when the iteration of age \<open>a\<close> starts, and
  the population when it ends.
\<close>

definition age_start ::
  "('c, 'r) externals \<Rightarrow> Parameters \<Rightarrow> 'r \<Rightarrow> real \<Rightarrow> real list \<Rightarrow> Reporter \<Rightarrow> 'c Population \<Rightarrow> nat
    \<Rightarrow> 'c Population \<times> 'r \<times> Reporter"
where
  "age_start ext P r t force rep pp a =
     fold (Tick_age ext P t) [0..<a] (pp\<lparr>lambda := force_of_infection (pop P ! p pp) force\<rparr>, r, rep)"

definition age_end ::
  "('c, 'r) externals \<Rightarrow> Parameters \<Rightarrow> 'r \<Rightarrow> real \<Rightarrow> real list \<Rightarrow> Reporter \<Rightarrow> 'c Population \<Rightarrow> nat
    \<Rightarrow> 'c Population"
where
  "age_end ext P r t force rep pp a = fst (age_start ext P r t force rep pp (Suc a))"

lemma age_start_Suc:
  "age_start ext P r t fc rep pp (Suc a) = Tick_age ext P t a (age_start ext P r t fc rep pp a)"
  by (simp add: age_start_def)

lemma Population_Tick_ages:
  assumes "Population_Tick ext P r t fc rep pp = (b, pp1, r1, rep1)" and "a < length fc"
  shows "(pp1, r1, rep1)
    = fold (Tick_age ext P t) [Suc a..<length fc] (age_start ext P r t fc rep pp (Suc a))"
proof -
  let ?st = "(pp\<lparr>lambda := force_of_infection (pop P ! p pp) fc\<rparr>, r, rep)"
  have n: "length (force_of_infection (pop P ! p pp) fc) = length fc"
    by (rule length_force_of_infection)
  from assms(1) have "(pp1, r1, rep1) = fold (Tick_age ext P t) [0..<length fc] ?st"
    by (auto simp: Population_Tick_def Let_def n split: prod.splits)
  moreover from assms(2) have "[0..<length fc] = [0..<Suc a] @ [Suc a..<length fc]"
    by (metis Suc_leI le0 upt_add_eq_append le_add_diff_inverse)
  ultimately show ?thesis
    by (simp add: age_start_def)
qed

text \<open>What the iteration of age \<open>a\<close> finds is what the tick started with.\<close>

lemma age_start_facts:
  assumes "age_start ext P r t fc rep pp a = (ppa, ra, repa)"
  shows "process_sizes ppa = process_sizes pp" and "pc ppa ! ci ! a = pc pp ! ci ! a"
    and "p ppa = p pp" and "rep_row repa = rep_row rep" and "dims repa = dims rep"
    and "data repa ! col ! rep_row rep t (p pp) a = data rep ! col ! rep_row rep t (p pp) a"
proof -
  let ?st = "(pp\<lparr>lambda := force_of_infection (pop P ! p pp) fc\<rparr>, r, rep)"
  from assms have f: "fold (Tick_age ext P t) [0..<a] ?st = (ppa, ra, repa)"
    by (simp add: age_start_def)
  from fold_Tick_age_sizes [of ext P t "[0..<a]" ?st] show "process_sizes ppa = process_sizes pp"
    by (simp add: f process_sizes_def)
  from fold_Tick_age_other_age [of a "[0..<a]" ext P t ?st ci] show "pc ppa ! ci ! a = pc pp ! ci ! a"
    by (simp add: f)
  from fold_Tick_age_frame [of ext P t "[0..<a]" ?st] show "p ppa = p pp"
    by (simp add: f)
  from fold_Tick_age_dims [of ext P t "[0..<a]" ?st] show "dims repa = dims rep"
    by (simp add: f)
  from fold_Tick_age_writes [of ?st ext P t "[0..<a]"]
  have w: "writes_within rep repa (tick_channels P t \<times> (\<lambda>a. rep_row rep t (p pp) a) ` {0..<a})"
    by (simp add: f)
  then show "rep_row repa = rep_row rep"
    by (intro rep_row_shape) (simp add: writes_within_def)
  have "(col, rep_row rep t (p pp) a) \<notin> tick_channels P t \<times> (\<lambda>a. rep_row rep t (p pp) a) ` {0..<a}"
    by (auto simp: rep_row_age)
  with w show "data repa ! col ! rep_row rep t (p pp) a = data rep ! col ! rep_row rep t (p pp) a"
    unfolding writes_within_def by blast
qed

lemma after_age_facts:
  assumes "Population_Tick ext P r t fc rep pp = (b, pp1, r1, rep1)" and "a < length fc"
    and "age_start ext P r t fc rep pp (Suc a) = (ppb, rb, repb)"
    and "p ppb = p pp" and "rep_row repb = rep_row rep"
  shows "pc pp1 ! ci ! a = pc ppb ! ci ! a"
    and "data rep1 ! col ! rep_row rep t (p pp) a = data repb ! col ! rep_row rep t (p pp) a"
proof -
  from Population_Tick_ages [OF assms(1,2)] assms(3)
  have f: "fold (Tick_age ext P t) [Suc a..<length fc] (ppb, rb, repb) = (pp1, r1, rep1)"
    by simp
  from fold_Tick_age_other_age [of a "[Suc a..<length fc]" ext P t "(ppb, rb, repb)" ci]
  show "pc pp1 ! ci ! a = pc ppb ! ci ! a"
    by (simp add: f)
  from fold_Tick_age_writes [of "(ppb, rb, repb)" ext P t "[Suc a..<length fc]"]
  have w: "writes_within repb rep1
      (tick_channels P t \<times> (\<lambda>a. rep_row rep t (p pp) a) ` {Suc a..<length fc})"
    by (simp add: f assms(4,5))
  have "(col, rep_row rep t (p pp) a)
      \<notin> tick_channels P t \<times> (\<lambda>a. rep_row rep t (p pp) a) ` {Suc a..<length fc}"
    by (auto simp: rep_row_age)
  with w show "data rep1 ! col ! rep_row rep t (p pp) a = data repb ! col ! rep_row rep t (p pp) a"
    unfolding writes_within_def by blast
qed

lemma rep_row_report_prevalences: "rep_row (report_prevalences ext P t a pp rep) = rep_row rep"
  using report_prevalences_writes [of rep ext P t a pp]
  by (intro rep_row_shape) (simp add: writes_within_def)

text \<open>The flows of the built-in states in the iteration of age \<open>a\<close>.\<close>

definition age_flows ::
  "('c, 'r) externals \<Rightarrow> Parameters \<Rightarrow> 'r \<Rightarrow> real \<Rightarrow> real list \<Rightarrow> Reporter \<Rightarrow> 'c Population \<Rightarrow> nat
    \<Rightarrow> Flows"
where
  "age_flows ext P r t force rep pp a =
     (case age_start ext P r t force rep pp a of
        (ppa, ra, repa) \<Rightarrow> fst (Tick_age_state ext P a (ppa, ra)))"

lemma age_step:
  assumes "age_start ext P r t fc rep pp a = (ppa, ra, repa)"
    and "Tick_age_state ext P a (ppa, ra) = (fl, ppb, rb)"
  shows "age_flows ext P r t fc rep pp a = fl" and "age_end ext P r t fc rep pp a = ppb"
    and "age_start ext P r t fc rep pp (Suc a)
      = (ppb, rb, report_incidence P t a fl ppb (report_prevalences ext P t a ppa repa))"
  using assms by (simp_all add: age_flows_def age_end_def age_start_Suc Tick_age_reporter)

lemma report_prevalences_cell_at:
  assumes "t \<noteq> real_of_int (to_int t) \<or> col \<notin> prevalence_channels P"
  shows "data (report_prevalences ext P t a pp rep) ! col ! row = data rep ! col ! row"
proof -
  from assms have "(col, row)
      \<notin> (if t = real_of_int (to_int t) then prevalence_channels P else {}) \<times> {rep_row rep t (p pp) a}"
    by auto
  with report_prevalences_writes [of rep ext P t a pp] show ?thesis
    unfolding writes_within_def by blast
qed

text \<open>
  The cell of a channel in the row of age \<open>a\<close> after the tick: what it held, and every
  count that step 3 of that age adds to the channel.
\<close>

lemma Population_Tick_cell:
  assumes tick: "Population_Tick ext P r t fc rep pp = (b, pp1, r1, rep1)"
    and a: "a < length fc"
    and prev: "t \<noteq> real_of_int (to_int t) \<or> col \<notin> prevalence_channels P"
    and range: "col < length (data rep)" "rep_row rep t (p pp) a < length (data rep ! col)"
  shows "data rep1 ! col ! rep_row rep t (p pp) a
    = data rep ! col ! rep_row rep t (p pp) a
      + sum_list (map snd (filter (\<lambda>cv. fst cv = col)
          (incidence_writes P (age_flows ext P r t fc rep pp a) (age_end ext P r t fc rep pp a))))"
proof -
  obtain ppa ra repa where sa: "age_start ext P r t fc rep pp a = (ppa, ra, repa)"
    by (cases "age_start ext P r t fc rep pp a")
  obtain fl ppb rb where ts: "Tick_age_state ext P a (ppa, ra) = (fl, ppb, rb)"
    by (cases "Tick_age_state ext P a (ppa, ra)")
  let ?rp = "report_prevalences ext P t a ppa repa"
  let ?repb = "report_incidence P t a fl ppb ?rp"
  let ?row = "rep_row rep t (p pp) a"
  note step = age_step [OF sa ts]
  note start = age_start_facts [OF sa]
  from Tick_age_frame [of ext P t a "(ppa, ra, repa)"] have pb: "p ppb = p pp"
    by (simp add: Tick_age_reporter ts start(3))
  have rows: "rep_row ?rp = rep_row rep" "rep_row ?repb = rep_row rep"
    by (simp_all add: rep_row_report_incidence rep_row_report_prevalences start(4))
  note after = after_age_facts [OF tick a step(3) pb rows(2)]
  have d: "dims ?rp = dims rep"
    by (simp add: report_prevalences_dims start(5))
  from dims_nth [OF d] range
  have "col < length (data ?rp)" "rep_row ?rp t (p ppb) a < length (data ?rp ! col)"
    by (simp_all add: rows pb)
  from fold_rep_add_cell [OF this, of "incidence_writes P fl ppb"]
  have "data ?repb ! col ! ?row = data ?rp ! col ! ?row
      + sum_list (map snd (filter (\<lambda>cv. fst cv = col) (incidence_writes P fl ppb)))"
    by (simp add: report_incidence_folds rows pb)
  also have "data ?rp ! col ! ?row = data repa ! col ! ?row"
    by (rule report_prevalences_cell_at [OF prev])
  also have "\<dots> = data rep ! col ! ?row"
    by (rule start(6))
  finally show ?thesis
    by (simp add: after(2) step)
qed

text \<open>The counts of the processes that the iteration of age \<open>a\<close> leaves.\<close>

lemma age_end_counts:
  assumes a: "a < length fc"
    and ids: "distinct (process_compartments P)"
    and range: "\<forall>ci\<in>set (process_compartments P).
        ci < length (pc pp) \<and> a < length (pc pp ! ci) \<and> ci < length (pci pp) \<and> ci < length (pco pp)"
  shows "\<forall>ci\<in>set (process_compartments P).
      pco (age_end ext P r t fc rep pp a) ! ci = fst (Mature ext (pc pp ! ci ! a))"
    and "Population_Tick ext P r t fc rep pp = (b, pp1, r1, rep1) \<Longrightarrow> pr \<in> set (processes P)
      \<Longrightarrow> c < length (ids pr) \<Longrightarrow>
      \<exists>ra nd ni rb.
        pci (age_end ext P r t fc rep pp a) ! (ids pr ! c)
          = fst (multinomial_helper ext P ra
                   (n_entering (age_flows ext P r t fc rep pp a) (pco (age_end ext P r t fc rep pp a))
                      (source_id pr))
                   (prob pr ! a) nd ni) ! c
        \<and> pc pp1 ! (ids pr ! c) ! a
          = fst (Add ext P rb (pci (age_end ext P r t fc rep pp a) ! (ids pr ! c)) (delays pr ! c)
                   (snd (Mature ext (pc pp ! (ids pr ! c) ! a))))"
proof -
  obtain ppa ra repa where sa: "age_start ext P r t fc rep pp a = (ppa, ra, repa)"
    by (cases "age_start ext P r t fc rep pp a")
  obtain fl ppb rb where ts: "Tick_age_state ext P a (ppa, ra) = (fl, ppb, rb)"
    by (cases "Tick_age_state ext P a (ppa, ra)")
  note step = age_step [OF sa ts]
  note start = age_start_facts [OF sa]
  have range_a: "\<forall>ci\<in>set (process_compartments P).
      ci < length (pc ppa) \<and> a < length (pc ppa ! ci) \<and> ci < length (pci ppa) \<and> ci < length (pco ppa)"
    using range process_sizes_nth [OF start(1)] by simp
  note counts = Tick_age_state_process [OF ts ids range_a]
  from counts(1) show "\<forall>ci\<in>set (process_compartments P).
      pco (age_end ext P r t fc rep pp a) ! ci = fst (Mature ext (pc pp ! ci ! a))"
    by (simp add: start(2) step)
  assume tick: "Population_Tick ext P r t fc rep pp = (b, pp1, r1, rep1)"
    and pr: "pr \<in> set (processes P)" "c < length (ids pr)"
  let ?rp = "report_prevalences ext P t a ppa repa"
  let ?repb = "report_incidence P t a fl ppb ?rp"
  from Tick_age_frame [of ext P t a "(ppa, ra, repa)"] have pb: "p ppb = p pp"
    by (simp add: Tick_age_reporter ts start(3))
  have rows: "rep_row ?repb = rep_row rep"
    by (simp add: rep_row_report_incidence rep_row_report_prevalences start(4))
  note after = after_age_facts [OF tick a step(3) pb rows]
  from counts(2) [OF pr] show "\<exists>ra nd ni rb.
        pci (age_end ext P r t fc rep pp a) ! (ids pr ! c)
          = fst (multinomial_helper ext P ra
                   (n_entering (age_flows ext P r t fc rep pp a) (pco (age_end ext P r t fc rep pp a))
                      (source_id pr))
                   (prob pr ! a) nd ni) ! c
        \<and> pc pp1 ! (ids pr ! c) ! a
          = fst (Add ext P rb (pci (age_end ext P r t fc rep pp a) ! (ids pr ! c)) (delays pr ! c)
                   (snd (Mature ext (pc pp ! (ids pr ! c) ! a))))"
    by (simp add: start(2) after(1) step)
qed

subsection \<open>The rows of a reporting interval\<close>

lemma rep_row_eq_iff:
  assumes "a < n_age_groups rep" "a' < n_age_groups rep" "j < n_populations rep" "j' < n_populations rep"
  shows "rep_row rep t j a = rep_row rep t' j' a'
    \<longleftrightarrow> to_uint (double_round (t - t0 rep)) = to_uint (double_round (t' - t0 rep)) \<and> j = j' \<and> a = a'"
proof -
  define na np where "na = n_age_groups rep" and "np = n_populations rep"
  define k k' where "k = to_uint (double_round (t - t0 rep))" and "k' = to_uint (double_round (t' - t0 rep))"
  have row: "rep_row rep t j a = (k * np + j) * na + a" "rep_row rep t' j' a' = (k' * np + j') * na + a'"
    by (simp_all add: rep_row_def na_def np_def k_def k'_def algebra_simps)
  have "(k * np + j) * na + a = (k' * np + j') * na + a' \<longleftrightarrow> k = k' \<and> j = j' \<and> a = a'"
  proof
    assume eq: "(k * np + j) * na + a = (k' * np + j') * na + a'"
    from assms have a: "a < na" "a' < na" and j: "j < np" "j' < np"
      by (simp_all add: na_def np_def)
    from eq have "((k * np + j) * na + a) div na = ((k' * np + j') * na + a') div na"
      and "((k * np + j) * na + a) mod na = ((k' * np + j') * na + a') mod na"
      by simp_all
    with a have 1: "k * np + j = k' * np + j'" and 2: "a = a'"
      by simp_all
    from 1 have "(k * np + j) div np = (k' * np + j') div np" "(k * np + j) mod np = (k' * np + j') mod np"
      by simp_all
    with j have "k = k'" "j = j'"
      by simp_all
    with 2 show "k = k' \<and> j = j' \<and> a = a'" by simp
  qed simp
  then show ?thesis
    by (simp add: row k_def k'_def)
qed

text \<open>
  Claim C9. Let a tick of a population at time \<open>t\<close> take the reporter \<open>rep\<close> to \<open>rep1\<close>;
  \<open>t\<close> is in the range of \<^verbatim>\<open>int\<close> where \<^verbatim>\<open>(int)t\<close> is read.
  \<^item> When \<open>t\<close> is not an integer (\<^verbatim>\<open>t == (int)t\<close> fails), every channel that is not an
    incidence or outcidence channel (channels 6 to 8 and the \<^verbatim>\<open>i_cols\<close> and \<^verbatim>\<open>o_cols\<close> of the
    processes), so every prevalence channel, is left as it was.
  \<^item> When \<open>t\<close> is an integer, a prevalence channel (channels 0 to 5 and the \<^verbatim>\<open>p_cols\<close> of the
    processes) is overwritten in the row of every age group: what the cell held before the
    tick has no effect on the result.
  \<^item> Every other channel is only ever added to: adding \<open>d\<close> to any of its cells before the
    tick is the same as adding \<open>d\<close> to that cell after the tick.
  \<^item> What is added arrives: after the tick the cell of such a channel in the row of age
    \<open>a\<close> holds what it held before, plus every count that step 3 of that age adds to the
    channel (\<open>incidence_writes\<close>: the flows \<^verbatim>\<open>nIp_Is\<close>, \<^verbatim>\<open>n_reported\<close> and \<^verbatim>\<open>nE_Ia\<close> of the age
    for channels 6 to 8, and \<^verbatim>\<open>pci\<close> and \<^verbatim>\<open>pco\<close> as the iteration of the age leaves them
    for the channels of the processes).
  \<^item> Only cells in the rows of \<open>(t, p, a)\<close> for the age groups \<open>a\<close> are touched; the row is
    the same for all times with the same \<^verbatim>\<open>(unsigned int)(t - t0)\<close>, so the ticks of one
    reporting interval add into the same row, and it differs from every row of a different
    interval, so no tick adds into the row of another interval.
\<close>

theorem C9_reporting_alignment:
  assumes "Population_Tick ext P r t fc rep pp = (b, pp1, r1, rep1)"
  shows "(\<forall>c. \<bar>t\<bar> < 2 ^ 31 \<and> t \<noteq> real_of_int (to_int t) \<and> c \<notin> incidence_channels P \<longrightarrow>
            data rep1 ! c = data rep ! c)
    \<and> (\<forall>c a d. \<bar>t\<bar> < 2 ^ 31 \<and> t = real_of_int (to_int t) \<and> c \<in> prevalence_channels P
          \<and> a < length fc \<longrightarrow>
          Population_Tick ext P r t fc (shift_row rep t (p pp) a c d) pp = (b, pp1, r1, rep1))
    \<and> (\<forall>c row d. c \<notin> prevalence_channels P \<longrightarrow>
          Population_Tick ext P r t fc (shift_cell rep c row d) pp
            = (b, pp1, r1, shift_cell rep1 c row d))
    \<and> (\<forall>c a. a < length fc \<and> (t \<noteq> real_of_int (to_int t) \<or> c \<notin> prevalence_channels P)
          \<and> c < length (data rep) \<and> rep_row rep t (p pp) a < length (data rep ! c) \<longrightarrow>
          data rep1 ! c ! rep_row rep t (p pp) a
            = data rep ! c ! rep_row rep t (p pp) a
              + sum_list (map snd (filter (\<lambda>cv. fst cv = c)
                  (incidence_writes P (age_flows ext P r t fc rep pp a)
                     (age_end ext P r t fc rep pp a)))))
    \<and> (\<forall>c row. row \<notin> (\<lambda>a. rep_row rep t (p pp) a) ` {..<length fc} \<longrightarrow>
          data rep1 ! c ! row = data rep ! c ! row)
    \<and> (\<forall>t' j a. to_uint (double_round (t' - t0 rep)) = to_uint (double_round (t - t0 rep)) \<longrightarrow>
          rep_row rep1 t' j a = rep_row rep t j a)
    \<and> (\<forall>t' j j' a a'. a < n_age_groups rep \<and> a' < n_age_groups rep
          \<and> j < n_populations rep \<and> j' < n_populations rep
          \<and> to_uint (double_round (t' - t0 rep)) \<noteq> to_uint (double_round (t - t0 rep)) \<longrightarrow>
          rep_row rep1 t' j' a' \<noteq> rep_row rep t j a)"
proof -
  let ?rows = "(\<lambda>a. rep_row rep t (p pp) a) ` {..<length fc}"
  from Population_Tick_writes [OF assms]
  have w: "writes_within rep rep1 (tick_channels P t \<times> ?rows)" .
  then have rows: "rep_row rep1 = rep_row rep"
    by (intro rep_row_shape) (simp add: writes_within_def)
  have 1: "data rep1 ! c = data rep ! c"
    if "t \<noteq> real_of_int (to_int t)" "c \<notin> incidence_channels P" for c
  proof -
    from that have "c \<notin> fst ` (tick_channels P t \<times> ?rows)"
      by (auto simp: tick_channels_def)
    with w show ?thesis
      unfolding writes_within_def by blast
  qed
  have 3: "data rep1 ! c ! row = data rep ! c ! row" if "row \<notin> ?rows" for c row
  proof -
    from that have "(c, row) \<notin> tick_channels P t \<times> ?rows"
      by blast
    with w show ?thesis
      unfolding writes_within_def by blast
  qed
  have 4: "rep_row rep1 t' j a = rep_row rep t j a"
    if "to_uint (double_round (t' - t0 rep)) = to_uint (double_round (t - t0 rep))" for t' j a
    using that by (simp add: rows rep_row_def)
  have 5: "rep_row rep1 t' j' a' \<noteq> rep_row rep t j a"
    if "a < n_age_groups rep" "a' < n_age_groups rep" "j < n_populations rep"
      "j' < n_populations rep"
      "to_uint (double_round (t' - t0 rep)) \<noteq> to_uint (double_round (t - t0 rep))" for t' j j' a a'
    using rep_row_eq_iff [OF that(2,1,4,3), of t' t] that(5) by (simp add: rows)
  have 6: "data rep1 ! c ! rep_row rep t (p pp) a
            = data rep ! c ! rep_row rep t (p pp) a
              + sum_list (map snd (filter (\<lambda>cv. fst cv = c)
                  (incidence_writes P (age_flows ext P r t fc rep pp a)
                     (age_end ext P r t fc rep pp a))))"
    if "a < length fc" "t \<noteq> real_of_int (to_int t) \<or> c \<notin> prevalence_channels P"
      "c < length (data rep)" "rep_row rep t (p pp) a < length (data rep ! c)" for c a
    by (rule Population_Tick_cell [OF assms that])
  from 1 Population_Tick_forgets [OF assms] Population_Tick_shift [OF _ assms] 3 4 5 6 show ?thesis
    by blast
qed

text \<open>
  A configuration with two half-steps per reporting interval and two processes: the
  first is fed by the flow out of \<open>E\<close> and reports prevalence, incidence and outcidence of
  its compartment 0, the second is fed by what matures from compartment 0 and reports
  incidence and outcidence of its compartment 1.
\<close>

definition process5_E :: ProcessSpec where
  "process5_E =
     \<lparr>source_id = srcE, ids = [0], names = [''hosp''], report = [''pio''], prob = [[1]],
      delays = [delay1], p_cols = [], p_ids = [], i_cols = [], i_ids = [], o_cols = [],
      o_ids = []\<rparr>"

definition process5_0 :: ProcessSpec where
  "process5_0 =
     \<lparr>source_id = srcCompartment 0, ids = [1], names = [''death''], report = [''io''],
      prob = [[1]], delays = [delay1], p_cols = [], p_ids = [], i_cols = [], i_ids = [],
      o_cols = [], o_ids = []\<rparr>"

definition params5_given :: Parameters where
  "params5_given =
     params0\<lparr>time_step := 1 / 2, report_every := 2, processes := [process5_E, process5_0]\<rparr>"

definition params5 :: Parameters where
  "params5 =
     params5_given\<lparr>processes :=
       [process5_E\<lparr>p_cols := [9], p_ids := [0], i_cols := [10], i_ids := [0], o_cols := [11],
                   o_ids := [0]\<rparr>,
        process5_0\<lparr>i_cols := [12], i_ids := [1], o_cols := [13], o_ids := [1]\<rparr>]\<rparr>"

definition reporter5 :: Reporter where
  "reporter5 =
     \<lparr>active = True, t0 = 0, n_times = 2, n_populations = 1, n_age_groups = 1,
      col_names = [''S'', ''E'', ''Ip'', ''Is'', ''Ia'', ''R'', ''cases'', ''cases_reported'',
                   ''subclinical'', ''hosp_p'', ''hosp_i'', ''hosp_o'', ''death_i'', ''death_o''],
      data = replicate 14 [0, 0]\<rparr>"

definition population5 :: "ref_compartment Population" where
  "population5 =
     (Population_new ref_externals params5 0)
       \<lparr>S := [90], E := [\<lparr>contents = [4], occupancy = 4\<rparr>],
        pc := [[\<lparr>contents = [3], occupancy = 3\<rparr>], [\<lparr>contents = [], occupancy = 0\<rparr>]]\<rparr>"

lemma Reporter_new_params5: "Reporter_new params5_given True = Inr (params5, reporter5)"
  by (simp add: Reporter_new_def params5_given_def params5_def reporter5_def params0_def
      pop_params0_def process5_E_def process5_0_def to_uint_def Let_def numeral_eq_Suc)

lemma params5_channels:
  "prevalence_channels params5 = {0, 1, 2, 3, 4, 5, 9}"
  "incidence_channels params5 = {6, 7, 8, 10, 11, 12, 13}"
  by (auto simp: prevalence_channels_def incidence_channels_def params5_def params5_given_def
      process5_E_def process5_0_def)

lemma params5_writes:
  "incidence_writes params5 fl pp
    = [(6, nIp_Is fl), (7, n_reported fl), (8, nE_Ia fl), (10, pci pp ! 0), (11, pco pp ! 0),
       (12, pci pp ! 1), (13, pco pp ! 1)]"
  by (simp add: incidence_writes_def params5_def params5_given_def process5_E_def process5_0_def)

lemma params5_compartments: "process_compartments params5 = [0, 1]"
  by (simp add: process_compartments_def params5_def params5_given_def process5_E_def
      process5_0_def)

lemma population5_simps:
  "p population5 = 0"
  "pc population5 = [[\<lparr>contents = [3], occupancy = 3\<rparr>], [\<lparr>contents = [], occupancy = 0\<rparr>]]"
  "length (pci population5) = 2" "length (pco population5) = 2"
  by (simp_all add: population5_def Population_new_def Let_def params5_def params5_given_def
      process5_E_def process5_0_def)

lemma reporter5_simps:
  "length (data reporter5) = 14" "c < 14 \<Longrightarrow> data reporter5 ! c = [0, 0]"
  "rep_row reporter5 (1 / 2) 0 0 = 0"
  by (simp_all add: reporter5_def rep_row_def to_uint_def)

theorem C9_reporting_alignment_witness:
  "data (snd (snd (snd (Population_Tick ref_externals params5 0 (1 / 2) [0] reporter5 population5)))) ! 9
     = data reporter5 ! 9
   \<and> Population_Tick ref_externals params5 0 1 [0] (shift_row reporter5 1 0 0 9 7) population5
     = Population_Tick ref_externals params5 0 1 [0] reporter5 population5
   \<and> Population_Tick ref_externals params5 0 (1 / 2) [0] (shift_cell reporter5 11 0 7) population5
     = (fst (Population_Tick ref_externals params5 0 (1 / 2) [0] reporter5 population5),
        fst (snd (Population_Tick ref_externals params5 0 (1 / 2) [0] reporter5 population5)),
        fst (snd (snd (Population_Tick ref_externals params5 0 (1 / 2) [0] reporter5 population5))),
        shift_cell (snd (snd (snd
          (Population_Tick ref_externals params5 0 (1 / 2) [0] reporter5 population5)))) 11 0 7)
   \<and> data (snd (snd (snd (Population_Tick ref_externals params5 0 (1 / 2) [0] reporter5 population5))))
        ! 11 ! 0 = 3
   \<and> data (snd (snd (snd (Population_Tick ref_externals params5 0 (1 / 2) [0] reporter5 population5))))
        ! 11 ! 1 = 0
   \<and> rep_row (snd (snd (snd (Population_Tick ref_externals params5 0 (1 / 2) [0] reporter5 population5))))
        0 0 0 = rep_row reporter5 (1 / 2) 0 0
   \<and> rep_row (snd (snd (snd (Population_Tick ref_externals params5 0 (1 / 2) [0] reporter5 population5))))
        1 0 0 \<noteq> rep_row reporter5 (1 / 2) 0 0"
proof -
  let ?tick = "Population_Tick ref_externals params5 0 (1 / 2) [0] reporter5 population5"
  let ?whole = "Population_Tick ref_externals params5 0 1 [0] reporter5 population5"
  let ?e = "age_end ref_externals params5 0 (1 / 2) [0] reporter5 population5 0"
  have t: "?tick = (fst ?tick, fst (snd ?tick), fst (snd (snd ?tick)), snd (snd (snd ?tick)))"
    by simp
  have t1: "?whole = (fst ?whole, fst (snd ?whole), fst (snd (snd ?whole)), snd (snd (snd ?whole)))"
    by simp
  have half: "\<bar>1 / 2 :: real\<bar> < 2 ^ 31" "(1 / 2 :: real) \<noteq> real_of_int (to_int (1 / 2))"
    and one: "\<bar>1 :: real\<bar> < 2 ^ 31" "(1 :: real) = real_of_int (to_int 1)"
    by (simp_all add: to_int_def)
  have p5: "p population5 = 0"
    by (rule population5_simps)
  have rows: "to_uint (double_round (0 - t0 reporter5)) = to_uint (double_round (1 / 2 - t0 reporter5))"
    "to_uint (double_round (1 - t0 reporter5)) \<noteq> to_uint (double_round (1 / 2 - t0 reporter5))"
    "(1 :: nat) \<notin> (\<lambda>a. rep_row reporter5 (1 / 2) (p population5) a) ` {..<length [0 :: real]}"
    "(0 :: nat) < n_age_groups reporter5" "(0 :: nat) < n_populations reporter5"
    by (simp_all add: reporter5_def to_uint_def rep_row_def p5)
  have cell: "data reporter5 ! 11 ! 1 = 0" "data reporter5 ! 11 ! 0 = 0"
    by (simp_all add: reporter5_simps)
  have range: "(0 :: nat) < length [0 :: real]" "11 < length (data reporter5)"
    "rep_row reporter5 (1 / 2) (p population5) 0 < length (data reporter5 ! 11)"
    by (simp_all add: reporter5_simps p5)
  have "\<forall>ci\<in>set (process_compartments params5).
      pco ?e ! ci = fst (Mature ref_externals (pc population5 ! ci ! 0))"
    by (rule age_end_counts(1)) (simp_all add: params5_compartments population5_simps)
  then have out: "pco ?e ! 0 = 3"
    by (simp add: params5_compartments population5_simps ref_externals_def ref_Mature_def)
  note c9 = C9_reporting_alignment [OF t]
  from c9 [THEN conjunct1, rule_format, of 9] half
  have 1: "data (snd (snd (snd ?tick))) ! 9 = data reporter5 ! 9"
    by (simp add: params5_channels)
  from C9_reporting_alignment [OF t1, THEN conjunct2, THEN conjunct1, rule_format, of 9 0 7] one
  have 2: "Population_Tick ref_externals params5 0 1 [0] (shift_row reporter5 1 0 0 9 7) population5
     = ?whole"
    by (simp add: params5_channels p5)
  from c9 [THEN conjunct2, THEN conjunct2, THEN conjunct1, rule_format, of 11 0 7]
  have 3: "Population_Tick ref_externals params5 0 (1 / 2) [0] (shift_cell reporter5 11 0 7) population5
     = (fst ?tick, fst (snd ?tick), fst (snd (snd ?tick)), shift_cell (snd (snd (snd ?tick))) 11 0 7)"
    by (simp add: params5_channels)
  from c9 [THEN conjunct2, THEN conjunct2, THEN conjunct2, THEN conjunct1, rule_format, of 0 11]
    range half(2)
  have 4: "data (snd (snd (snd ?tick))) ! 11 ! 0 = 3"
    by (simp add: params5_writes out cell p5 reporter5_simps)
  from c9 [THEN conjunct2, THEN conjunct2, THEN conjunct2, THEN conjunct2, THEN conjunct1,
      rule_format, of 1 11] rows(3) cell
  have 5: "data (snd (snd (snd ?tick))) ! 11 ! 1 = 0"
    by simp
  from c9 [THEN conjunct2, THEN conjunct2, THEN conjunct2, THEN conjunct2, THEN conjunct2,
      THEN conjunct1, rule_format, of 0 0 0] rows(1)
  have 6: "rep_row (snd (snd (snd ?tick))) 0 0 0 = rep_row reporter5 (1 / 2) 0 0"
    by simp
  from c9 [THEN conjunct2, THEN conjunct2, THEN conjunct2, THEN conjunct2, THEN conjunct2,
      THEN conjunct2, rule_format, of 0 0 0 0 1] rows(2,4,5)
  have 7: "rep_row (snd (snd (snd ?tick))) 1 0 0 \<noteq> rep_row reporter5 (1 / 2) 0 0"
    by simp
  from 1 2 3 4 5 6 7 show ?thesis
    by (intro conjI)
qed

section \<open>The counts of the processes\<close>

lemma multinomial_helper_deterministic:
  assumes "deterministic P" and "c < length q"
  shows "fst (multinomial_helper ext P ra n q nd ni) ! c = n * q ! c"
proof -
  have "length (resize nd (length q) 0) = length q"
    by (simp add: resize_def)
  with assms fold_update_each [of "\<lambda>i. n * q ! i" "length q" "resize nd (length q) 0"]
  show ?thesis
    by (simp add: multinomial_helper_def Let_def)
qed

lemma multinomial_helper_stochastic:
  assumes "\<not> deterministic P" and "c < length q"
  shows "fst (multinomial_helper ext P ra n q nd ni) ! c
    = real (fst (Multinomial ext ra n q (resize ni (length q) 0)) ! c)"
proof -
  obtain ni1 r1 where m: "Multinomial ext ra n q (resize ni (length q) 0) = (ni1, r1)"
    by (cases "Multinomial ext ra n q (resize ni (length q) 0)")
  have "length (resize nd (length q) 0) = length q"
    by (simp add: resize_def)
  with assms fold_update_each [of "\<lambda>i. real (ni1 ! i)" "length q" "resize nd (length q) 0"]
  show ?thesis
    by (simp add: multinomial_helper_def Let_def m)
qed

text \<open>
  Claim C10. \<^verbatim>\<open>pci\<close> and \<^verbatim>\<open>pco\<close> hold one number per process compartment, written anew
  in the iteration of every age group. Let the compartments of the processes be distinct
  and in range, and the columns of step 3 distinct. For every age group \<open>a\<close> of a tick,
  with \<open>age_end\<close> the population as the iteration of \<open>a\<close> leaves it:
  \<^item> \<^verbatim>\<open>pco\<close> of every process compartment is what \<^verbatim>\<open>Mature\<close> returned for the compartment
    of age \<open>a\<close> as the tick found it, so every compartment matures before any is seeded;
  \<^item> \<^verbatim>\<open>pci\<close> of the \<open>c\<close>-th compartment of a process is the \<open>c\<close>-th share of the count that
    enters the process for age \<open>a\<close> (the product with \<^verbatim>\<open>prob[a][c]\<close> in deterministic mode,
    the multinomial draw otherwise), and it is the count that \<^verbatim>\<open>Add\<close> puts into the matured
    compartment of age \<open>a\<close>;
  \<^item> for a process fed by process compartment \<open>k\<close>, the count that enters is what
    \<^verbatim>\<open>Mature\<close> returned for compartment \<open>k\<close> of age \<open>a\<close> in this tick;
  \<^item> the reporter's cell of an incidence column in the row of age \<open>a\<close> grows by \<^verbatim>\<open>pci\<close> of its
    compartment, and the cell of an outcidence column by \<^verbatim>\<open>pco\<close> of its compartment, both as
    the iteration of \<open>a\<close> leaves them, whatever the later age groups write into them.
\<close>

theorem C10_process_counts:
  assumes tick: "Population_Tick ext P r t fc rep pp = (b, pp1, r1, rep1)"
    and a: "a < length fc"
    and ids: "distinct (process_compartments P)"
    and range: "\<forall>ci\<in>set (process_compartments P).
        ci < length (pc pp) \<and> a < length (pc pp ! ci) \<and> ci < length (pci pp) \<and> ci < length (pco pp)"
    and cols: "distinct (incidence_columns P)"
  shows "(\<forall>ci\<in>set (process_compartments P).
            pco (age_end ext P r t fc rep pp a) ! ci = fst (Mature ext (pc pp ! ci ! a)))
    \<and> (\<forall>pr\<in>set (processes P). \<forall>c<length (ids pr). \<exists>ra ni rb.
          (c < length (prob pr ! a) \<longrightarrow>
             pci (age_end ext P r t fc rep pp a) ! (ids pr ! c)
               = (if deterministic P then
                    n_entering (age_flows ext P r t fc rep pp a)
                      (pco (age_end ext P r t fc rep pp a)) (source_id pr) * prob pr ! a ! c
                  else
                    real (fst (Multinomial ext ra
                      (n_entering (age_flows ext P r t fc rep pp a)
                         (pco (age_end ext P r t fc rep pp a)) (source_id pr))
                      (prob pr ! a) (resize ni (length (prob pr ! a)) 0)) ! c)))
          \<and> pc pp1 ! (ids pr ! c) ! a
            = fst (Add ext P rb (pci (age_end ext P r t fc rep pp a) ! (ids pr ! c)) (delays pr ! c)
                     (snd (Mature ext (pc pp ! (ids pr ! c) ! a)))))
    \<and> (\<forall>fl k. k \<in> set (process_compartments P) \<longrightarrow>
          n_entering fl (pco (age_end ext P r t fc rep pp a)) (srcCompartment k)
            = fst (Mature ext (pc pp ! k ! a)))
    \<and> (\<forall>pr\<in>set (processes P). \<forall>i<length (i_cols pr).
          (t \<noteq> real_of_int (to_int t) \<or> i_cols pr ! i \<notin> prevalence_channels P)
          \<and> i_cols pr ! i < length (data rep)
          \<and> rep_row rep t (p pp) a < length (data rep ! (i_cols pr ! i)) \<longrightarrow>
          data rep1 ! (i_cols pr ! i) ! rep_row rep t (p pp) a
            = data rep ! (i_cols pr ! i) ! rep_row rep t (p pp) a
              + pci (age_end ext P r t fc rep pp a) ! (i_ids pr ! i))
    \<and> (\<forall>pr\<in>set (processes P). \<forall>i<length (o_cols pr).
          (t \<noteq> real_of_int (to_int t) \<or> o_cols pr ! i \<notin> prevalence_channels P)
          \<and> o_cols pr ! i < length (data rep)
          \<and> rep_row rep t (p pp) a < length (data rep ! (o_cols pr ! i)) \<longrightarrow>
          data rep1 ! (o_cols pr ! i) ! rep_row rep t (p pp) a
            = data rep ! (o_cols pr ! i) ! rep_row rep t (p pp) a
              + pco (age_end ext P r t fc rep pp a) ! (o_ids pr ! i))"
proof -
  let ?e = "age_end ext P r t fc rep pp a"
  let ?fl = "age_flows ext P r t fc rep pp a"
  let ?row = "rep_row rep t (p pp) a"
  note counts = age_end_counts [OF a ids range]
  have 1: "\<forall>ci\<in>set (process_compartments P). pco ?e ! ci = fst (Mature ext (pc pp ! ci ! a))"
    by (rule counts(1))
  have 2: "\<exists>ra ni rb.
          (c < length (prob pr ! a) \<longrightarrow>
             pci ?e ! (ids pr ! c)
               = (if deterministic P then n_entering ?fl (pco ?e) (source_id pr) * prob pr ! a ! c
                  else real (fst (Multinomial ext ra (n_entering ?fl (pco ?e) (source_id pr))
                     (prob pr ! a) (resize ni (length (prob pr ! a)) 0)) ! c)))
          \<and> pc pp1 ! (ids pr ! c) ! a
            = fst (Add ext P rb (pci ?e ! (ids pr ! c)) (delays pr ! c)
                     (snd (Mature ext (pc pp ! (ids pr ! c) ! a))))"
    if "pr \<in> set (processes P)" "c < length (ids pr)" for pr c
  proof -
    from counts(2) [OF tick that] obtain ra nd ni rb where
      e: "pci ?e ! (ids pr ! c)
          = fst (multinomial_helper ext P ra (n_entering ?fl (pco ?e) (source_id pr))
                   (prob pr ! a) nd ni) ! c"
      and s: "pc pp1 ! (ids pr ! c) ! a
          = fst (Add ext P rb (pci ?e ! (ids pr ! c)) (delays pr ! c)
                   (snd (Mature ext (pc pp ! (ids pr ! c) ! a))))"
      by blast
    have "c < length (prob pr ! a) \<longrightarrow>
             pci ?e ! (ids pr ! c)
               = (if deterministic P then n_entering ?fl (pco ?e) (source_id pr) * prob pr ! a ! c
                  else real (fst (Multinomial ext ra (n_entering ?fl (pco ?e) (source_id pr))
                     (prob pr ! a) (resize ni (length (prob pr ! a)) 0)) ! c))"
      using multinomial_helper_deterministic [of P c "prob pr ! a" ext ra _ nd ni]
        multinomial_helper_stochastic [of P c "prob pr ! a" ext ra _ nd ni] e
      by auto
    with s show ?thesis by blast
  qed
  have 3: "n_entering fl (pco ?e) (srcCompartment k) = fst (Mature ext (pc pp ! k ! a))"
    if "k \<in> set (process_compartments P)" for fl k
    using 1 that by simp
  have cell: "data rep1 ! col ! ?row = data rep ! col ! ?row + v"
    if "(col, v) \<in> set (incidence_writes P ?fl ?e)"
      "t \<noteq> real_of_int (to_int t) \<or> col \<notin> prevalence_channels P"
      "col < length (data rep)" "?row < length (data rep ! col)" for col v
    using Population_Tick_cell [OF tick a that(2-4)] sum_list_single [OF _ that(1)] cols
    by (simp add: incidence_columns_writes)
  have 4: "data rep1 ! (i_cols pr ! i) ! ?row = data rep ! (i_cols pr ! i) ! ?row + pci ?e ! (i_ids pr ! i)"
    if "pr \<in> set (processes P)" "i < length (i_cols pr)"
      "t \<noteq> real_of_int (to_int t) \<or> i_cols pr ! i \<notin> prevalence_channels P"
      "i_cols pr ! i < length (data rep)" "?row < length (data rep ! (i_cols pr ! i))" for pr i
    by (rule cell [OF incidence_writes_member(1) [OF that(1,2)] that(3-5)])
  have 5: "data rep1 ! (o_cols pr ! i) ! ?row = data rep ! (o_cols pr ! i) ! ?row + pco ?e ! (o_ids pr ! i)"
    if "pr \<in> set (processes P)" "i < length (o_cols pr)"
      "t \<noteq> real_of_int (to_int t) \<or> o_cols pr ! i \<notin> prevalence_channels P"
      "o_cols pr ! i < length (data rep)" "?row < length (data rep ! (o_cols pr ! i))" for pr i
    by (rule cell [OF incidence_writes_member(2) [OF that(1,2)] that(3-5)])
  from 2 have 2: "\<forall>pr\<in>set (processes P). \<forall>c<length (ids pr). \<exists>ra ni rb.
          (c < length (prob pr ! a) \<longrightarrow>
             pci ?e ! (ids pr ! c)
               = (if deterministic P then n_entering ?fl (pco ?e) (source_id pr) * prob pr ! a ! c
                  else real (fst (Multinomial ext ra (n_entering ?fl (pco ?e) (source_id pr))
                     (prob pr ! a) (resize ni (length (prob pr ! a)) 0)) ! c)))
          \<and> pc pp1 ! (ids pr ! c) ! a
            = fst (Add ext P rb (pci ?e ! (ids pr ! c)) (delays pr ! c)
                     (snd (Mature ext (pc pp ! (ids pr ! c) ! a))))"
    by blast
  from 3 have 3: "\<forall>fl k. k \<in> set (process_compartments P) \<longrightarrow>
          n_entering fl (pco ?e) (srcCompartment k) = fst (Mature ext (pc pp ! k ! a))"
    by blast
  from 4 have 4: "\<forall>pr\<in>set (processes P). \<forall>i<length (i_cols pr).
          (t \<noteq> real_of_int (to_int t) \<or> i_cols pr ! i \<notin> prevalence_channels P)
          \<and> i_cols pr ! i < length (data rep) \<and> ?row < length (data rep ! (i_cols pr ! i)) \<longrightarrow>
          data rep1 ! (i_cols pr ! i) ! ?row = data rep ! (i_cols pr ! i) ! ?row + pci ?e ! (i_ids pr ! i)"
    by blast
  from 5 have 5: "\<forall>pr\<in>set (processes P). \<forall>i<length (o_cols pr).
          (t \<noteq> real_of_int (to_int t) \<or> o_cols pr ! i \<notin> prevalence_channels P)
          \<and> o_cols pr ! i < length (data rep) \<and> ?row < length (data rep ! (o_cols pr ! i)) \<longrightarrow>
          data rep1 ! (o_cols pr ! i) ! ?row = data rep ! (o_cols pr ! i) ! ?row + pco ?e ! (o_ids pr ! i)"
    by blast
  from 1 2 3 4 5 show ?thesis
    by (intro conjI)
qed

text \<open>
  Two age groups, and the two processes above: 3 individuals of the first age and 5 of the
  second are about to leave compartment 0, which feeds the second process.
\<close>

definition pop_params6 :: PopulationParameters where
  "pop_params6 =
     \<lparr>size_pp = [100, 50], seed_times = [], dist_seed_ages = \<lparr>weights = [1, 1], storage = [0, 0]\<rparr>,
      schedule = [], u = [1, 1], cm = (\<lambda>a b. 0), fIp = [1, 1], fIa = [1/2, 1/2], fIs = [1, 1],
      y = [1/2, 1/2], rho = [1, 1], tau = [1, 1],
      dE = delay1, dIp = delay1, dIa = delay1, dIs = delay1, dH = delay1, dC = delay1\<rparr>"

definition params6_given :: Parameters where
  "params6_given =
     params0\<lparr>pop := [pop_params6],
       processes := [process5_E\<lparr>prob := [[1], [1]]\<rparr>, process5_0\<lparr>prob := [[1], [1]]\<rparr>]\<rparr>"

definition params6 :: Parameters where
  "params6 =
     params6_given\<lparr>processes :=
       [process5_E\<lparr>prob := [[1], [1]], p_cols := [9], p_ids := [0], i_cols := [10], i_ids := [0],
                   o_cols := [11], o_ids := [0]\<rparr>,
        process5_0\<lparr>prob := [[1], [1]], i_cols := [12], i_ids := [1], o_cols := [13],
                   o_ids := [1]\<rparr>]\<rparr>"

definition reporter6 :: Reporter where
  "reporter6 = reporter5\<lparr>n_age_groups := 2, data := replicate 14 [0, 0, 0, 0]\<rparr>"

definition population6 :: "ref_compartment Population" where
  "population6 =
     (Population_new ref_externals params6 0)
       \<lparr>pc := [[\<lparr>contents = [3], occupancy = 3\<rparr>, \<lparr>contents = [5], occupancy = 5\<rparr>],
               [\<lparr>contents = [], occupancy = 0\<rparr>, \<lparr>contents = [], occupancy = 0\<rparr>]]\<rparr>"

lemma Reporter_new_params6: "Reporter_new params6_given True = Inr (params6, reporter6)"
  by (simp add: Reporter_new_def params6_given_def params6_def reporter6_def reporter5_def
      params0_def pop_params6_def process5_E_def process5_0_def to_uint_def Let_def numeral_eq_Suc)

lemma params6_simps:
  "deterministic params6"
  "processes params6
    = [process5_E\<lparr>prob := [[1], [1]], p_cols := [9], p_ids := [0], i_cols := [10], i_ids := [0],
                   o_cols := [11], o_ids := [0]\<rparr>,
       process5_0\<lparr>prob := [[1], [1]], i_cols := [12], i_ids := [1], o_cols := [13],
                   o_ids := [1]\<rparr>]"
  "process_compartments params6 = [0, 1]"
  "incidence_columns params6 = [6, 7, 8, 10, 11, 12, 13]"
  "prevalence_channels params6 = {0, 1, 2, 3, 4, 5, 9}"
  by (auto simp: params6_def params6_given_def params0_def process_compartments_def
      incidence_columns_def prevalence_channels_def process5_E_def process5_0_def)

lemma population6_simps:
  "p population6 = 0"
  "pc population6 = [[\<lparr>contents = [3], occupancy = 3\<rparr>, \<lparr>contents = [5], occupancy = 5\<rparr>],
               [\<lparr>contents = [], occupancy = 0\<rparr>, \<lparr>contents = [], occupancy = 0\<rparr>]]"
  "length (pci population6) = 2" "length (pco population6) = 2"
  by (simp_all add: population6_def Population_new_def Let_def params6_simps Population_new_p
      process5_E_def process5_0_def)

lemma reporter6_simps:
  "rep_row reporter6 0 0 a = a" "length (data reporter6) = 14"
  "c < 14 \<Longrightarrow> data reporter6 ! c = [0, 0, 0, 0]"
  by (simp_all add: reporter6_def reporter5_def rep_row_def to_uint_def)

theorem C10_process_counts_witness:
  "data (snd (snd (snd (Population_Tick ref_externals params6 0 0 [0, 0] reporter6 population6))))
     ! 11 ! 0 = 3
   \<and> data (snd (snd (snd (Population_Tick ref_externals params6 0 0 [0, 0] reporter6 population6))))
     ! 11 ! 1 = 5
   \<and> data (snd (snd (snd (Population_Tick ref_externals params6 0 0 [0, 0] reporter6 population6))))
     ! 12 ! 0 = 3
   \<and> data (snd (snd (snd (Population_Tick ref_externals params6 0 0 [0, 0] reporter6 population6))))
     ! 12 ! 1 = 5"
proof -
  let ?tick = "Population_Tick ref_externals params6 0 0 [0, 0] reporter6 population6"
  let ?hosp = "process5_E\<lparr>prob := [[1], [1]], p_cols := [9], p_ids := [0], i_cols := [10],
      i_ids := [0], o_cols := [11], o_ids := [0]\<rparr>"
  let ?death = "process5_0\<lparr>prob := [[1], [1]], i_cols := [12], i_ids := [1], o_cols := [13],
      o_ids := [1]\<rparr>"
  have t: "?tick = (fst ?tick, fst (snd ?tick), fst (snd (snd ?tick)), snd (snd (snd ?tick)))"
    by simp
  have ids: "distinct (process_compartments params6)"
    by (simp add: params6_simps)
  have cols: "distinct (incidence_columns params6)"
    by (simp add: params6_simps)
  have prs: "?hosp \<in> set (processes params6)" "?death \<in> set (processes params6)"
    by (simp_all add: params6_simps)
  have leaving: "fst (Mature ref_externals (pc population6 ! 0 ! 0)) = 3"
    "fst (Mature ref_externals (pc population6 ! 0 ! 1)) = 5"
    by (simp_all add: population6_simps ref_externals_def ref_Mature_def)
  have cells: "data rep1 ! 11 ! a = fst (Mature ref_externals (pc population6 ! 0 ! a))
      \<and> data rep1 ! 12 ! a = fst (Mature ref_externals (pc population6 ! 0 ! a))"
    if a: "a < 2" and rep1: "rep1 = snd (snd (snd ?tick))" for a rep1
  proof -
    let ?e = "age_end ref_externals params6 0 0 [0, 0] reporter6 population6 a"
    let ?fl = "age_flows ref_externals params6 0 0 [0, 0] reporter6 population6 a"
    from a have a2: "a < length [0 :: real, 0]" by simp
    from a have zero: "[0, 0, 0, 0 :: real] ! a = 0"
      by (simp add: nth_Cons')
    have range: "\<forall>ci\<in>set (process_compartments params6).
        ci < length (pc population6) \<and> a < length (pc population6 ! ci)
        \<and> ci < length (pci population6) \<and> ci < length (pco population6)"
      using a by (simp add: params6_simps population6_simps)
    note c10 = C10_process_counts [OF t a2 ids range cols]
    from c10 [THEN conjunct1] have out: "pco ?e ! 0 = fst (Mature ref_externals (pc population6 ! 0 ! a))"
      by (simp add: params6_simps)
    from c10 [THEN conjunct2, THEN conjunct1, rule_format, OF prs(2), of 0] a
    have "pci ?e ! 1 = n_entering ?fl (pco ?e) (srcCompartment 0) * 1"
      by (cases "a = 0") (auto simp: params6_simps process5_0_def)
    with c10 [THEN conjunct2, THEN conjunct2, THEN conjunct1, rule_format, of 0 ?fl]
    have entering: "pci ?e ! 1 = fst (Mature ref_externals (pc population6 ! 0 ! a))"
      by (simp add: params6_simps)
    from c10 [THEN conjunct2, THEN conjunct2, THEN conjunct2, THEN conjunct2, rule_format,
        OF prs(1), of 0] a out
    have 1: "data rep1 ! 11 ! a = fst (Mature ref_externals (pc population6 ! 0 ! a))"
      by (simp add: rep1 process5_E_def params6_simps reporter6_simps population6_simps zero)
    from c10 [THEN conjunct2, THEN conjunct2, THEN conjunct2, THEN conjunct1, rule_format,
        OF prs(2), of 0] a entering
    have 2: "data rep1 ! 12 ! a = fst (Mature ref_externals (pc population6 ! 0 ! a))"
      by (simp add: rep1 process5_0_def params6_simps reporter6_simps population6_simps zero)
    from 1 2 show ?thesis ..
  qed
  from cells [of 0, OF _ refl] cells [of 1, OF _ refl] show ?thesis
    unfolding leaving by simp
qed

section \<open>Seed events\<close>

text \<open>
  The seeding as the specification words it: the events that are due, one after the
  other. \<open>due_events\<close> counts the entries of \<^verbatim>\<open>seed_times\<close> from the cursor on that are not
  after \<open>t\<close>.
\<close>

fun seed_events ::
  "('c, 'r) externals \<Rightarrow> nat \<Rightarrow> Parameters \<times> 'c Population \<times> 'r
    \<Rightarrow> error + Parameters \<times> 'c Population \<times> 'r"
where
  "seed_events ext 0 st = Inr st"
| "seed_events ext (Suc n) (P, pp, r) =
     (case seed_event ext (P, pp, r) of
        Inl e \<Rightarrow> Inl e
      | Inr (P1, pp1, r1) \<Rightarrow> seed_events ext n (P1, pp1\<lparr>seed_row := seed_row pp1 + 1\<rparr>, r1))"

definition due_events :: "real \<Rightarrow> Parameters \<Rightarrow> 'c Population \<Rightarrow> nat" where
  "due_events t P pp =
     length (takeWhile (\<lambda>s. s \<le> t) (drop (seed_row pp) (seed_times (pop P ! p pp))))"

lemma due_events_due:
  assumes "seed_due t P pp"
  shows "due_events t P pp
    = Suc (length (takeWhile (\<lambda>s. s \<le> t) (drop (Suc (seed_row pp)) (seed_times (pop P ! p pp)))))"
proof -
  from assms have "drop (seed_row pp) (seed_times (pop P ! p pp))
      = seed_times (pop P ! p pp) ! seed_row pp # drop (Suc (seed_row pp)) (seed_times (pop P ! p pp))"
    by (simp add: seed_due_def Cons_nth_drop_Suc)
  with assms show ?thesis
    by (simp add: due_events_def seed_due_def)
qed

lemma due_events_not_due:
  assumes "\<not> seed_due t P pp"
  shows "due_events t P pp = 0"
proof (cases "seed_row pp < length (seed_times (pop P ! p pp))")
  case True
  then have "drop (seed_row pp) (seed_times (pop P ! p pp))
      = seed_times (pop P ! p pp) ! seed_row pp # drop (Suc (seed_row pp)) (seed_times (pop P ! p pp))"
    by (simp add: Cons_nth_drop_Suc)
  with assms True show ?thesis
    by (simp add: due_events_def seed_due_def)
next
  case False
  then show ?thesis
    by (simp add: due_events_def)
qed

lemma seeding_events: "seeding ext t st = seed_events ext (due_events t (fst st) (fst (snd st))) st"
proof (induction ext t st rule: seeding.induct)
  case (1 ext t P pp r)
  show ?case
  proof (cases "seed_due t P pp")
    case False
    then show ?thesis
      by (simp add: seeding_not_due due_events_not_due)
  next
    case True
    then have c: "seed_row pp < length (seed_times (pop P ! p pp))
        \<and> seed_times (pop P ! p pp) ! seed_row pp \<le> t"
      by (simp add: seed_due_def)
    show ?thesis
    proof (cases "seed_event ext (P, pp, r)")
      case (Inl e)
      with True show ?thesis
        by (simp add: seeding_due due_events_due)
    next
      case (Inr st1)
      obtain P1 pp1 r1 where st1: "st1 = (P1, pp1, r1)" by (cases st1)
      note f = seed_event_frame [OF Inr [unfolded st1]]
      let ?pp2 = "pp1\<lparr>seed_row := seed_row pp1 + 1\<rparr>"
      have "due_events t P1 ?pp2
          = length (takeWhile (\<lambda>s. s \<le> t) (drop (Suc (seed_row pp)) (seed_times (pop P ! p pp))))"
        by (simp add: due_events_def f)
      with "1.IH" [OF c Inr [unfolded st1] refl refl] True show ?thesis
        by (simp add: seeding_due due_events_due Inr st1)
    qed
  qed
qed

text \<open>With the contract of \<^verbatim>\<open>Compartment\<close>: the sizes after an event.\<close>

lemma contract_Add_fst:
  "Compartment_contract ext \<Longrightarrow> Size ext (fst (Add ext P r n d c)) = Size ext c + n"
  by (simp add: Compartment_contract_def)

lemma contract_Mature_snd:
  "Compartment_contract ext \<Longrightarrow> Size ext (snd (Mature ext c)) = Size ext c - fst (Mature ext c)"
  by (simp add: Compartment_contract_def)

lemma Population_Contagiousness_seeds:
  assumes "Population_Contagiousness ext P r t cg pp = Some (Inr (P1, pp1, r1, cg1))"
  shows "\<exists>P2 pp2. seeding ext t (P, pp, r) = Inr (P2, pp2, r1) \<and> S pp1 = S pp2 \<and> E pp1 = E pp2"
proof -
  from assms obtain P2 pp2 P3 where s: "seeding ext t (P, pp, r) = Inr (P2, pp2, r1)"
    and c: "scheduled_changes ext t (P2, pp2) = Some (P3, pp1)"
    by (auto simp: Population_Contagiousness_def Let_def split: sum.splits option.splits prod.splits)
  from scheduled_changes_population [OF c, of 0] have "S pp1 = S pp2 \<and> E pp1 = E pp2"
    by (simp add: core_def)
  with s show ?thesis by blast
qed

lemma seed_event_deterministic_counts:
  assumes d: "deterministic P" and ev: "seed_event ext (P, pp, r) = Inr (P1, pp1, r1)"
  shows "P1 = P" and "length (E pp1) = length (E pp)"
    and "\<forall>a<length (S pp).
            S pp1 ! a = S pp ! a - seed_weights P pp ! a
            \<and> (a < length (E pp) \<longrightarrow>
                 (\<exists>ra. E pp1 ! a
                    = fst (Add ext P ra (seed_weights P pp ! a) (dE (pop P ! p pp)) (E pp ! a))))"
proof -
  have guards: "\<forall>a<length (S pp). \<not> S pp ! a < seed_weights P pp ! a"
  proof (intro allI impI notI)
    fix b assume "b < length (S pp)" "S pp ! b < seed_weights P pp ! b"
    from seed_event_deterministic_throws [OF d this, of ext r] ev show False
      by simp
  qed
  from seed_event_deterministic_moves [OF d guards, of ext r] obtain pp3 r3 where
    e3: "seed_event ext (P, pp, r) = Inr (P, pp3, r3)"
    and l: "length (E pp3) = length (E pp)"
    and m: "\<forall>a<length (S pp).
            S pp3 ! a = S pp ! a - seed_weights P pp ! a
            \<and> (a < length (E pp) \<longrightarrow>
                 (\<exists>ra. E pp3 ! a
                    = fst (Add ext P ra (seed_weights P pp ! a) (dE (pop P ! p pp)) (E pp ! a))))"
    by blast
  from ev e3 have same: "P1 = P" "pp1 = pp3"
    by auto
  from same show "P1 = P" by simp
  from same l show "length (E pp1) = length (E pp)" by simp
  from same m show "\<forall>a<length (S pp).
            S pp1 ! a = S pp ! a - seed_weights P pp ! a
            \<and> (a < length (E pp) \<longrightarrow>
                 (\<exists>ra. E pp1 ! a
                    = fst (Add ext P ra (seed_weights P pp ! a) (dE (pop P ! p pp)) (E pp ! a))))"
    by simp
qed

lemma seed_events_deterministic:
  assumes c: "Compartment_contract ext" and d: "deterministic P"
  shows "seed_events ext n (P, pp, r) = Inr (P1, pp1, r1) \<Longrightarrow>
    length (S pp1) = length (S pp) \<and> length (E pp1) = length (E pp)
    \<and> (\<forall>a<length (S pp). a < length (E pp) \<longrightarrow>
          S pp1 ! a = S pp ! a - real n * seed_weights P pp ! a
          \<and> Size ext (E pp1 ! a) = Size ext (E pp ! a) + real n * seed_weights P pp ! a)"
proof (induction n arbitrary: pp r)
  case 0
  then show ?case by simp
next
  case (Suc n)
  from Suc.prems obtain P2 pp2 r2 where
    ev: "seed_event ext (P, pp, r) = Inr (P2, pp2, r2)"
    and rest: "seed_events ext n (P2, pp2\<lparr>seed_row := seed_row pp2 + 1\<rparr>, r2) = Inr (P1, pp1, r1)"
    by (auto split: sum.splits)
  note f = seed_event_frame [OF ev]
  note k = seed_event_deterministic_counts [OF d ev]
  let ?pp3 = "pp2\<lparr>seed_row := seed_row pp2 + 1\<rparr>"
  have w: "\<And>x. seed_weights P (pp2\<lparr>seed_row := x\<rparr>) = seed_weights P pp"
    by (simp add: seed_weights_def f)
  from Suc.IH [of ?pp3 r2] rest k(1)
  have ih: "length (S pp1) = length (S pp2) \<and> length (E pp1) = length (E pp2)
    \<and> (\<forall>a<length (S pp2). a < length (E pp2) \<longrightarrow>
          S pp1 ! a = S pp2 ! a - real n * seed_weights P pp ! a
          \<and> Size ext (E pp1 ! a) = Size ext (E pp2 ! a) + real n * seed_weights P pp ! a)"
    by (simp add: w)
  show ?case
  proof (intro conjI allI impI)
    from ih f(4) show "length (S pp1) = length (S pp)" by simp
    from ih k(2) show "length (E pp1) = length (E pp)" by simp
  next
    fix a assume a: "a < length (S pp)" "a < length (E pp)"
    with k(3) obtain ra where
      s2: "S pp2 ! a = S pp ! a - seed_weights P pp ! a"
      and e2: "E pp2 ! a = fst (Add ext P ra (seed_weights P pp ! a) (dE (pop P ! p pp)) (E pp ! a))"
      by blast
    from ih a f(4) k(2) have
      s1: "S pp1 ! a = S pp2 ! a - real n * seed_weights P pp ! a"
      and e1: "Size ext (E pp1 ! a) = Size ext (E pp2 ! a) + real n * seed_weights P pp ! a"
      by simp_all
    from s1 s2 show "S pp1 ! a = S pp ! a - real (Suc n) * seed_weights P pp ! a"
      by (simp add: algebra_simps)
    from e1 e2 show "Size ext (E pp1 ! a) = Size ext (E pp ! a) + real (Suc n) * seed_weights P pp ! a"
      by (simp add: contract_Add_fst [OF c] algebra_simps)
  qed
qed

lemma sum_list_update_real:
  fixes xs :: "real list"
  shows "a < length xs \<Longrightarrow> sum_list (xs[a := x]) = sum_list xs - xs ! a + x"
  by (induction xs arbitrary: a) (auto split: nat.splits)

lemma seed_event_stochastic_total:
  assumes c: "Compartment_contract ext" and nd: "\<not> deterministic P" and j: "p pp < length (pop P)"
    and len: "length (E pp) = length (S pp)"
    and marks: "\<exists>a<length (S pp). fst (seed_draw ext P pp r) ! a = 1"
    and ev: "seed_event ext (P, pp, r) = Inr (P1, pp1, r1)"
  shows "\<not> deterministic P1" and "length (pop P1) = length (pop P)"
    and "weights (dist_seed_ages (pop P1 ! p pp)) = weights (dist_seed_ages (pop P ! p pp))"
    and "length (E pp1) = length (E pp)"
    and "sum_list (S pp1) = sum_list (S pp) - 1"
    and "sum_list (map (Size ext) (E pp1)) = sum_list (map (Size ext) (E pp)) + 1"
proof -
  let ?d = "fst (seed_draw ext P pp r)"
  let ?P1 = "stored_draw P (p pp) ?d"
  define a where "a = (LEAST a. a < length (S pp) \<and> ?d ! a = 1)"
  from marks have "a < length (S pp) \<and> ?d ! a = 1"
    unfolding a_def by (rule LeastI_ex)
  then have a: "a < length (S pp)" "?d ! a = 1" by simp_all
  have first: "\<forall>b<a. ?d ! b \<noteq> 1"
  proof (intro allI impI notI)
    fix b assume b: "b < a" "?d ! b = 1"
    with a have "b < length (S pp) \<and> ?d ! b = 1" by simp
    then have "a \<le> b" unfolding a_def by (rule Least_le)
    with b show False by simp
  qed
  from seed_event_stochastic(1) [OF nd j a first] ev
  obtain ad: "add ext ?P1 a 1 (pp, snd (seed_draw ext P pp r)) = Inr (pp1, r1)" and P1: "P1 = ?P1"
    by (auto split: sum.splits)
  from P1 nd show "\<not> deterministic P1" by (simp add: stored_draw_def)
  from P1 show "length (pop P1) = length (pop P)" by (simp add: stored_draw_def)
  from P1 show "weights (dist_seed_ages (pop P1 ! p pp)) = weights (dist_seed_ages (pop P ! p pp))"
    by (simp add: stored_draw_simps(3) [OF j])
  from add_other(4) [OF ad] show "length (E pp1) = length (E pp)" .
  from ad a have s: "S pp1 = (S pp)[a := S pp ! a - 1]"
    and e: "E pp1 = (E pp)[a := fst (Add ext ?P1 (snd (seed_draw ext P pp r)) 1
                                     (dE (pop ?P1 ! p pp)) (E pp ! a))]"
    by (auto simp: add_def split: if_splits prod.splits)
  from s a show "sum_list (S pp1) = sum_list (S pp) - 1"
    by (simp add: sum_list_update_real)
  from e a len show "sum_list (map (Size ext) (E pp1)) = sum_list (map (Size ext) (E pp)) + 1"
    by (simp add: map_update sum_list_update_real contract_Add_fst [OF c])
qed

lemma seed_events_stochastic:
  assumes c: "Compartment_contract ext"
  shows "\<not> deterministic P \<Longrightarrow> p pp < length (pop P) \<Longrightarrow> length (E pp) = length (S pp)
    \<Longrightarrow> \<forall>r st. \<exists>a<length (S pp). fst (Multinomial ext r 1 (seed_weights P pp) st) ! a = 1
    \<Longrightarrow> seed_events ext n (P, pp, r) = Inr (P1, pp1, r1)
    \<Longrightarrow> length (S pp1) = length (S pp) \<and> length (E pp1) = length (E pp)
      \<and> sum_list (S pp1) = sum_list (S pp) - real n
      \<and> sum_list (map (Size ext) (E pp1)) = sum_list (map (Size ext) (E pp)) + real n"
proof (induction n arbitrary: P pp r)
  case 0
  then show ?case by simp
next
  case (Suc n)
  from Suc.prems(5) obtain P2 pp2 r2 where
    ev: "seed_event ext (P, pp, r) = Inr (P2, pp2, r2)"
    and rest: "seed_events ext n (P2, pp2\<lparr>seed_row := seed_row pp2 + 1\<rparr>, r2) = Inr (P1, pp1, r1)"
    by (auto split: sum.splits)
  note f = seed_event_frame [OF ev]
  from Suc.prems(4) have marks: "\<exists>a<length (S pp). fst (seed_draw ext P pp r) ! a = 1"
    by (simp add: seed_draw_def seed_weights_def)
  note k = seed_event_stochastic_total [OF c Suc.prems(1,2,3) marks ev]
  let ?pp3 = "pp2\<lparr>seed_row := seed_row pp2 + 1\<rparr>"
  have w: "seed_weights P2 ?pp3 = seed_weights P pp"
    by (simp add: seed_weights_def f k(3))
  have "length (S pp1) = length (S ?pp3) \<and> length (E pp1) = length (E ?pp3)
      \<and> sum_list (S pp1) = sum_list (S ?pp3) - real n
      \<and> sum_list (map (Size ext) (E pp1)) = sum_list (map (Size ext) (E ?pp3)) + real n"
  proof (rule Suc.IH [OF _ _ _ _ rest])
    from k(1) show "\<not> deterministic P2" .
    from k(2) Suc.prems(2) f(1) show "p ?pp3 < length (pop P2)" by simp
    from k(4) f(4) Suc.prems(3) show "length (E ?pp3) = length (S ?pp3)" by simp
    from Suc.prems(4) f(4)
    show "\<forall>r st. \<exists>a<length (S ?pp3). fst (Multinomial ext r 1 (seed_weights P2 ?pp3) st) ! a = 1"
      unfolding w by simp
  qed
  with k(4,5,6) f(4) show ?case
    by (simp add: algebra_simps)
qed

lemma Population_Contagiousness_deterministic_seeds:
  assumes c: "Compartment_contract ext" and d: "deterministic P"
    and pc: "Population_Contagiousness ext P r t cg pp = Some (Inr (P1, pp1, r1, cg1))"
    and a: "a < length (S pp)" "a < length (E pp)"
  shows "S pp1 ! a = S pp ! a - real (due_events t P pp) * seed_weights P pp ! a
    \<and> Size ext (E pp1 ! a) = Size ext (E pp ! a) + real (due_events t P pp) * seed_weights P pp ! a"
proof -
  from Population_Contagiousness_seeds [OF pc] obtain P2 pp2 where
    s: "seeding ext t (P, pp, r) = Inr (P2, pp2, r1)" and same: "S pp1 = S pp2" "E pp1 = E pp2"
    by blast
  from s have "seed_events ext (due_events t P pp) (P, pp, r) = Inr (P2, pp2, r1)"
    by (simp add: seeding_events)
  from seed_events_deterministic [OF c d this] a same show ?thesis
    by simp
qed

lemma Population_Contagiousness_stochastic_seeds:
  assumes c: "Compartment_contract ext" and nd: "\<not> deterministic P" and j: "p pp < length (pop P)"
    and len: "length (E pp) = length (S pp)"
    and marks: "\<forall>r st. \<exists>a<length (S pp). fst (Multinomial ext r 1 (seed_weights P pp) st) ! a = 1"
    and pc: "Population_Contagiousness ext P r t cg pp = Some (Inr (P1, pp1, r1, cg1))"
  shows "length (S pp1) = length (S pp) \<and> length (E pp1) = length (E pp)
    \<and> sum_list (S pp1) = sum_list (S pp) - real (due_events t P pp)
    \<and> sum_list (map (Size ext) (E pp1)) = sum_list (map (Size ext) (E pp)) + real (due_events t P pp)"
proof -
  from Population_Contagiousness_seeds [OF pc] obtain P2 pp2 where
    s: "seeding ext t (P, pp, r) = Inr (P2, pp2, r1)" and same: "S pp1 = S pp2" "E pp1 = E pp2"
    by blast
  from s have "seed_events ext (due_events t P pp) (P, pp, r) = Inr (P2, pp2, r1)"
    by (simp add: seeding_events)
  from seed_events_stochastic [OF c nd j len marks this] same show ?thesis
    by simp
qed

text \<open>The tick after the seeding: what it does to \<open>S\<close> and \<open>E\<close> of an age group.\<close>

lemma Population_Tick_flow:
  assumes "Population_Tick ext P r t fc rep pp = (b, pp1, r1, rep1)"
    and "a < length fc" and "a < length (S pp)" and "a < length (E pp)"
  shows "lambda pp1 ! a = (\<Sum>b<length fc. u (pop P ! p pp) ! a * cm (pop P ! p pp) a b * fc ! b)
    \<and> (\<exists>ra rb.
          S pp1 ! a = S pp ! a - S_E_flow ext P ra (S pp ! a) (lambda pp1 ! a)
        \<and> E pp1 ! a = snd (Mature ext (fst (Add ext P rb
              (S_E_flow ext P ra (S pp ! a) (lambda pp1 ! a)) (dE (pop P ! p pp)) (E pp ! a)))))"
proof -
  let ?L = "force_of_infection (pop P ! p pp) fc"
  let ?st = "(pp\<lparr>lambda := ?L\<rparr>, r, rep)"
  let ?n = "length ?L"
  have n: "?n = length fc"
    by (rule length_force_of_infection)
  have lam: "lambda pp1 = ?L"
    by (rule Population_Tick_frame(2) [OF assms(1)])
  have pp1: "pp1 = fst (fold (Tick_age ext P t) [0..<?n] ?st)"
    using assms(1) by (auto simp: Population_Tick_def Let_def split: prod.splits)
  have split: "[0..<?n] = [0..<a] @ a # [Suc a..<?n]"
    using assms(2) n by (metis le0 upt_conv_Cons upt_add_eq_append le_add_diff_inverse less_imp_le_nat)
  define sa where "sa = fold (Tick_age ext P t) [0..<a] ?st"
  obtain ppa ra repa where sa: "sa = (ppa, ra, repa)" by (cases sa)
  have before: "S ppa ! a = S pp ! a" "E ppa ! a = E pp ! a" "lambda ppa = ?L" "p ppa = p pp"
    "length (S ppa) = length (S pp)" "length (E ppa) = length (E pp)"
    using fold_Tick_age_other [of a "[0..<a]" ext P t ?st]
      fold_Tick_age_frame [of ext P t "[0..<a]" ?st]
      fold_Tick_age_lengths [of ext P t "[0..<a]" ?st]
    by (simp_all add: sa_def [symmetric] sa)
  from Tick_age_this [of a ppa ext P t ra repa] assms(3,4) before
  obtain rb where this_age:
    "S (fst (Tick_age ext P t a sa)) ! a = S pp ! a - S_E_flow ext P ra (S pp ! a) (?L ! a)"
    "E (fst (Tick_age ext P t a sa)) ! a
      = snd (Mature ext (fst (Add ext P rb (S_E_flow ext P ra (S pp ! a) (?L ! a))
          (dE (pop P ! p pp)) (E pp ! a))))"
    by (auto simp: sa)
  have "pp1 = fst (fold (Tick_age ext P t) [Suc a..<?n] (Tick_age ext P t a sa))"
    unfolding pp1 by (subst split) (simp add: sa_def)
  with fold_Tick_age_other [of a "[Suc a..<?n]" ext P t "Tick_age ext P t a sa"]
  have "S pp1 ! a = S (fst (Tick_age ext P t a sa)) ! a" "E pp1 ! a = E (fst (Tick_age ext P t a sa)) ! a"
    by simp_all
  with this_age have "\<exists>ra rb.
          S pp1 ! a = S pp ! a - S_E_flow ext P ra (S pp ! a) (?L ! a)
        \<and> E pp1 ! a = snd (Mature ext (fst (Add ext P rb
              (S_E_flow ext P ra (S pp ! a) (?L ! a)) (dE (pop P ! p pp)) (E pp ! a))))"
    by auto
  with force_of_infection_nth [OF assms(2)] show ?thesis
    unfolding lam by simp
qed

lemma zero_contact_tick:
  assumes c: "Compartment_contract ext"
    and d: "deterministic P \<or> (\<forall>r n. fst (Binomial ext r n 0) = 0)"
    and tick: "Population_Tick ext P r t fc rep pp = (b, pp1, r1, rep1)"
    and a: "a < length fc" "a < length (S pp)" "a < length (E pp)"
    and zero: "\<forall>b<length fc. cm (pop P ! p pp) a b = 0"
  shows "S pp1 ! a = S pp ! a
    \<and> (\<exists>rb. Size ext (E pp1 ! a)
          = Size ext (E pp ! a) - fst (Mature ext (fst (Add ext P rb 0 (dE (pop P ! p pp)) (E pp ! a)))))"
proof -
  from Population_Tick_flow [OF tick a] zero have lam: "lambda pp1 ! a = 0"
    by simp
  from Population_Tick_flow [OF tick a] obtain ra rb where
    "S pp1 ! a = S pp ! a - S_E_flow ext P ra (S pp ! a) (lambda pp1 ! a)"
    "E pp1 ! a = snd (Mature ext (fst (Add ext P rb
              (S_E_flow ext P ra (S pp ! a) (lambda pp1 ! a)) (dE (pop P ! p pp)) (E pp ! a))))"
    by blast
  moreover from d have "S_E_flow ext P ra (S pp ! a) 0 = 0"
    by (auto simp: S_E_flow_def)
  ultimately have "S pp1 ! a = S pp ! a"
    "E pp1 ! a = snd (Mature ext (fst (Add ext P rb 0 (dE (pop P ! p pp)) (E pp ! a))))"
    by (simp_all add: lam)
  then show ?thesis
    by (auto simp: contract_Mature_snd [OF c] contract_Add_fst [OF c])
qed

text \<open>
  Claim C4, as amended. The seed schedule of a population is a list of times and carries
  no count. \<^verbatim>\<open>Population::Contagiousness\<close> runs one seed event for every entry that is due
  at \<open>t\<close>: the entries from the cursor on that are not after \<open>t\<close>, in their order, each
  once. For one event:
  \<^item> in deterministic mode, if no age group has fewer susceptibles than its weight, every
    age group \<open>a\<close> loses \<^verbatim>\<open>weights[a]\<close> from \<open>S\<close> and receives it by \<^verbatim>\<open>Add\<close> in \<open>E\<close>;
  \<^item> in stochastic mode a multinomial draw of 1 over the age weights is stored, and the
    first age group it marks with 1 loses exactly one individual from \<open>S\<close> and receives it
    by \<^verbatim>\<open>Add\<close> in \<open>E\<close>; no other age group changes, and nothing moves when the draw marks
    no age group.

  For the \<open>n\<close> events that are due in a call that returns, with the contract of
  \<^verbatim>\<open>Compartment\<close>: in deterministic mode \<open>S\<close> of age group \<open>a\<close> falls and the size of \<open>E\<close> of
  \<open>a\<close> grows by \<open>n * weights[a]\<close>; in stochastic mode, when every draw marks an age group,
  the sum of \<open>S\<close> over the age groups falls and the sum of the sizes of \<open>E\<close> grows by
  exactly \<open>n\<close>. The tick that follows leaves \<open>S\<close> of an age group without contact as it
  is, and takes from its \<open>E\<close> only what \<^verbatim>\<open>Mature\<close> returns (in stochastic mode for a
  binomial draw that gives 0 at probability 0).
\<close>

theorem C4_seed_events:
  "seeding ext t (P, pp, r) = seed_events ext (due_events t P pp) (P, pp, r)
   \<and> (deterministic P \<and> (\<forall>a<length (S pp). \<not> S pp ! a < seed_weights P pp ! a) \<longrightarrow>
        (\<exists>pp1 r1. seed_event ext (P, pp, r) = Inr (P, pp1, r1)
           \<and> length (S pp1) = length (S pp) \<and> length (E pp1) = length (E pp)
           \<and> (\<forall>a<length (S pp).
                 S pp1 ! a = S pp ! a - seed_weights P pp ! a
                 \<and> (a < length (E pp) \<longrightarrow>
                      (\<exists>ra. E pp1 ! a
                         = fst (Add ext P ra (seed_weights P pp ! a) (dE (pop P ! p pp))
                                  (E pp ! a)))))))
   \<and> (\<not> deterministic P \<and> p pp < length (pop P) \<and> a < length (S pp)
        \<and> fst (seed_draw ext P pp r) ! a = 1 \<and> (\<forall>b<a. fst (seed_draw ext P pp r) ! b \<noteq> 1)
        \<and> \<not> S pp ! a < 1 \<longrightarrow>
        (\<exists>P1 pp1 r1 ra. seed_event ext (P, pp, r) = Inr (P1, pp1, r1)
           \<and> S pp1 = (S pp)[a := S pp ! a - 1]
           \<and> E pp1 = (E pp)[a := fst (Add ext P1 ra 1 (dE (pop P ! p pp)) (E pp ! a))]))
   \<and> (\<not> deterministic P \<and> p pp < length (pop P)
        \<and> (\<forall>a<length (S pp). fst (seed_draw ext P pp r) ! a \<noteq> 1) \<longrightarrow>
        (\<exists>P1 r1. seed_event ext (P, pp, r) = Inr (P1, pp, r1)))
   \<and> (Compartment_contract ext \<and> deterministic P
        \<and> Population_Contagiousness ext P r t cg pp = Some (Inr (P1, pp1, r1, cg1))
        \<and> a < length (S pp) \<and> a < length (E pp) \<longrightarrow>
        S pp1 ! a = S pp ! a - real (due_events t P pp) * seed_weights P pp ! a
        \<and> Size ext (E pp1 ! a)
            = Size ext (E pp ! a) + real (due_events t P pp) * seed_weights P pp ! a)
   \<and> (Compartment_contract ext \<and> \<not> deterministic P \<and> p pp < length (pop P)
        \<and> length (E pp) = length (S pp)
        \<and> (\<forall>r st. \<exists>a<length (S pp). fst (Multinomial ext r 1 (seed_weights P pp) st) ! a = 1)
        \<and> Population_Contagiousness ext P r t cg pp = Some (Inr (P1, pp1, r1, cg1)) \<longrightarrow>
        length (S pp1) = length (S pp) \<and> length (E pp1) = length (E pp)
        \<and> sum_list (S pp1) = sum_list (S pp) - real (due_events t P pp)
        \<and> sum_list (map (Size ext) (E pp1))
            = sum_list (map (Size ext) (E pp)) + real (due_events t P pp))
   \<and> (Compartment_contract ext \<and> (deterministic P \<or> (\<forall>r n. fst (Binomial ext r n 0) = 0))
        \<and> Population_Tick ext P r t fc rep pp = (keep_going, pp2, r2, rep2)
        \<and> a < length fc \<and> a < length (S pp) \<and> a < length (E pp)
        \<and> (\<forall>b<length fc. cm (pop P ! p pp) a b = 0) \<longrightarrow>
        S pp2 ! a = S pp ! a
        \<and> (\<exists>rb. Size ext (E pp2 ! a)
              = Size ext (E pp ! a)
                - fst (Mature ext (fst (Add ext P rb 0 (dE (pop P ! p pp)) (E pp ! a))))))"
proof (intro conjI impI)
  show "seeding ext t (P, pp, r) = seed_events ext (due_events t P pp) (P, pp, r)"
    using seeding_events [of ext t "(P, pp, r)"] by simp
next
  assume "deterministic P \<and> (\<forall>a<length (S pp). \<not> S pp ! a < seed_weights P pp ! a)"
  with seed_event_deterministic_moves [of P pp ext r]
  show "\<exists>pp1 r1. seed_event ext (P, pp, r) = Inr (P, pp1, r1)
           \<and> length (S pp1) = length (S pp) \<and> length (E pp1) = length (E pp)
           \<and> (\<forall>a<length (S pp).
                 S pp1 ! a = S pp ! a - seed_weights P pp ! a
                 \<and> (a < length (E pp) \<longrightarrow>
                      (\<exists>ra. E pp1 ! a
                         = fst (Add ext P ra (seed_weights P pp ! a) (dE (pop P ! p pp))
                                  (E pp ! a)))))"
    by blast
next
  let ?P1 = "stored_draw P (p pp) (fst (seed_draw ext P pp r))"
  let ?r1 = "snd (seed_draw ext P pp r)"
  assume h: "\<not> deterministic P \<and> p pp < length (pop P) \<and> a < length (S pp)
        \<and> fst (seed_draw ext P pp r) ! a = 1 \<and> (\<forall>b<a. fst (seed_draw ext P pp r) ! b \<noteq> 1)
        \<and> \<not> S pp ! a < 1"
  then have "seed_event ext (P, pp, r)
      = (case add ext ?P1 a 1 (pp, ?r1) of
           Inl e \<Rightarrow> Inl e | Inr (pp2, r2) \<Rightarrow> Inr (?P1, pp2, r2))"
    by (intro seed_event_stochastic(1)) simp_all
  moreover from h have "add ext ?P1 a 1 (pp, ?r1)
      = Inr (pp\<lparr>S := (S pp)[a := S pp ! a - 1],
                E := (E pp)[a := fst (Add ext ?P1 ?r1 1 (dE (pop P ! p pp)) (E pp ! a))]\<rparr>,
             snd (Add ext ?P1 ?r1 1 (dE (pop P ! p pp)) (E pp ! a)))"
    by (simp add: add_def stored_draw_simps(2) split: prod.splits)
  ultimately have "seed_event ext (P, pp, r)
      = Inr (?P1, pp\<lparr>S := (S pp)[a := S pp ! a - 1],
                E := (E pp)[a := fst (Add ext ?P1 ?r1 1 (dE (pop P ! p pp)) (E pp ! a))]\<rparr>,
             snd (Add ext ?P1 ?r1 1 (dE (pop P ! p pp)) (E pp ! a)))"
    by simp
  then show "\<exists>P1 pp1 r1 ra. seed_event ext (P, pp, r) = Inr (P1, pp1, r1)
           \<and> S pp1 = (S pp)[a := S pp ! a - 1]
           \<and> E pp1 = (E pp)[a := fst (Add ext P1 ra 1 (dE (pop P ! p pp)) (E pp ! a))]"
    by (intro exI [of _ ?P1] exI [of _ ?r1] exI) (rule conjI, assumption, simp)
next
  assume "\<not> deterministic P \<and> p pp < length (pop P)
        \<and> (\<forall>a<length (S pp). fst (seed_draw ext P pp r) ! a \<noteq> 1)"
  then have "seed_event ext (P, pp, r)
        = Inr (stored_draw P (p pp) (fst (seed_draw ext P pp r)), pp, snd (seed_draw ext P pp r))"
    by (intro seed_event_stochastic(2)) simp_all
  then show "\<exists>P1 r1. seed_event ext (P, pp, r) = Inr (P1, pp, r1)"
    by blast
next
  assume h: "Compartment_contract ext \<and> deterministic P
        \<and> Population_Contagiousness ext P r t cg pp = Some (Inr (P1, pp1, r1, cg1))
        \<and> a < length (S pp) \<and> a < length (E pp)"
  then have "S pp1 ! a = S pp ! a - real (due_events t P pp) * seed_weights P pp ! a
    \<and> Size ext (E pp1 ! a) = Size ext (E pp ! a) + real (due_events t P pp) * seed_weights P pp ! a"
    by (intro Population_Contagiousness_deterministic_seeds [of ext P r t cg pp P1 pp1 r1 cg1])
      simp_all
  then show "S pp1 ! a = S pp ! a - real (due_events t P pp) * seed_weights P pp ! a"
    and "Size ext (E pp1 ! a)
            = Size ext (E pp ! a) + real (due_events t P pp) * seed_weights P pp ! a"
    by simp_all
next
  assume h: "Compartment_contract ext \<and> \<not> deterministic P \<and> p pp < length (pop P)
        \<and> length (E pp) = length (S pp)
        \<and> (\<forall>r st. \<exists>a<length (S pp). fst (Multinomial ext r 1 (seed_weights P pp) st) ! a = 1)
        \<and> Population_Contagiousness ext P r t cg pp = Some (Inr (P1, pp1, r1, cg1))"
  then have "length (S pp1) = length (S pp) \<and> length (E pp1) = length (E pp)
    \<and> sum_list (S pp1) = sum_list (S pp) - real (due_events t P pp)
    \<and> sum_list (map (Size ext) (E pp1)) = sum_list (map (Size ext) (E pp)) + real (due_events t P pp)"
    by (intro Population_Contagiousness_stochastic_seeds [of ext P pp r t cg P1 pp1 r1 cg1])
      simp_all
  then show "length (S pp1) = length (S pp)" and "length (E pp1) = length (E pp)"
    and "sum_list (S pp1) = sum_list (S pp) - real (due_events t P pp)"
    and "sum_list (map (Size ext) (E pp1))
            = sum_list (map (Size ext) (E pp)) + real (due_events t P pp)"
    by simp_all
next
  assume h: "Compartment_contract ext \<and> (deterministic P \<or> (\<forall>r n. fst (Binomial ext r n 0) = 0))
        \<and> Population_Tick ext P r t fc rep pp = (keep_going, pp2, r2, rep2)
        \<and> a < length fc \<and> a < length (S pp) \<and> a < length (E pp)
        \<and> (\<forall>b<length fc. cm (pop P ! p pp) a b = 0)"
  then have "S pp2 ! a = S pp ! a
    \<and> (\<exists>rb. Size ext (E pp2 ! a)
          = Size ext (E pp ! a) - fst (Mature ext (fst (Add ext P rb 0 (dE (pop P ! p pp)) (E pp ! a)))))"
    by (intro zero_contact_tick [of ext P r t fc rep pp keep_going pp2 r2 rep2]) simp_all
  then show "S pp2 ! a = S pp ! a"
    and "\<exists>rb. Size ext (E pp2 ! a)
              = Size ext (E pp ! a)
                - fst (Mature ext (fst (Add ext P rb 0 (dE (pop P ! p pp)) (E pp ! a))))"
    by simp_all
qed

text \<open>
  One population of 100 in one age group of weight 1, without contact, and ten entries
  of the seed schedule at time 0; and its stochastic mode.
\<close>

definition pop_params9 :: PopulationParameters where
  "pop_params9 = pop_params0\<lparr>seed_times := [0, 0, 0, 0, 0, 0, 0, 0, 0, 0]\<rparr>"

definition params9 :: Parameters where
  "params9 = params0\<lparr>pop := [pop_params9]\<rparr>"

definition params9s :: Parameters where
  "params9s = params9\<lparr>deterministic := False\<rparr>"

lemmas params9_defs = params9s_def params9_def pop_params9_def params0_def pop_params0_def

lemma seeded9:
  "Population_Contagiousness ref_externals params9 0 0 [0] (Population_new ref_externals params9 0)
     = Some (Inr (params9,
         (Population_new ref_externals params9 0)
           \<lparr>S := [90], E := [\<lparr>contents = [0, 10], occupancy = 10\<rparr>], seed_row := 10\<rparr>, 0, [0]))"
  by (simp add: tick_defs params9_defs)

lemma seeded9s:
  "\<exists>P1 r1. Population_Contagiousness ref_externals params9s 0 0 [0] (Population_new ref_externals params9s 0)
     = Some (Inr (P1,
         (Population_new ref_externals params9s 0)
           \<lparr>S := [90], E := [\<lparr>contents = [0, 10], occupancy = 10\<rparr>], seed_row := 10\<rparr>, r1, [0]))
     \<and> \<not> deterministic P1 \<and> pop P1 = [pop_params9\<lparr>dist_seed_ages := \<lparr>weights = [1], storage = [1]\<rparr>\<rparr>]"
  by (simp add: tick_defs params9_defs)

text \<open>The same with age weight 0, which no draw can mark.\<close>

definition params9n :: Parameters where
  "params9n = params9s\<lparr>pop := [pop_params9\<lparr>dist_seed_ages := \<lparr>weights = [0], storage = [0]\<rparr>\<rparr>]\<rparr>"

lemma params9_simps:
  "deterministic params9" "\<not> deterministic params9s" "\<not> deterministic params9n"
  "length (pop params9s) = 1" "length (pop params9n) = 1"
  "p (Population_new ext P j) = j"
  "S (Population_new ext params9 0) = [100]" "S (Population_new ext params9s 0) = [100]"
  "S (Population_new ext params9n 0) = [100]"
  "E (Population_new ext params9 0) = [Compartment_new ext]"
  "E (Population_new ext params9s 0) = [Compartment_new ext]"
  "seed_weights params9 (Population_new ext params9 0) = [1]"
  "seed_weights params9s (Population_new ext params9s 0) = [1]"
  "due_events 0 params9 (Population_new ext params9 0) = 10"
  "due_events 0 params9s (Population_new ext params9s 0) = 10"
  "fst (seed_draw ref_externals params9s (Population_new ref_externals params9s 0) r) = [1]"
  "fst (seed_draw ref_externals params9n (Population_new ref_externals params9n 0) r) = [0]"
  by (simp_all add: params9n_def params9_defs Population_new_def Let_def seed_weights_def
      due_events_def seed_draw_def ref_externals_def ref_Multinomial_def)

theorem C4_seed_events_witness:
  "Compartment_contract ref_externals
   \<and> seeding ref_externals 0 (params9, Population_new ref_externals params9 0, 0)
       = seed_events ref_externals 10 (params9, Population_new ref_externals params9 0, 0)
   \<and> (\<exists>pp1 r1. seed_event ref_externals (params9, Population_new ref_externals params9 0, 0)
          = Inr (params9, pp1, r1)
        \<and> S pp1 ! 0 = 99 \<and> E pp1 ! 0 = \<lparr>contents = [0, 1], occupancy = 1\<rparr>)
   \<and> (\<exists>P1 pp1 r1. seed_event ref_externals (params9s, Population_new ref_externals params9s 0, 0)
          = Inr (P1, pp1, r1)
        \<and> S pp1 = [99] \<and> E pp1 = [\<lparr>contents = [0, 1], occupancy = 1\<rparr>])
   \<and> (\<exists>P1 r1. seed_event ref_externals (params9n, Population_new ref_externals params9n 0, 0)
          = Inr (P1, Population_new ref_externals params9n 0, r1))
   \<and> (\<exists>P1 pp1 r1 cg1.
        Population_Contagiousness ref_externals params9 0 0 [0] (Population_new ref_externals params9 0)
          = Some (Inr (P1, pp1, r1, cg1))
        \<and> S pp1 ! 0 = 90 \<and> occupancy (E pp1 ! 0) = 10
        \<and> (\<exists>b pp2 r2 rep2.
              Population_Tick ref_externals P1 r1 0 [0] (snd (projr (Reporter_new params9 True))) pp1
                = (b, pp2, r2, rep2)
              \<and> S pp2 ! 0 = 90 \<and> occupancy (E pp2 ! 0) = 10))
   \<and> (\<exists>P1 pp1 r1 cg1.
        Population_Contagiousness ref_externals params9s 0 0 [0] (Population_new ref_externals params9s 0)
          = Some (Inr (P1, pp1, r1, cg1))
        \<and> S pp1 = [90] \<and> map occupancy (E pp1) = [10]
        \<and> (\<exists>b pp2 r2 rep2.
              Population_Tick ref_externals P1 r1 0 [0] (snd (projr (Reporter_new params9s True))) pp1
                = (b, pp2, r2, rep2)
              \<and> S pp2 ! 0 = 90 \<and> occupancy (E pp2 ! 0) = 10))"
proof -
  let ?p9 = "Population_new ref_externals params9 0"
  let ?p9s = "Population_new ref_externals params9s 0"
  let ?p9n = "Population_new ref_externals params9n 0"
  let ?seeded = "\<lambda>P. (Population_new ref_externals P 0)
      \<lparr>S := [90], E := [\<lparr>contents = [0, 10], occupancy = 10\<rparr>], seed_row := 10\<rparr>"
  have size: "Size ref_externals = occupancy"
    by (simp add: ref_externals_def)
  have 1: "seeding ref_externals 0 (params9, ?p9, 0) = seed_events ref_externals 10 (params9, ?p9, 0)"
    using C4_seed_events [THEN conjunct1, of ref_externals 0 params9 ?p9 0]
    by (simp add: params9_simps)
  note rest = C4_seed_events [THEN conjunct2]
  from rest [THEN conjunct1, of params9 ?p9 ref_externals 0]
  obtain pp1 r1 where e2: "seed_event ref_externals (params9, ?p9, 0) = Inr (params9, pp1, r1)"
    and m2: "\<forall>a<length (S ?p9). S pp1 ! a = S ?p9 ! a - seed_weights params9 ?p9 ! a
                 \<and> (a < length (E ?p9) \<longrightarrow>
                      (\<exists>ra. E pp1 ! a
                         = fst (Add ref_externals params9 ra (seed_weights params9 ?p9 ! a)
                                  (dE (pop params9 ! p ?p9)) (E ?p9 ! a))))"
    by (auto simp: params9_simps)
  from m2 have "S pp1 ! 0 = 99 \<and> E pp1 ! 0 = \<lparr>contents = [0, 1], occupancy = 1\<rparr>"
    by (simp add: params9_simps)
       (simp add: ref_externals_def ref_Add_def params9_defs delay1_def enrol_def)
  with e2 have 2: "\<exists>pp1 r1. seed_event ref_externals (params9, ?p9, 0) = Inr (params9, pp1, r1)
        \<and> S pp1 ! 0 = 99 \<and> E pp1 ! 0 = \<lparr>contents = [0, 1], occupancy = 1\<rparr>"
    by blast
  have 3: "\<exists>P1 pp1 r1. seed_event ref_externals (params9s, ?p9s, 0) = Inr (P1, pp1, r1)
        \<and> S pp1 = [99] \<and> E pp1 = [\<lparr>contents = [0, 1], occupancy = 1\<rparr>]"
    using rest [THEN conjunct2, THEN conjunct1, of params9s ?p9s 0 ref_externals 0]
    by (simp add: params9_simps)
       (auto simp: ref_externals_def ref_Add_def ref_Multinomial_def params9_defs delay1_def
         enrol_def stored_draw_def)
  have 4: "\<exists>P1 r1. seed_event ref_externals (params9n, ?p9n, 0) = Inr (P1, ?p9n, r1)"
    using rest [THEN conjunct2, THEN conjunct2, THEN conjunct1, of params9n ?p9n ref_externals 0]
    by (simp add: params9_simps)
  note counts = rest [THEN conjunct2, THEN conjunct2, THEN conjunct2]
  have zero: "\<And>P. pop P = [q] \<Longrightarrow> cm q = (\<lambda>a b. 0) \<Longrightarrow> \<forall>b<length [0::real]. cm (pop P ! 0) 0 b = 0" for q
    by simp
  have 5: "\<exists>P1 pp1 r1 cg1.
        Population_Contagiousness ref_externals params9 0 0 [0] ?p9 = Some (Inr (P1, pp1, r1, cg1))
        \<and> S pp1 ! 0 = 90 \<and> occupancy (E pp1 ! 0) = 10
        \<and> (\<exists>b pp2 r2 rep2.
              Population_Tick ref_externals P1 r1 0 [0] (snd (projr (Reporter_new params9 True))) pp1
                = (b, pp2, r2, rep2)
              \<and> S pp2 ! 0 = 90 \<and> occupancy (E pp2 ! 0) = 10)"
  proof -
    let ?rep = "snd (projr (Reporter_new params9 True))"
    note pc = seeded9
    from counts [THEN conjunct1, of ref_externals params9 0 0 "[0]" ?p9 params9 "?seeded params9" 0 "[0]" 0]
      pc ref_contract
    have s: "S (?seeded params9) ! 0 = 90" "occupancy (E (?seeded params9) ! 0) = 10"
      by (simp_all add: params9_simps size)
    obtain b pp2 r2 rep2 where
      tick: "Population_Tick ref_externals params9 0 0 [0] ?rep (?seeded params9) = (b, pp2, r2, rep2)"
      by (cases "Population_Tick ref_externals params9 0 0 [0] ?rep (?seeded params9)")
    from counts [THEN conjunct2, THEN conjunct2,
        of ref_externals params9 0 0 "[0]" ?rep "?seeded params9" b pp2 r2 rep2 0] tick ref_contract
    have "S pp2 ! 0 = 90 \<and> occupancy (E pp2 ! 0) = 10"
      by (simp add: params9_simps size)
         (simp add: ref_externals_def ref_Add_def ref_Mature_def params9_defs delay1_def enrol_def)
    with pc s tick show ?thesis
      by blast
  qed
  have 6: "\<exists>P1 pp1 r1 cg1.
        Population_Contagiousness ref_externals params9s 0 0 [0] ?p9s = Some (Inr (P1, pp1, r1, cg1))
        \<and> S pp1 = [90] \<and> map occupancy (E pp1) = [10]
        \<and> (\<exists>b pp2 r2 rep2.
              Population_Tick ref_externals P1 r1 0 [0] (snd (projr (Reporter_new params9s True))) pp1
                = (b, pp2, r2, rep2)
              \<and> S pp2 ! 0 = 90 \<and> occupancy (E pp2 ! 0) = 10)"
  proof -
    let ?rep = "snd (projr (Reporter_new params9s True))"
    from seeded9s obtain P1 r1 where
      pc: "Population_Contagiousness ref_externals params9s 0 0 [0] ?p9s
            = Some (Inr (P1, ?seeded params9s, r1, [0]))"
      and P1: "\<not> deterministic P1"
        "pop P1 = [pop_params9\<lparr>dist_seed_ages := \<lparr>weights = [1], storage = [1]\<rparr>\<rparr>]"
      by blast
    have marks: "\<forall>r st. \<exists>a<length (S ?p9s).
        fst (Multinomial ref_externals r 1 (seed_weights params9s ?p9s) st) ! a = 1"
      by (simp add: params9_simps) (simp add: ref_externals_def ref_Multinomial_def)
    from counts [THEN conjunct2, THEN conjunct1,
        of ref_externals params9s ?p9s 0 0 "[0]" P1 "?seeded params9s" r1 "[0]"]
      pc ref_contract marks
    have "sum_list (S (?seeded params9s)) = 90
        \<and> sum_list (map occupancy (E (?seeded params9s))) = 10"
      by (simp add: params9_simps size)
    then have s: "S (?seeded params9s) = [90]" "map occupancy (E (?seeded params9s)) = [10]"
      by simp_all
    obtain b pp2 r2 rep2 where
      tick: "Population_Tick ref_externals P1 r1 0 [0] ?rep (?seeded params9s) = (b, pp2, r2, rep2)"
      by (cases "Population_Tick ref_externals P1 r1 0 [0] ?rep (?seeded params9s)")
    have bin: "\<forall>r n. fst (Binomial ref_externals r n 0) = 0"
      by (simp add: ref_externals_def ref_Binomial_def)
    from counts [THEN conjunct2, THEN conjunct2,
        of ref_externals P1 r1 0 "[0]" ?rep "?seeded params9s" b pp2 r2 rep2 0] tick ref_contract bin
    have "S pp2 ! 0 = 90 \<and> occupancy (E pp2 ! 0) = 10"
      by (simp add: params9_simps size P1 pop_params9_def pop_params0_def)
         (simp add: ref_externals_def ref_Add_def ref_Mature_def ref_Multinomial_def P1
           pop_params9_def pop_params0_def delay1_def enrol_def)
    then have after: "S pp2 ! 0 = 90" "occupancy (E pp2 ! 0) = 10"
      by simp_all
    show ?thesis
    proof (intro exI conjI)
      show "Population_Contagiousness ref_externals params9s 0 0 [0] ?p9s
            = Some (Inr (P1, ?seeded params9s, r1, [0]))" by (rule pc)
      show "S (?seeded params9s) = [90]" by (rule s)
      show "map occupancy (E (?seeded params9s)) = [10]" by (rule s)
      show "Population_Tick ref_externals P1 r1 0 [0] ?rep (?seeded params9s) = (b, pp2, r2, rep2)"
        by (rule tick)
      show "S pp2 ! 0 = 90" by (rule after)
      show "occupancy (E pp2 ! 0) = 10" by (rule after)
    qed
  qed
  from ref_contract 1 2 3 4 5 6 show ?thesis by (intro conjI)
qed

text \<open>
  Modelled from the spec: a second instance of the multinomial draw of \<^verbatim>\<open>Randomizer\<close>
  (\<^verbatim>\<open>randomizer.h\<close>), as little random as \<open>ref_Multinomial\<close>: the first draw of a run falls
  into the first category and every later one into the last, which draws over equal
  weights can do.
\<close>

definition later_Multinomial :: "nat \<Rightarrow> real \<Rightarrow> real list \<Rightarrow> nat list \<Rightarrow> nat list \<times> nat" where
  "later_Multinomial r n q out =
     (map (\<lambda>i. if i = (if r = 0 then 0 else length q - 1) then nat \<lfloor>n\<rfloor> else 0) [0..<length q],
      Suc r)"

definition later_externals :: "(ref_compartment, nat) externals" where
  "later_externals = ref_externals\<lparr>Multinomial := later_Multinomial\<rparr>"

text \<open>
  A population of two age groups of 100 with equal age weights, without contact, in
  stochastic mode, and two entries of the seed schedule at time 0.
\<close>

definition pop_params8 :: PopulationParameters where
  "pop_params8 =
     \<lparr>size_pp = [100, 100], seed_times = [0, 0],
      dist_seed_ages = \<lparr>weights = [1/2, 1/2], storage = [0, 0]\<rparr>,
      schedule = [], u = [1, 1], cm = (\<lambda>a b. 0), fIp = [1, 1], fIa = [1/2, 1/2], fIs = [1, 1],
      y = [1/2, 1/2], rho = [1, 1], tau = [1, 1],
      dE = delay1, dIp = delay1, dIa = delay1, dIs = delay1, dH = delay1, dC = delay1\<rparr>"

definition params8s :: Parameters where
  "params8s = params0\<lparr>deterministic := False, pop := [pop_params8]\<rparr>"

lemma tick7s:
  "\<exists>P1 mp1 r1 rep1. Metapopulation_Tick ref_externals params7s 0 0 0 rep (Metapopulation_new ref_externals params7s)
      = Some (Inr (True, P1, mp1, r1, rep1))
     \<and> S (pops mp1 ! 0) = [99] \<and> map occupancy (E (pops mp1 ! 0)) = [1]"
  by (simp add: tick_defs params7s_def params7_def pop_params7_def params0_def pop_params0_def
      split: prod.splits)

lemma tick7:
  "\<exists>P1 mp1 r1 rep1. Metapopulation_Tick ref_externals params7 0 0 0 rep (Metapopulation_new ref_externals params7)
      = Some (Inr (True, P1, mp1, r1, rep1))
     \<and> S (pops mp1 ! 0) = [90] \<and> map occupancy (E (pops mp1 ! 0)) = [10]"
  by (simp add: tick_defs params7s_def params7_def pop_params7_def params0_def pop_params0_def
      split: prod.splits)

lemma tick8s:
  "\<exists>P1 mp1 r1 rep1. Metapopulation_Tick later_externals params8s 0 0 0 rep (Metapopulation_new later_externals params8s)
      = Some (Inr (True, P1, mp1, r1, rep1))
     \<and> S (pops mp1 ! 0) = [99, 99] \<and> map occupancy (E (pops mp1 ! 0)) = [1, 1]"
  by (simp add: tick_defs later_externals_def later_Multinomial_def params8s_def pop_params8_def
      params0_def numeral_2_eq_2 split: prod.splits)

text \<open>
  Claim C4 as stated fails. An event has no count \<open>n\<close> of its own: the schedule of one
  entry at time 0 with age weight 10 is an event of 10 individuals in deterministic mode
  (after the tick at time 0, \<open>S\<close> is 90 and \<open>E\<close> holds 10), and the same schedule moves one
  individual in stochastic mode (\<open>S\<close> is 99 and \<open>E\<close> holds 1). And the individuals seeded at
  one time do not go to a single age group: each entry has its own draw, so two entries at
  time 0 can put one individual into each of two age groups.
\<close>

theorem C4_event_of_ten_counterexample:
  "(\<exists>P1 mp1 r1 rep1.
      Metapopulation_Tick ref_externals params7 0 0 0 (snd (projr (Reporter_new params7 True)))
          (Metapopulation_new ref_externals params7)
        = Some (Inr (True, P1, mp1, r1, rep1))
      \<and> S (pops mp1 ! 0) = [90] \<and> map occupancy (E (pops mp1 ! 0)) = [10])
   \<and> (\<exists>P1 mp1 r1 rep1.
      Metapopulation_Tick ref_externals params7s 0 0 0 (snd (projr (Reporter_new params7s True)))
          (Metapopulation_new ref_externals params7s)
        = Some (Inr (True, P1, mp1, r1, rep1))
      \<and> S (pops mp1 ! 0) = [99] \<and> map occupancy (E (pops mp1 ! 0)) = [1])
   \<and> (\<exists>P1 mp1 r1 rep1.
      Metapopulation_Tick later_externals params8s 0 0 0 (snd (projr (Reporter_new params8s True)))
          (Metapopulation_new later_externals params8s)
        = Some (Inr (True, P1, mp1, r1, rep1))
      \<and> S (pops mp1 ! 0) = [99, 99] \<and> map occupancy (E (pops mp1 ! 0)) = [1, 1])"
  using tick7 tick7s tick8s by (intro conjI)

end
